(* ===== verification/Prelude.thy ===== *)
theory Prelude
  imports Main "HOL-Library.Word" "HOL-Library.List_Lexorder" "HOL-Library.Char_ord"
begin

text \<open>
  What the Go language and its standard library give the program, and the facts the components
  share: bounds-checked slices, truncated remainder, the \<open>int64\<close> range, time stamps, and the
  interfaces (locales) that several components provide: a deterministic state machine with an
  invariant, a bounded log, a self-delimiting codec, a document format.  Go strings and byte slices are \<open>string\<close>
  (a list of 8-bit characters), compared bytewise by the order of \<open>List_Lexorder\<close>.
\<close>

unbundle bit_operations_syntax

named_theorems model_defs \<open>definitions a component's proofs unfold\<close>
named_theorems inv_intros \<open>operations that preserve a component's invariant\<close>
named_theorems step_simps \<open>one-step equations of a component's operations\<close>

section \<open>Integers and slices\<close>

definition min_int64 :: int where
  "min_int64 = - (2 ^ 63)"

definition max_int64 :: int where
  "max_int64 = 2 ^ 63 - 1"

definition in_int64 :: "int \<Rightarrow> bool" where
  "in_int64 n \<longleftrightarrow> min_int64 \<le> n \<and> n \<le> max_int64"

lemma in_int64_num [simp]: "in_int64 0" "in_int64 1" "in_int64 (numeral k) = (numeral k \<le> max_int64)"
  by (simp_all add: in_int64_def min_int64_def max_int64_def)

text \<open>The two's complement reading of a sum or product that may leave the 64-bit range.\<close>

definition wrap64 :: "int \<Rightarrow> int" where
  "wrap64 n = (n + 2 ^ 63) mod 2 ^ 64 - 2 ^ 63"

lemma wrap64_id: "in_int64 n \<Longrightarrow> wrap64 n = n"
  by (simp add: wrap64_def in_int64_def min_int64_def max_int64_def)

lemma wrap64_range: "in_int64 (wrap64 n)"
proof -
  have "0 \<le> (n + 2 ^ 63) mod 2 ^ 64" "(n + 2 ^ 63) mod 2 ^ 64 < (2 ^ 64 :: int)"
    by simp_all
  then show ?thesis by (simp add: wrap64_def in_int64_def min_int64_def max_int64_def)
qed

text \<open>Go's \<open>%\<close> truncates towards zero; a zero divisor panics (\<open>None\<close>).\<close>

definition go_rem :: "int \<Rightarrow> int \<Rightarrow> int option" where
  "go_rem a b = (if b = 0 then None else Some (sgn a * (\<bar>a\<bar> mod \<bar>b\<bar>)))"

lemma go_rem_nonneg: "0 \<le> a \<Longrightarrow> 0 < b \<Longrightarrow> go_rem a b = Some (a mod b)"
  by (cases "a = 0") (simp_all add: go_rem_def)

text \<open>Indexing and storing outside a slice panic (\<open>None\<close>).\<close>

definition go_index :: "'a list \<Rightarrow> int \<Rightarrow> 'a option" where
  "go_index xs i = (if 0 \<le> i \<and> i < int (length xs) then Some (xs ! nat i) else None)"

definition go_store :: "'a list \<Rightarrow> int \<Rightarrow> 'a \<Rightarrow> 'a list option" where
  "go_store xs i v = (if 0 \<le> i \<and> i < int (length xs) then Some (xs[nat i := v]) else None)"

lemma go_index_Some [simp]: "i < length xs \<Longrightarrow> go_index xs (int i) = Some (xs ! i)"
  by (simp add: go_index_def)

lemma go_store_Some [simp]: "i < length xs \<Longrightarrow> go_store xs (int i) v = Some (xs[i := v])"
  by (simp add: go_store_def)

text \<open>The slice expression \<open>xs[lo:]\<close>.\<close>

definition go_slice_from :: "'a list \<Rightarrow> int \<Rightarrow> 'a list option" where
  "go_slice_from xs lo =
     (if 0 \<le> lo \<and> lo \<le> int (length xs) then Some (drop (nat lo) xs) else None)"

lemma upto_upt: "[0..int n - 1] = map int [0..<n]"
proof (induction n)
  case 0
  then show ?case by simp
next
  case (Suc n)
  have "[0..int (Suc n) - 1] = [0..int n - 1] @ [int n]"
    by (simp add: upto_rec2)
  with Suc show ?case by simp
qed

section \<open>Time\<close>

text \<open>
  A \<open>time.Time\<close> is its distance from the Unix epoch in nanoseconds (the zero \<open>Time\<close>
  is the first of January of the year 1); a \<open>time.Duration\<close> is an \<open>int64\<close> of
  nanoseconds, and a difference of times saturates to it.
\<close>

type_synonym gotime = int
type_synonym duration = int

definition zero_time :: gotime where
  "zero_time = - 62135596800 * 1000000000"

definition time_IsZero :: "gotime \<Rightarrow> bool" where
  "time_IsZero t \<longleftrightarrow> t = zero_time"

definition time_to_milli :: "gotime \<Rightarrow> int" where
  "time_to_milli t = t div 1000000"

definition time_of_milli :: "int \<Rightarrow> gotime" where
  "time_of_milli ms = ms * 1000000"

definition time_Sub :: "gotime \<Rightarrow> gotime \<Rightarrow> duration" where
  "time_Sub t u = max min_int64 (min max_int64 (t - u))"

lemma milli_roundtrip [simp]: "time_to_milli (time_of_milli ms) = ms"
  by (simp add: time_to_milli_def time_of_milli_def)

lemma time_of_milli_less [simp]: "time_of_milli a < time_of_milli b \<longleftrightarrow> a < b"
  by (simp add: time_of_milli_def)

lemma time_of_milli_inject [simp]: "time_of_milli a = time_of_milli b \<longleftrightarrow> a = b"
  by (simp add: time_of_milli_def)

definition second :: duration where
  "second = 1000000000"

definition hour :: duration where
  "hour = 3600 * second"

section \<open>Outcomes\<close>

text \<open>What a call can do: return, return an error, panic, or wait for ever.\<close>

datatype ('e, 'a) outcome = Returns 'a | Fails 'e | Panics | Blocks

text \<open>A stateful call followed by what is done with its result.\<close>

definition after ::
    "('e, 'a) outcome \<times> 's \<Rightarrow> ('a \<Rightarrow> 's \<Rightarrow> ('e, 'b) outcome \<times> 's) \<Rightarrow> ('e, 'b) outcome \<times> 's" where
  "after r f =
     (case r of
        (Returns x, s) \<Rightarrow> f x s
      | (Fails e, s) \<Rightarrow> (Fails e, s)
      | (Panics, s) \<Rightarrow> (Panics, s)
      | (Blocks, s) \<Rightarrow> (Blocks, s))"

lemma after_simps [simp]:
  "after (Returns x, s) f = f x s"
  "after (Fails e, s) f = (Fails e, s)"
  "after (Panics, s) f = (Panics, s)"
  "after (Blocks, s) f = (Blocks, s)"
  by (simp_all add: after_def)

section \<open>Strings with a separator\<close>

fun join_with :: "string \<Rightarrow> string list \<Rightarrow> string" where
  "join_with sep [] = []"
| "join_with sep [s] = s"
| "join_with sep (s # ss) = s @ sep @ join_with sep ss"

section \<open>The last elements of a list\<close>

definition lastn :: "nat \<Rightarrow> 'a list \<Rightarrow> 'a list" where
  "lastn n xs = drop (length xs - n) xs"

lemma lastn_all [simp]: "length xs \<le> n \<Longrightarrow> lastn n xs = xs"
  by (simp add: lastn_def)

lemma length_lastn [simp]: "length (lastn n xs) = min n (length xs)"
  by (simp add: lastn_def)

lemma lastn_0 [simp]: "lastn 0 xs = []"
  by (simp add: lastn_def)

lemma lastn_Suc_snoc [simp]: "lastn (Suc n) (xs @ [x]) = lastn n xs @ [x]"
  by (simp add: lastn_def)

lemma lastn_lastn [simp]: "lastn m (lastn n xs) = lastn (min m n) xs"
  by (cases "m \<le> n"; cases "n \<le> length xs") (simp_all add: lastn_def)

lemma lastn_lastn_snoc: "lastn n (lastn n xs @ [x]) = lastn n (xs @ [x])"
  by (cases n) simp_all

lemma lastn_append: "lastn n (xs @ ys) = lastn (n - length ys) xs @ lastn n ys"
  by (cases "n \<le> length ys") (simp_all add: lastn_def)

lemma lastn_lastn_append: "lastn n (lastn n xs @ ys) = lastn n (xs @ ys)"
  by (simp add: lastn_append)

lemma set_lastn: "set (lastn n xs) \<subseteq> set xs"
  by (simp add: lastn_def set_drop_subset)

lemma lastn_suffix: "\<exists>ys. xs = ys @ lastn n xs"
  by (metis append_take_drop_id lastn_def)

section \<open>Shared interfaces\<close>

text \<open>
  A component whose operations are steps of a state machine: its state after any sequence of
  operations satisfies what holds at the start and is kept by every operation.
\<close>

locale step_machine =
  fixes step :: "'s \<Rightarrow> 'e \<Rightarrow> 's" and inv :: "'s \<Rightarrow> bool"
  assumes step_inv: "inv s \<Longrightarrow> inv (step s e)"
begin

lemma run_from_inv: "inv s \<Longrightarrow> inv (foldl step s es)"
  by (induction es arbitrary: s) (simp_all add: step_inv)

end

locale machine = step_machine step inv
  for step :: "'s \<Rightarrow> 'e \<Rightarrow> 's" and inv :: "'s \<Rightarrow> bool" +
  fixes start :: 's
  assumes start_inv: "inv start"
begin

lemma run_inv: "inv (foldl step start es)"
  by (rule run_from_inv) (rule start_inv)

end

text \<open>A run of operations that also have effects, in order.\<close>

fun run_ops :: "('s \<Rightarrow> 'o \<Rightarrow> 's \<times> 'e list) \<Rightarrow> 's \<Rightarrow> 'o list \<Rightarrow> 's \<times> 'e list" where
  "run_ops step s [] = (s, [])"
| "run_ops step s (ev # evs) =
     (let (s', out) = step s ev; (s'', outs) = run_ops step s' evs in (s'', out @ outs))"

text \<open>A fold whose step may panic (\<open>None\<close>).\<close>

fun opt_fold :: "('b \<Rightarrow> 'm \<Rightarrow> 'b option) \<Rightarrow> 'b \<Rightarrow> 'm list \<Rightarrow> 'b option" where
  "opt_fold f b [] = Some b"
| "opt_fold f b (m # ms) = (case f b m of None \<Rightarrow> None | Some b' \<Rightarrow> opt_fold f b' ms)"

text \<open>
  A bounded history: adding never panics on a well-formed log and keeps the newest \<open>cap\<close> items.
  The clients of the interface are the rooms that store their messages in one.
\<close>

locale bounded_log =
  fixes add :: "'b \<Rightarrow> 'm \<Rightarrow> 'b option" and items :: "'b \<Rightarrow> 'm list"
    and cap :: "'b \<Rightarrow> nat" and ok :: "'b \<Rightarrow> bool"
  assumes add_ok: "ok b \<Longrightarrow> \<exists>b'. add b m = Some b' \<and> ok b' \<and> cap b' = cap b \<and>
      items b' = lastn (cap b) (items b @ [m])"
    and items_bound: "ok b \<Longrightarrow> length (items b) \<le> cap b"
begin

lemma add_all_ok:
  "ok b \<Longrightarrow> \<exists>b'. opt_fold add b ms = Some b' \<and> ok b' \<and> cap b' = cap b \<and>
      items b' = lastn (cap b) (items b @ ms)"
proof (induction ms arbitrary: b)
  case Nil
  then show ?case by (simp add: items_bound)
next
  case (Cons m ms)
  from add_ok [OF Cons.prems, of m] obtain b1 where b1: "add b m = Some b1" "ok b1"
      "cap b1 = cap b" "items b1 = lastn (cap b) (items b @ [m])"
    by blast
  from Cons.IH [OF b1(2)] obtain b2 where "opt_fold add b1 ms = Some b2" "ok b2"
      "cap b2 = cap b" "items b2 = lastn (cap b) (lastn (cap b) (items b @ [m]) @ ms)"
    by (auto simp: b1)
  then show ?case by (simp add: b1 lastn_lastn_append)
qed

end

text \<open>Reading \<open>n\<close> values one after the other.\<close>

fun dec_seq :: "('c list \<Rightarrow> ('a \<times> 'c list) option) \<Rightarrow> nat \<Rightarrow> 'c list \<Rightarrow> ('a list \<times> 'c list) option" where
  "dec_seq dec 0 s = Some ([], s)"
| "dec_seq dec (Suc n) s =
     (case dec s of None \<Rightarrow> None
      | Some (x, s') \<Rightarrow> map_option (\<lambda>(xs, r). (x # xs, r)) (dec_seq dec n s'))"

text \<open>
  A self-delimiting wire format: the decoder reads back one encoded value and leaves the rest
  of the input.  Sequences of values then decode too, and the encoding is injective.
\<close>

locale codec =
  fixes enc :: "'a \<Rightarrow> 'c list" and dec :: "'c list \<Rightarrow> ('a \<times> 'c list) option"
    and valid :: "'a \<Rightarrow> bool"
  assumes dec_enc: "valid x \<Longrightarrow> dec (enc x @ rest) = Some (x, rest)"
begin

lemma enc_inject:
  assumes "valid x" and "valid y" and "enc x = enc y"
  shows "x = y"
proof -
  have "Some (x, []) = dec (enc x @ [])"
    by (rule dec_enc [OF assms(1), symmetric])
  also have "dec (enc x @ []) = Some (y, [])"
    unfolding assms(3) by (rule dec_enc [OF assms(2)])
  finally show ?thesis by simp
qed

lemma enc_prefix_free:
  assumes "valid x" and "valid y" and "enc x @ r = enc y @ s"
  shows "x = y \<and> r = s"
proof -
  have "Some (x, r) = dec (enc x @ r)"
    by (rule dec_enc [OF assms(1), symmetric])
  also have "dec (enc x @ r) = Some (y, s)"
    unfolding assms(3) by (rule dec_enc [OF assms(2)])
  finally show ?thesis by simp
qed

lemma dec_seq_enc:
  "\<forall>x \<in> set xs. valid x \<Longrightarrow> dec_seq dec (length xs) (concat (map enc xs) @ rest) = Some (xs, rest)"
  by (induction xs) (simp_all add: dec_enc)

end

text \<open>
  A document format: what the encoder gives for a value the decoder reads back, so that different values never share
  a text.
\<close>

locale document =
  fixes print :: "'a \<Rightarrow> string option" and read :: "string \<Rightarrow> 'a option" and valid :: "'a \<Rightarrow> bool"
  assumes read_print: "valid x \<Longrightarrow> \<exists>t. print x = Some t \<and> read t = Some x"
begin

lemma print_inject: "valid x \<Longrightarrow> valid y \<Longrightarrow> print x = print y \<Longrightarrow> x = y"
  using read_print [of x] read_print [of y] by auto

end

end
