(* ===== verification/Types.thy ===== *)
theory Types
  imports Prelude
begin

text \<open>
  The data of package \<open>engine\<close>: messages, room configuration, options, events, errors
  (\<open>engine/types.go\<close>, the error values of \<open>engine/protocol.go\<close> and the room options of
  \<open>engine/options.go\<close>).  Go maps are partial functions; a string-typed enumeration stays a
  string; a byte slice that may be nil is an option.  The \<open>interface{}\<close> payload of \<open>PresenceInfo\<close>, which the package never reads, is
  left out.
\<close>

section \<open>Messages\<close>

type_synonym message_type = string

record message =
  msg_ID :: string
  msg_RoomID :: string
  msg_SenderID :: string
  msg_Type :: message_type
  msg_Content :: "string option"
  msg_Metadata :: "string \<rightharpoonup> string"
  msg_Timestamp :: gotime

text \<open>The bytes of a slice; a nil slice has none.\<close>

definition content_text :: "string option \<Rightarrow> string" where
  "content_text c = (case c of None \<Rightarrow> '''' | Some s \<Rightarrow> s)"

lemma content_text_simps [simp]: "content_text None = ''''" "content_text (Some s) = s"
  by (simp_all add: content_text_def)

definition MessageTypeText :: message_type where
  "MessageTypeText = ''text''"

section \<open>Errors\<close>

text \<open>
  The error values the package makes.  \<open>ForeignError\<close> is an error returned by code outside the
  package (a subscriber, a transport, the Redis client), \<open>Wrapped\<close> a \<open>fmt.Errorf\<close> with \<open>%w\<close>.
\<close>

datatype go_error =
    ErrBadRequest
  | ErrUnauthorized
  | ErrPermissionDenied
  | ErrNotFound
  | ErrAlreadyExists
  | ErrInternal
  | ErrHandlerClosed
  | RoomNotFound string
  | RoomAlreadyExists string
  | DeliveryPanicError string string
  | ForeignError string
  | Wrapped string go_error

fun error_text :: "go_error \<Rightarrow> string" where
  "error_text ErrBadRequest = ''bad request''"
| "error_text ErrUnauthorized = ''unauthorized''"
| "error_text ErrPermissionDenied = ''permission denied''"
| "error_text ErrNotFound = ''not found''"
| "error_text ErrAlreadyExists = ''already exists''"
| "error_text ErrInternal = ''internal error''"
| "error_text ErrHandlerClosed = ''client handler closed''"
| "error_text (RoomNotFound r) = ''room '' @ r @ '' not found''"
| "error_text (RoomAlreadyExists r) = ''room '' @ r @ '' already exists''"
| "error_text (DeliveryPanicError u _) = ''panic during delivery to '' @ u"
| "error_text (ForeignError s) = s"
| "error_text (Wrapped s e) = s @ '': '' @ error_text e"

section \<open>Delivery\<close>

datatype delivery_status =
    DeliveryPending
  | DeliverySuccess
  | DeliveryFailed
  | DeliveryOffline

record delivery_result =
  dr_UserID :: string
  dr_Status :: delivery_status
  dr_Error :: "go_error option"

record publish_options =
  po_SkipSender :: bool
  po_Priority :: int
  po_TTL :: duration
  po_Persist :: bool

definition DefaultPublishOptions :: publish_options where
  "DefaultPublishOptions =
     \<lparr>po_SkipSender = True, po_Priority = 0, po_TTL = 0, po_Persist = True\<rparr>"

record recovery_options =
  ro_FromID :: string
  ro_Limit :: int
  ro_Since :: gotime

section \<open>Rooms\<close>

datatype room_type = RoomTypeGroup | RoomTypeDirect | RoomTypeOther string

record room_config =
  rc_ID :: string
  rc_Type :: room_type
  rc_HistorySize :: int
  rc_HistoryTTL :: duration
  rc_Members :: "string list"

record presence_info =
  pi_UserID :: string
  pi_ClientID :: string
  pi_ConnectedAt :: gotime

section \<open>Events and statistics\<close>

datatype event_type =
    EventTypeConnect | EventTypeDisconnect | EventTypeSubscribe | EventTypeUnsubscribe
  | EventTypePublish | EventTypeDelivery | EventTypeError

text \<open>The entries the package puts into an event's \<open>Data\<close> map.\<close>

datatype event_data =
    NoData
  | PublishData string nat
  | DeliveryPanicData string string
  | ListenPanicData string
  | StreamErrorsData nat string
  | PubSubFailedData string string

record event =
  ev_Type :: event_type
  ev_RoomID :: string
  ev_UserID :: string
  ev_Timestamp :: gotime
  ev_Data :: event_data

record stats =
  st_ActiveRooms :: int
  st_ActiveSubscribers :: int
  st_TotalMessages :: int
  st_Uptime :: int

section \<open>Room options\<close>

type_synonym room_option = "room_config \<Rightarrow> room_config"

definition WithRoomType :: "room_type \<Rightarrow> room_option" where
  "WithRoomType t c = c\<lparr>rc_Type := t\<rparr>"

definition WithRoomMembers :: "string list \<Rightarrow> room_option" where
  "WithRoomMembers members c = c\<lparr>rc_Members := members\<rparr>"

definition WithRoomHistorySize :: "int \<Rightarrow> room_option" where
  "WithRoomHistorySize sz c = c\<lparr>rc_HistorySize := sz\<rparr>"

definition WithRoomHistoryTTL :: "duration \<Rightarrow> room_option" where
  "WithRoomHistoryTTL ttl c = c\<lparr>rc_HistoryTTL := ttl\<rparr>"

definition NewRoomConfig :: "string \<Rightarrow> room_option list \<Rightarrow> room_config" where
  "NewRoomConfig i opts =
     foldl (\<lambda>cfg opt. opt cfg)
       \<lparr>rc_ID = i, rc_Type = RoomTypeGroup, rc_HistorySize = 1000, rc_HistoryTTL = 24 * hour,
        rc_Members = []\<rparr> opts"

end
