(* ===== verification/RingBuffer.thy ===== *)
theory RingBuffer
  imports Types
begin

text \<open>
  The history of an in-memory room: \<open>RingBuffer\<close> of \<open>engine/memory_relay.go\<close>.  The state is
  the Go struct, a nil message pointer is \<open>None\<close>, and every index and remainder is checked as Go
  checks it (\<open>None\<close> is a panic).  The abstraction \<open>rb_abs\<close> lists the slots from oldest to
  newest; \<open>Add\<close> refines "append, then keep the last \<open>size\<close>".
\<close>

section \<open>State and operations\<close>

record 'm ring_buffer =
  rb_messages :: "'m option list"
  rb_size :: int
  rb_head :: int
  rb_count :: int

definition NewRingBuffer :: "int \<Rightarrow> 'm ring_buffer" where
  "NewRingBuffer sz =
     (let n = (if sz \<le> 0 then 100 else sz)
      in \<lparr>rb_messages = replicate (nat n) None, rb_size = n, rb_head = 0, rb_count = 0\<rparr>)"

definition rb_Add :: "'m ring_buffer \<Rightarrow> 'm option \<Rightarrow> 'm ring_buffer option" where
  "rb_Add rb msg =
     (case go_store (rb_messages rb) (rb_head rb) msg of
        None \<Rightarrow> None
      | Some ms \<Rightarrow>
          (case go_rem (rb_head rb + 1) (rb_size rb) of
             None \<Rightarrow> None
           | Some h \<Rightarrow>
               Some (rb\<lparr>rb_messages := ms, rb_head := h,
                       rb_count := (if rb_count rb < rb_size rb then rb_count rb + 1
                                    else rb_count rb)\<rparr>)))"

fun rb_collect :: "'m ring_buffer \<Rightarrow> int \<Rightarrow> int list \<Rightarrow> 'm list \<Rightarrow> 'm list option" where
  "rb_collect rb start [] result = Some result"
| "rb_collect rb start (i # is) result =
     (case go_rem (start + i) (rb_size rb) of
        None \<Rightarrow> None
      | Some idx \<Rightarrow>
          (case go_index (rb_messages rb) idx of
             None \<Rightarrow> None
           | Some None \<Rightarrow> rb_collect rb start is result
           | Some (Some m) \<Rightarrow> rb_collect rb start is (result @ [m])))"

definition rb_GetAll :: "'m ring_buffer \<Rightarrow> 'm list option" where
  "rb_GetAll rb =
     (case go_rem (rb_head rb - rb_count rb + rb_size rb) (rb_size rb) of
        None \<Rightarrow> None
      | Some start \<Rightarrow> rb_collect rb start [0..rb_count rb - 1] [])"

text \<open>The buffer holds pointers; \<open>id_of\<close> reads the ID of the message a stored item points to.\<close>

fun since_loop :: "('m \<Rightarrow> string) \<Rightarrow> string \<Rightarrow> bool \<Rightarrow> 'm list \<Rightarrow> 'm list" where
  "since_loop id_of afterID found [] = []"
| "since_loop id_of afterID found (msg # all) =
     (if found then msg # since_loop id_of afterID found all
      else since_loop id_of afterID (id_of msg = afterID) all)"

definition rb_GetSince :: "('m \<Rightarrow> string) \<Rightarrow> 'm ring_buffer \<Rightarrow> string \<Rightarrow> 'm list option" where
  "rb_GetSince id_of rb afterID =
     map_option (since_loop id_of afterID (afterID = '''' \<or> afterID = ''0'' \<or> afterID = ''-''))
       (rb_GetAll rb)"

definition rb_GetLast :: "'m ring_buffer \<Rightarrow> int \<Rightarrow> 'm list option" where
  "rb_GetLast rb n =
     (case rb_GetAll rb of
        None \<Rightarrow> None
      | Some all \<Rightarrow>
          (if int (length all) \<le> n then Some all
           else go_slice_from all (int (length all) - n)))"

definition rb_Len :: "'m ring_buffer \<Rightarrow> int" where
  "rb_Len rb = rb_count rb"

section \<open>Invariant and abstraction\<close>

definition rb_inv :: "'m ring_buffer \<Rightarrow> bool" where
  "rb_inv rb \<longleftrightarrow>
     0 < rb_size rb \<and> int (length (rb_messages rb)) = rb_size rb \<and>
     0 \<le> rb_head rb \<and> rb_head rb < rb_size rb \<and>
     0 \<le> rb_count rb \<and> rb_count rb \<le> rb_size rb"

definition rb_pos :: "'m ring_buffer \<Rightarrow> int \<Rightarrow> int" where
  "rb_pos rb i = (rb_head rb - rb_count rb + i) mod rb_size rb"

definition rb_abs :: "'m ring_buffer \<Rightarrow> 'm option list" where
  "rb_abs rb = map (\<lambda>i. rb_messages rb ! nat (rb_pos rb (int i))) [0..<nat (rb_count rb)]"

lemma length_rb_abs [simp]: "length (rb_abs rb) = nat (rb_count rb)"
  by (simp add: rb_abs_def)

lemma rb_pos_bounds: "rb_inv rb \<Longrightarrow> 0 \<le> rb_pos rb i \<and> rb_pos rb i < rb_size rb"
  by (simp add: rb_pos_def rb_inv_def)

lemma rb_inv_new: "rb_inv (NewRingBuffer n)"
  by (simp add: rb_inv_def NewRingBuffer_def Let_def)

lemma rb_abs_new [simp]: "rb_abs (NewRingBuffer n) = []"
  by (simp add: rb_abs_def NewRingBuffer_def Let_def)

lemma rb_size_new: "rb_size (NewRingBuffer n) = (if n \<le> 0 then 100 else n)"
  by (simp add: NewRingBuffer_def Let_def)

text \<open>A slot other than the head is a different index: the distance is not a multiple of the size.\<close>

lemma mod_diff_neq:
  fixes h d n :: int
  assumes "0 < d" and "d < n" and "0 \<le> h" and "h < n"
  shows "(h - d) mod n \<noteq> h"
proof
  assume "(h - d) mod n = h"
  with assms have "(h - d) mod n = h mod n" by simp
  then have "n dvd (h - d) - h" by (simp add: mod_eq_dvd_iff)
  then have "n dvd d" by simp
  with assms show False by (auto dest: zdvd_imp_le)
qed

definition rb_added :: "'m ring_buffer \<Rightarrow> 'm option \<Rightarrow> 'm ring_buffer" where
  "rb_added rb m =
     rb\<lparr>rb_messages := (rb_messages rb)[nat (rb_head rb) := m],
        rb_head := (rb_head rb + 1) mod rb_size rb,
        rb_count := (if rb_count rb < rb_size rb then rb_count rb + 1 else rb_count rb)\<rparr>"

lemma rb_Add_added: "rb_inv rb \<Longrightarrow> rb_Add rb m = Some (rb_added rb m)"
  by (simp add: rb_Add_def rb_added_def rb_inv_def go_store_def go_rem_nonneg)

lemma rb_inv_added [inv_intros]: "rb_inv rb \<Longrightarrow> rb_inv (rb_added rb m)"
  by (auto simp: rb_inv_def rb_added_def)

lemma rb_size_added [simp]: "rb_size (rb_added rb m) = rb_size rb"
  by (simp add: rb_added_def)

lemma rb_pos_added:
  "rb_pos (rb_added rb m) i =
    (if rb_count rb < rb_size rb then rb_pos rb i else rb_pos rb (i + 1))"
proof -
  have shift: "(a mod n - c + i) mod n = (a - c + i) mod n" for a c n :: int
    using mod_add_left_eq [of a n "i - c"] by (simp add: algebra_simps)
  show ?thesis
    by (simp add: rb_pos_def rb_added_def shift) (simp add: algebra_simps)
qed

lemma rb_pos_old:
  assumes "rb_inv rb" and "0 \<le> i" and "i < rb_count rb"
    and "rb_count rb < rb_size rb \<or> 0 < i"
  shows "rb_pos rb i \<noteq> rb_head rb"
  using mod_diff_neq [of "rb_count rb - i" "rb_size rb" "rb_head rb"] assms
  by (auto simp: rb_pos_def rb_inv_def algebra_simps)

lemma rb_pos_count: "rb_inv rb \<Longrightarrow> rb_pos rb (rb_count rb) = rb_head rb"
  by (simp add: rb_pos_def rb_inv_def)

lemma rb_slot_added:
  assumes "rb_inv rb"
  shows "rb_messages (rb_added rb m) ! nat (rb_pos rb i) =
    (if rb_pos rb i = rb_head rb then m else rb_messages rb ! nat (rb_pos rb i))"
  using assms rb_pos_bounds [OF assms, of i]
  by (auto simp: rb_added_def rb_inv_def nth_list_update)

lemma rb_abs_added:
  assumes inv: "rb_inv rb"
  shows "rb_abs (rb_added rb m) = lastn (nat (rb_size rb)) (rb_abs rb @ [m])"
proof (cases "rb_count rb < rb_size rb")
  case True
  then have count: "nat (rb_count (rb_added rb m)) = Suc (nat (rb_count rb))"
    using inv by (simp add: rb_added_def rb_inv_def nat_add_distrib)
  have "rb_abs (rb_added rb m) = rb_abs rb @ [m]"
    unfolding rb_abs_def count
    using True inv rb_pos_old [OF inv] rb_pos_count [OF inv]
    by (auto simp: rb_pos_added rb_slot_added rb_inv_def)
  moreover have "length (rb_abs rb @ [m]) \<le> nat (rb_size rb)"
    using True inv by (auto simp: rb_inv_def Suc_le_eq)
  ultimately show ?thesis by simp
next
  case False
  with inv have full: "rb_count rb = rb_size rb" by (simp add: rb_inv_def)
  obtain k where k: "nat (rb_size rb) = Suc k"
    using inv by (cases "nat (rb_size rb)") (auto simp: rb_inv_def)
  then have size: "rb_size rb = int k + 1"
    using inv by (simp add: rb_inv_def)
  have count: "nat (rb_count (rb_added rb m)) = Suc k"
    using full k by (simp add: rb_added_def)
  have "rb_abs (rb_added rb m) = map (\<lambda>i. rb_messages rb ! nat (rb_pos rb (int i + 1))) [0..<k] @ [m]"
    unfolding rb_abs_def count
    using full inv rb_pos_old [OF inv] rb_pos_count [OF inv]
    by (auto simp: rb_pos_added rb_slot_added size)
  moreover have "rb_abs rb = rb_messages rb ! nat (rb_pos rb 0) #
      map (\<lambda>i. rb_messages rb ! nat (rb_pos rb (int i + 1))) [0..<k]"
    by (simp add: rb_abs_def full k upt_conv_Cons map_Suc_upt [symmetric] del: upt_Suc)
      (simp add: ac_simps)
  ultimately show ?thesis by (simp add: k lastn_def)
qed

section \<open>The history interface\<close>

interpretation history: bounded_log rb_Add rb_abs "\<lambda>rb. nat (rb_size rb)" rb_inv
proof unfold_locales
  fix rb :: "'m ring_buffer" and m
  assume inv: "rb_inv rb"
  then show "\<exists>rb'. rb_Add rb m = Some rb' \<and> rb_inv rb' \<and> nat (rb_size rb') = nat (rb_size rb) \<and>
      rb_abs rb' = lastn (nat (rb_size rb)) (rb_abs rb @ [m])"
    by (simp add: rb_Add_added rb_inv_added rb_abs_added)
  from inv show "length (rb_abs rb) \<le> nat (rb_size rb)"
    by (auto simp: rb_inv_def)
qed

section \<open>Reading the buffer\<close>

definition rb_stored :: "'m ring_buffer \<Rightarrow> 'm list" where
  "rb_stored rb = List.map_filter (\<lambda>x. x) (rb_abs rb)"

lemma map_filter_map: "List.map_filter f (map g xs) = List.map_filter (\<lambda>x. f (g x)) xs"
  by (induction xs) (simp_all add: List.map_filter_simps split: option.split)

lemma map_filter_Some [simp]: "List.map_filter (\<lambda>x. x) (map Some ms) = ms"
  by (induction ms) (simp_all add: List.map_filter_simps)

lemma rb_collect_eq:
  assumes inv: "rb_inv rb" and start: "0 \<le> start" and range: "\<forall>i \<in> set is. 0 \<le> i"
  shows "rb_collect rb start is result =
    Some (result @ List.map_filter (\<lambda>i. rb_messages rb ! nat ((start + i) mod rb_size rb)) is)"
  using range
proof (induction "is" arbitrary: result)
  case Nil
  then show ?case by (simp add: List.map_filter_simps)
next
  case (Cons i js)
  have "go_rem (start + i) (rb_size rb) = Some ((start + i) mod rb_size rb)"
    using Cons.prems start inv by (simp add: go_rem_nonneg rb_inv_def)
  moreover have "go_index (rb_messages rb) ((start + i) mod rb_size rb) =
      Some (rb_messages rb ! nat ((start + i) mod rb_size rb))"
    using inv by (simp add: go_index_def rb_inv_def)
  ultimately show ?case
    using Cons by (simp add: List.map_filter_simps split: option.splits)
qed

lemma rb_GetAll_eq:
  assumes inv: "rb_inv rb"
  shows "rb_GetAll rb = Some (rb_stored rb)"
proof -
  let ?start = "(rb_head rb - rb_count rb + rb_size rb) mod rb_size rb"
  have start: "go_rem (rb_head rb - rb_count rb + rb_size rb) (rb_size rb) = Some ?start"
    using inv by (simp add: go_rem_nonneg rb_inv_def)
  have "rb_GetAll rb = Some (List.map_filter
      (\<lambda>i. rb_messages rb ! nat ((?start + i) mod rb_size rb)) [0..rb_count rb - 1])"
    unfolding rb_GetAll_def start using inv
    by (simp add: rb_collect_eq [OF inv] rb_inv_def)
  moreover have "(?start + i) mod rb_size rb = rb_pos rb i" for i
    by (simp add: rb_pos_def mod_simps)
  moreover have "[0..rb_count rb - 1] = map int [0..<nat (rb_count rb)]"
    using upto_upt [of "nat (rb_count rb)"] inv by (simp add: rb_inv_def)
  ultimately show ?thesis
    by (simp add: rb_stored_def rb_abs_def map_filter_map)
qed

lemma rb_GetLast_eq:
  assumes "rb_inv rb"
  shows "rb_GetLast rb n = (if 0 \<le> n then Some (lastn (nat n) (rb_stored rb)) else None)"
  by (auto simp: rb_GetLast_def rb_GetAll_eq [OF assms] go_slice_from_def lastn_def nat_diff_distrib)

lemma rb_stored_new [simp]: "rb_stored (NewRingBuffer n) = []"
  by (simp add: rb_stored_def rb_abs_def NewRingBuffer_def Let_def List.map_filter_simps)

section \<open>Properties\<close>

text \<open>C8: \<open>Add\<close> on a well-formed buffer never panics, keeps the buffer well formed and its size,
  and refines the abstract history: append the message, keep the newest \<open>size\<close> slots.\<close>

theorem ring_add_refines:
  assumes "rb_inv rb"
  shows "\<exists>rb'. rb_Add rb m = Some rb' \<and> rb_inv rb' \<and> rb_size rb' = rb_size rb \<and>
    rb_abs rb' = lastn (nat (rb_size rb)) (rb_abs rb @ [m])"
  using assms by (simp add: rb_Add_added rb_inv_added rb_abs_added)

theorem ring_add_refines_witness:
  "\<exists>rb'. rb_Add (NewRingBuffer 2 :: nat ring_buffer) (Some 7) = Some rb' \<and> rb_inv rb' \<and>
    rb_size rb' = 2 \<and> rb_abs rb' = [Some 7]"
  using ring_add_refines [OF rb_inv_new [of 2], of "Some (7 :: nat)"]
  by (simp add: rb_size_new lastn_def)

text \<open>A buffer made by \<open>NewRingBuffer\<close> and filled by any number of \<open>Add\<close> calls never panics,
  and \<open>GetAll\<close> returns exactly the newest \<open>size\<close> messages, oldest first (100 of them when the
  requested size is not positive).\<close>

theorem ring_history_window:
  "\<exists>rb. opt_fold rb_Add (NewRingBuffer n) (map Some ms) = Some rb \<and>
    rb_GetAll rb = Some (lastn (if n \<le> 0 then 100 else nat n) ms) \<and>
    rb_Len rb = int (min (if n \<le> 0 then 100 else nat n) (length ms))"
proof -
  let ?c = "if n \<le> 0 then 100 else nat n"
  from history.add_all_ok [OF rb_inv_new, of n "map Some ms"]
  obtain rb where rb: "opt_fold rb_Add (NewRingBuffer n) (map Some ms) = Some rb" "rb_inv rb"
      and abs: "rb_abs rb = lastn (nat (rb_size (NewRingBuffer n :: 'a ring_buffer))) (map Some ms)"
    by auto
  from abs have abs: "rb_abs rb = map Some (lastn ?c ms)"
    by (simp add: rb_size_new lastn_def drop_map split: if_splits)
  have "rb_stored rb = lastn ?c ms"
    unfolding rb_stored_def abs by (rule map_filter_Some)
  moreover have "rb_Len rb = int (length (rb_abs rb))"
    using rb(2) by (simp add: rb_Len_def rb_inv_def)
  ultimately show ?thesis
    using rb by (simp add: rb_GetAll_eq abs)
qed

text \<open>\<open>GetLast(n)\<close> of a well-formed buffer returns the newest \<open>n\<close> messages (all of them when
  there are fewer) for every \<open>n \<ge> 0\<close>, and panics with a slice bound out of range for every
  negative \<open>n\<close>.\<close>

theorem ring_get_last:
  assumes "rb_inv rb"
  shows "rb_GetLast rb n = (if 0 \<le> n then Some (lastn (nat n) (rb_stored rb)) else None)"
  using assms by (rule rb_GetLast_eq)

theorem ring_get_last_witness:
  "rb_GetLast (rb_added (NewRingBuffer 2) (Some (7 :: nat))) 1 =
     Some (lastn 1 (rb_stored (rb_added (NewRingBuffer 2) (Some 7)))) \<and>
   rb_GetLast (rb_added (NewRingBuffer 2) (Some (7 :: nat))) (- 1) = None"
  using ring_get_last [OF rb_inv_added [OF rb_inv_new [of 2], of "Some (7 :: nat)"], of 1]
    ring_get_last [OF rb_inv_added [OF rb_inv_new [of 2], of "Some (7 :: nat)"], of "- 1"]
  by simp

lemma since_loop_found [simp]: "since_loop id_of a True ms = ms"
  by (induction ms) simp_all

lemma since_loop_seek: "since_loop id_of a False ms = tl (dropWhile (\<lambda>m. id_of m \<noteq> a) ms)"
  by (induction ms) auto

lemma rb_GetSince_eq:
  assumes "rb_inv rb"
  shows "rb_GetSince id_of rb a =
    (if a = '''' \<or> a = ''0'' \<or> a = ''-'' then Some (rb_stored rb)
     else Some (tl (dropWhile (\<lambda>m. id_of m \<noteq> a) (rb_stored rb))))"
  by (auto simp: rb_GetSince_def rb_GetAll_eq [OF assms] since_loop_seek)

text \<open>\<open>GetSince(id)\<close> returns what follows the first stored message with that ID.  An ID the
  buffer does not hold, in particular the ID of a message that has already been evicted, yields
  nothing at all although every stored message is newer; the three start markers yield everything.\<close>

theorem ring_get_since:
  assumes "rb_inv rb"
  shows "rb_GetSince id_of rb a =
    (if a = '''' \<or> a = ''0'' \<or> a = ''-'' then Some (rb_stored rb)
     else Some (tl (dropWhile (\<lambda>m. id_of m \<noteq> a) (rb_stored rb))))"
  using assms by (rule rb_GetSince_eq)

definition sample_message :: "string \<Rightarrow> string \<Rightarrow> message" where
  "sample_message i sender =
     \<lparr>msg_ID = i, msg_RoomID = ''room'', msg_SenderID = sender, msg_Type = MessageTypeText,
      msg_Content = Some ''hello'', msg_Metadata = Map.empty, msg_Timestamp = 0\<rparr>"

theorem ring_get_since_witness:
  "let rb = rb_added (rb_added (NewRingBuffer 1) (Some (sample_message ''1'' ''u'')))
              (Some (sample_message ''2'' ''u''))
   in rb_inv rb \<and> rb_stored rb = [sample_message ''2'' ''u''] \<and> rb_GetSince msg_ID rb ''1'' = Some []"
proof -
  let ?m1 = "sample_message ''1'' ''u''" and ?m2 = "sample_message ''2'' ''u''"
  let ?rb = "rb_added (rb_added (NewRingBuffer 1) (Some ?m1)) (Some ?m2)"
  have inv: "rb_inv ?rb"
    by (intro rb_inv_added rb_inv_new)
  have "rb_abs ?rb = [Some ?m2]"
    by (simp add: rb_abs_added rb_inv_added rb_inv_new rb_size_new lastn_def)
  then have stored: "rb_stored ?rb = [?m2]"
    by (simp add: rb_stored_def List.map_filter_simps)
  from ring_get_since [OF inv, of msg_ID "''1''"] inv stored show ?thesis
    by (simp add: sample_message_def Let_def)
qed

end
