(* ===== verification/Strconv.thy ===== *)
theory Strconv
  imports Prelude
begin

text \<open>
  The decimal conversions of Go's standard library the program calls: \<open>strconv.FormatInt\<close> and
  \<open>ParseInt\<close> (base 10, 64 bits), \<open>fmt\<close>'s \<open>%d\<close> and the two-number \<open>Sscanf\<close> format
  \<open>%d-%d\<close>, with the round trips the components rest on.
\<close>

section \<open>Printing\<close>

definition digit_char :: "nat \<Rightarrow> char" where
  "digit_char d = ''0123456789'' ! d"

fun nat_digits :: "nat \<Rightarrow> string" where
  "nat_digits n = (if n < 10 then [digit_char n] else nat_digits (n div 10) @ [digit_char (n mod 10)])"

declare nat_digits.simps [simp del]

definition FormatInt :: "int \<Rightarrow> string" where
  "FormatInt n = (if n < 0 then CHR ''-'' # nat_digits (nat (- n)) else nat_digits (nat n))"

section \<open>Parsing\<close>

definition is_digit :: "char \<Rightarrow> bool" where
  "is_digit c \<longleftrightarrow> 48 \<le> (of_char c :: nat) \<and> (of_char c :: nat) \<le> 57"

definition digit_val :: "char \<Rightarrow> nat" where
  "digit_val c = of_char c - 48"

definition digits_val :: "string \<Rightarrow> nat" where
  "digits_val s = foldl (\<lambda>acc c. 10 * acc + digit_val c) 0 s"

definition parse_digits :: "string \<Rightarrow> nat option" where
  "parse_digits s = (if s = [] \<or> \<not> list_all is_digit s then None else Some (digits_val s))"

definition split_sign :: "string \<Rightarrow> string \<times> string" where
  "split_sign s =
     (case s of [] \<Rightarrow> ([], [])
      | c # s' \<Rightarrow> if c = CHR ''+'' \<or> c = CHR ''-'' then ([c], s') else ([], s))"

text \<open>\<open>strconv.ParseInt(s, 10, 64)\<close>; syntax and range errors are both \<open>None\<close>.\<close>

definition ParseInt :: "string \<Rightarrow> int option" where
  "ParseInt s =
     (let (sgn, ds) = split_sign s; neg = (sgn = ''-'')
      in case parse_digits ds of
           None \<Rightarrow> None
         | Some un \<Rightarrow>
             (if \<not> neg \<and> 2 ^ 63 \<le> un then None
              else if neg \<and> 2 ^ 63 < un then None
              else Some (if neg then - int un else int un)))"

section \<open>Scanning\<close>

text \<open>The white space of \<open>fmt\<close>'s scanner other than the newline, in UTF-8.\<close>

definition space_encodings :: "string list" where
  "space_encodings =
     [[CHR 0x09], [CHR 0x0B], [CHR 0x0C], [CHR 0x0D], [CHR 0x20], [CHR 0xC2, CHR 0x85],
      [CHR 0xC2, CHR 0xA0], [CHR 0xE1, CHR 0x9A, CHR 0x80]] @
     map (\<lambda>b. [CHR 0xE2, CHR 0x80, b])
       [CHR 0x80, CHR 0x81, CHR 0x82, CHR 0x83, CHR 0x84, CHR 0x85, CHR 0x86, CHR 0x87, CHR 0x88,
        CHR 0x89, CHR 0x8A, CHR 0xA8, CHR 0xA9, CHR 0xAF] @
     [[CHR 0xE2, CHR 0x81, CHR 0x9F], [CHR 0xE3, CHR 0x80, CHR 0x80]]"

definition leading_space :: "string \<Rightarrow> string option" where
  "leading_space s = find (\<lambda>e. take (length e) s = e) space_encodings"

lemma space_encodings_nonempty: "e \<in> set space_encodings \<Longrightarrow> e \<noteq> []"
  by (auto simp: space_encodings_def)

lemma leading_space_shorter: "leading_space s = Some e \<Longrightarrow> length (drop (length e) s) < length s"
proof -
  assume "leading_space s = Some e"
  then have "e \<in> set space_encodings" and "take (length e) s = e"
    by (auto simp: leading_space_def find_Some_iff)
  with space_encodings_nonempty [of e] show ?thesis by (cases s) auto
qed

text \<open>\<open>SkipSpace\<close> under \<open>Sscanf\<close>: a newline is an error (\<open>None\<close>).\<close>

function skip_space :: "string \<Rightarrow> string option" where
  "skip_space s =
     (if take 1 s = [CHR 0x0A] then None
      else case leading_space s of None \<Rightarrow> Some s | Some e \<Rightarrow> skip_space (drop (length e) s))"
  by pat_completeness auto
termination
  by (relation "measure length") (auto dest: leading_space_shorter)

declare skip_space.simps [simp del]

text \<open>One \<open>%d\<close>: white space, an optional sign, at least one digit, a value within 64 bits.\<close>

definition scan_int :: "string \<Rightarrow> (int \<times> string) option" where
  "scan_int s =
     (case skip_space s of
        None \<Rightarrow> None
      | Some s1 \<Rightarrow>
          (let (sgn, s2) = split_sign s1; ds = takeWhile is_digit s2
           in case ParseInt (sgn @ ds) of
                None \<Rightarrow> None
              | Some n \<Rightarrow> Some (n, dropWhile is_digit s2)))"

text \<open>\<open>fmt.Sscanf(s, "%d-%d", &a, &b)\<close>; input after the second number is ignored.\<close>

definition Sscanf_d_d :: "string \<Rightarrow> (int \<times> int) option" where
  "Sscanf_d_d s =
     (case scan_int s of
        Some (a, CHR ''-'' # s') \<Rightarrow> map_option (\<lambda>(b, rest). (a, b)) (scan_int s')
      | _ \<Rightarrow> None)"

section \<open>Digits\<close>

lemma of_char_digit [simp]: "d < 10 \<Longrightarrow> of_char (digit_char d) = (48 + d :: nat)"
proof -
  assume "d < 10"
  then have "d \<in> {0, 1, 2, 3, 4, 5, 6, 7, 8, 9}" by auto
  then show ?thesis by (auto simp: digit_char_def)
qed

lemma is_digit_digit_char [simp]: "d < 10 \<Longrightarrow> is_digit (digit_char d)"
  by (simp add: is_digit_def)

lemma digit_val_digit_char [simp]: "d < 10 \<Longrightarrow> digit_val (digit_char d) = d"
  by (simp add: digit_val_def)

lemma nat_digits_nonempty [simp]: "nat_digits n \<noteq> []"
  by (subst nat_digits.simps) simp

lemma nat_digits_digits: "\<forall>c \<in> set (nat_digits n). is_digit c"
proof (induction n rule: nat_digits.induct)
  case (1 n)
  then show ?case by (cases "n < 10") (auto simp: nat_digits.simps [of n])
qed

lemma digits_val_snoc [simp]: "digits_val (s @ [c]) = 10 * digits_val s + digit_val c"
  by (simp add: digits_val_def)

lemma digits_val_nat_digits [simp]: "digits_val (nat_digits n) = n"
proof (induction n rule: nat_digits.induct)
  case (1 n)
  then show ?case
    by (cases "n < 10") (auto simp: nat_digits.simps [of n] digits_val_def [of "[_]"])
qed

lemma parse_nat_digits [simp]: "parse_digits (nat_digits n) = Some n"
  using nat_digits_digits [of n] by (simp add: parse_digits_def list_all_iff)

lemma is_digit_not_sign: "is_digit c \<Longrightarrow> c \<noteq> CHR ''+'' \<and> c \<noteq> CHR ''-''"
  by (auto simp: is_digit_def)

lemma nat_digits_Cons: "\<exists>c cs. nat_digits n = c # cs \<and> is_digit c"
  using nat_digits_digits [of n] by (cases "nat_digits n") auto

lemma split_sign_nat_digits [simp]: "split_sign (nat_digits n @ r) = ([], nat_digits n @ r)"
  using nat_digits_Cons [of n] is_digit_not_sign by (auto simp: split_sign_def)

lemma split_sign_minus [simp]: "split_sign (CHR ''-'' # s) = (''-'', s)"
  by (simp add: split_sign_def)

theorem ParseInt_FormatInt [simp]: "in_int64 n \<Longrightarrow> ParseInt (FormatInt n) = Some n"
  using split_sign_nat_digits [of "nat n" "[]"]
  by (auto simp: ParseInt_def FormatInt_def in_int64_def min_int64_def max_int64_def nat_le_iff
      simp del: split_sign_nat_digits)

lemma FormatInt_inject: "FormatInt a = FormatInt b \<longleftrightarrow> a = b"
proof
  assume eq: "FormatInt a = FormatInt b"
  have digs: "nat_digits m = nat_digits n \<Longrightarrow> m = n" for m n
    by (metis digits_val_nat_digits)
  have "CHR ''-'' # x \<noteq> nat_digits n" for x n
    using nat_digits_Cons [of n] is_digit_not_sign by fastforce
  with eq show "a = b"
    by (auto simp: FormatInt_def split: if_splits dest!: digs) (metis)+
qed simp

lemma FormatInt_chars: "c \<in> set (FormatInt n) \<Longrightarrow> is_digit c \<or> c = CHR ''-''"
  using nat_digits_digits by (auto simp: FormatInt_def split: if_splits)

lemma FormatInt_nonempty [simp]: "FormatInt n \<noteq> []"
  by (simp add: FormatInt_def)

section \<open>Scanning what was printed\<close>

lemma space_heads: "e \<in> set space_encodings \<Longrightarrow> \<not> is_digit (hd e) \<and> hd e \<noteq> CHR ''-''"
  by (auto simp: space_encodings_def is_digit_def)

lemma skip_space_id:
  assumes "is_digit c \<or> c = CHR ''-''"
  shows "skip_space (c # s) = Some (c # s)"
proof -
  have "take (length e) (c # s) \<noteq> e" if "e \<in> set space_encodings" for e
    using space_heads [OF that] space_encodings_nonempty [OF that] assms by (cases e) auto
  then have "leading_space (c # s) = None"
    by (auto simp: leading_space_def find_None_iff)
  moreover have "c \<noteq> CHR 0x0A"
    using assms by (auto simp: is_digit_def)
  ultimately show ?thesis by (subst skip_space.simps) simp
qed

lemma span_digits:
  assumes "\<forall>c \<in> set ds. is_digit c" and "r = [] \<or> \<not> is_digit (hd r)"
  shows "takeWhile is_digit (ds @ r) = ds" and "dropWhile is_digit (ds @ r) = r"
  using assms by (cases r; auto simp: takeWhile_append dropWhile_append)+

lemma scan_int_FormatInt:
  assumes "in_int64 n" and "r = [] \<or> \<not> is_digit (hd r)"
  shows "scan_int (FormatInt n @ r) = Some (n, r)"
proof (cases "n < 0")
  case True
  then have "FormatInt n = CHR ''-'' # nat_digits (nat (- n))"
    by (simp add: FormatInt_def)
  with ParseInt_FormatInt [OF assms(1)] show ?thesis
    by (simp add: scan_int_def skip_space_id span_digits [OF nat_digits_digits assms(2)])
next
  case False
  then have eq: "FormatInt n = nat_digits (nat n)"
    by (simp add: FormatInt_def)
  from nat_digits_Cons [of "nat n"] obtain c cs where c: "nat_digits (nat n) = c # cs" "is_digit c"
    by blast
  have "skip_space (nat_digits (nat n) @ r) = Some (nat_digits (nat n) @ r)"
    using c by (simp add: skip_space_id)
  with ParseInt_FormatInt [OF assms(1)] show ?thesis
    by (simp add: eq scan_int_def span_digits [OF nat_digits_digits assms(2)])
qed

lemma Sscanf_printed:
  assumes "in_int64 a" and "in_int64 b"
  shows "Sscanf_d_d (FormatInt a @ CHR ''-'' # FormatInt b) = Some (a, b)"
  using scan_int_FormatInt [OF assms(1), of "CHR ''-'' # FormatInt b"]
    scan_int_FormatInt [OF assms(2), of "[]"]
  by (simp add: Sscanf_d_d_def is_digit_def)

text \<open>The terminated decimal line of the Redis protocol, as a self-delimiting code.\<close>

lemma FormatInt_no_newline: "CHR 0x0A \<notin> set (FormatInt n)" "CHR 0x0D \<notin> set (FormatInt n)"
  using FormatInt_chars [of "CHR 0x0A" n] FormatInt_chars [of "CHR 0x0D" n]
  by (auto simp: is_digit_def)

end
