(* ===== verification/MessageId.thy ===== *)
theory MessageId
  imports Types Strconv
begin

text \<open>
  Message identifiers of \<open>engine/memory_relay.go\<close>: the generator \<open>generateMessageID\<close> (a
  millisecond clock reading and an atomic sequence number), the parser \<open>ParseMessageID\<close>, the
  comparison \<open>CompareMessageIDs\<close> and \<open>GenerateMessageIDFromTime\<close>.
\<close>

section \<open>Operations\<close>

definition ParseMessageID :: "string \<Rightarrow> (gotime \<times> int) option" where
  "ParseMessageID i = map_option (\<lambda>(ts, seq). (time_of_milli ts, seq)) (Sscanf_d_d i)"

definition CompareMessageIDs :: "string \<Rightarrow> string \<Rightarrow> int" where
  "CompareMessageIDs a b =
     (case (ParseMessageID a, ParseMessageID b) of
        (Some (tsA, seqA), Some (tsB, seqB)) \<Rightarrow>
          (if tsA < tsB then - 1
           else if tsA > tsB then 1
           else if seqA < seqB then - 1
           else if seqA > seqB then 1
           else 0)
      | _ \<Rightarrow> (if a < b then - 1 else if a > b then 1 else 0))"

definition GenerateMessageIDFromTime :: "gotime \<Rightarrow> int \<Rightarrow> string" where
  "GenerateMessageIDFromTime t seq = FormatInt (time_to_milli t) @ ''-'' @ FormatInt seq"

text \<open>\<open>generateMessageID\<close>: the sequence counter is an \<open>atomic.Int64\<close>, so it wraps around.\<close>

definition generateMessageID :: "gotime \<Rightarrow> int \<Rightarrow> string \<times> int" where
  "generateMessageID now messageSeq =
     (let seq = wrap64 (messageSeq + 1)
      in (FormatInt (time_to_milli now) @ ''-'' @ FormatInt seq, seq))"

section \<open>The order of identifiers\<close>

text \<open>The parsed identifier: a time in milliseconds and a sequence number, ordered lexicographically.\<close>

datatype message_key = MessageKey (key_ts: int) (key_seq: int)

instantiation message_key :: linorder
begin

definition less_eq_message_key :: "message_key \<Rightarrow> message_key \<Rightarrow> bool" where
  "less_eq_message_key a b \<longleftrightarrow>
     key_ts a < key_ts b \<or> key_ts a = key_ts b \<and> key_seq a \<le> key_seq b"

definition less_message_key :: "message_key \<Rightarrow> message_key \<Rightarrow> bool" where
  "less_message_key a b \<longleftrightarrow>
     key_ts a < key_ts b \<or> key_ts a = key_ts b \<and> key_seq a < key_seq b"

instance
  by standard (auto simp: less_eq_message_key_def less_message_key_def message_key.expand)

end

definition message_key_of :: "string \<Rightarrow> message_key option" where
  "message_key_of i = map_option (\<lambda>(ts, seq). MessageKey ts seq) (Sscanf_d_d i)"

lemma compare_keys:
  assumes "message_key_of a = Some x" and "message_key_of b = Some y"
  shows "CompareMessageIDs a b = (if x < y then - 1 else if y < x then 1 else 0)"
  using assms
  by (auto simp: message_key_of_def CompareMessageIDs_def ParseMessageID_def less_message_key_def
      split: option.splits)

lemma compare_unparsed:
  assumes "message_key_of a = None \<or> message_key_of b = None"
  shows "CompareMessageIDs a b = (if a < b then - 1 else if b < a then 1 else 0)"
  using assms
  by (auto simp: message_key_of_def CompareMessageIDs_def ParseMessageID_def split: option.splits)

lemma message_key_printed:
  assumes "in_int64 a" and "in_int64 b"
  shows "message_key_of (FormatInt a @ CHR ''-'' # FormatInt b) = Some (MessageKey a b)"
  using Sscanf_printed [OF assms] by (simp add: message_key_of_def)

section \<open>Properties\<close>

text \<open>Parsing the identifier made from a time and a sequence number gives back the time cut to
  milliseconds and the sequence number, for every 64-bit millisecond time and sequence, negative
  ones included.\<close>

theorem message_id_roundtrip:
  assumes "in_int64 (time_to_milli t)" and "in_int64 seq"
  shows "ParseMessageID (GenerateMessageIDFromTime t seq) =
    Some (time_of_milli (time_to_milli t), seq)"
  using Sscanf_printed [OF assms] by (simp add: ParseMessageID_def GenerateMessageIDFromTime_def)

theorem message_id_roundtrip_witness:
  "ParseMessageID (GenerateMessageIDFromTime 1700000000123456789 (- 3)) =
    Some (1700000000123000000, - 3)"
proof -
  have "in_int64 (time_to_milli 1700000000123456789)" "in_int64 (- 3)"
    by (simp_all add: time_to_milli_def in_int64_def min_int64_def max_int64_def)
  from message_id_roundtrip [OF this] show ?thesis
    by (simp add: time_to_milli_def time_of_milli_def)
qed

text \<open>On well-formed identifiers \<open>CompareMessageIDs\<close> is the total order of (time, sequence)
  pairs: negative, zero and positive exactly for less, equal and greater; it is antisymmetric on
  every pair of strings, well formed or not.\<close>

theorem compare_message_ids_order:
  "CompareMessageIDs a b = - CompareMessageIDs b a \<and>
   (message_key_of a = Some x \<and> message_key_of b = Some y \<longrightarrow>
     (CompareMessageIDs a b < 0 \<longleftrightarrow> x < y) \<and> (CompareMessageIDs a b = 0 \<longleftrightarrow> x = y) \<and>
     (CompareMessageIDs a b > 0 \<longleftrightarrow> y < x))"
proof -
  have "CompareMessageIDs a b = - CompareMessageIDs b a"
  proof (cases "message_key_of a = None \<or> message_key_of b = None")
    case True
    then show ?thesis
      by (subst (1 2) compare_unparsed) auto
  next
    case False
    then show ?thesis by (auto simp: compare_keys)
  qed
  then show ?thesis by (auto simp: compare_keys)
qed

theorem compare_message_ids_order_witness:
  "message_key_of ''5-1'' = Some (MessageKey 5 1) \<and> message_key_of ''10-0'' = Some (MessageKey 10 0) \<and>
   CompareMessageIDs ''5-1'' ''10-0'' < 0"
proof -
  have "''5-1'' = FormatInt 5 @ CHR ''-'' # FormatInt 1" "''10-0'' = FormatInt 10 @ CHR ''-'' # FormatInt 0"
    by (simp_all add: FormatInt_def nat_digits.simps digit_char_def)
  then have keys: "message_key_of ''5-1'' = Some (MessageKey 5 1)"
      "message_key_of ''10-0'' = Some (MessageKey 10 0)"
    using message_key_printed [of 5 1] message_key_printed [of 10 0]
    by (simp_all add: max_int64_def)
  with compare_message_ids_order [of "''5-1''" "''10-0''" "MessageKey 5 1" "MessageKey 10 0"]
  show ?thesis by (simp add: less_message_key_def)
qed

text \<open>The comparison is not transitive once a malformed identifier takes part: the string
  fallback closes the cycle 9-0 < 10-0 < 1x < 9-0, so sorting by it is not well defined.\<close>

theorem compare_message_ids_cycle:
  "CompareMessageIDs ''9-0'' ''10-0'' = - 1 \<and> CompareMessageIDs ''10-0'' ''1x'' = - 1 \<and>
   CompareMessageIDs ''1x'' ''9-0'' = - 1"
proof -
  have "''9-0'' = FormatInt 9 @ CHR ''-'' # FormatInt 0"
      "''10-0'' = FormatInt 10 @ CHR ''-'' # FormatInt 0"
    by (simp_all add: FormatInt_def nat_digits.simps digit_char_def)
  then have keys: "message_key_of ''9-0'' = Some (MessageKey 9 0)"
      "message_key_of ''10-0'' = Some (MessageKey 10 0)"
    using message_key_printed [of 9 0] message_key_printed [of 10 0]
    by (simp_all add: max_int64_def)
  have "is_digit CHR ''1''" "\<not> is_digit CHR ''x''"
    by (simp_all add: is_digit_def)
  then have "message_key_of ''1x'' = None"
    by (simp add: message_key_of_def Sscanf_d_d_def scan_int_def skip_space_id split_sign_def
        split: option.split)
  with keys show ?thesis
    by (simp add: compare_keys compare_unparsed less_message_key_def less_char_def)
qed

fun generate_ids :: "gotime list \<Rightarrow> int \<Rightarrow> string list" where
  "generate_ids [] seq = []"
| "generate_ids (now # clock) seq =
     (let (i, seq') = generateMessageID now seq in i # generate_ids clock seq')"

lemma generate_ids_seqs:
  assumes "0 \<le> seq" and "seq + int (length clock) \<le> max_int64"
    and "\<forall>now \<in> set clock. in_int64 (time_to_milli now)"
  shows "map (\<lambda>i. map_option key_seq (message_key_of i)) (generate_ids clock seq) =
    map (\<lambda>k. Some (seq + 1 + int k)) [0..<length clock]"
  using assms
proof (induction clock arbitrary: seq)
  case Nil
  then show ?case by simp
next
  case (Cons now clock)
  have "in_int64 (seq + 1)"
    using Cons.prems by (simp add: in_int64_def min_int64_def max_int64_def)
  then have "generate_ids (now # clock) seq =
      (FormatInt (time_to_milli now) @ CHR ''-'' # FormatInt (seq + 1)) # generate_ids clock (seq + 1)"
      and "message_key_of (FormatInt (time_to_milli now) @ CHR ''-'' # FormatInt (seq + 1)) =
        Some (MessageKey (time_to_milli now) (seq + 1))"
    using Cons.prems by (simp_all add: generateMessageID_def wrap64_id message_key_printed Let_def)
  with Cons.IH [of "seq + 1"] Cons.prems show ?case
    by (simp add: upt_conv_Cons map_Suc_upt [symmetric] algebra_simps del: upt_Suc)
qed

lemma generate_ids_no_repeat:
  assumes "0 \<le> seq" and "seq + int (length clock) \<le> max_int64"
    and "\<forall>now \<in> set clock. in_int64 (time_to_milli now)"
  shows "distinct (generate_ids clock seq)"
proof -
  have "distinct (map (\<lambda>i. map_option key_seq (message_key_of i)) (generate_ids clock seq))"
    unfolding generate_ids_seqs [OF assms] by (simp add: distinct_map inj_on_def)
  then show ?thesis by (simp only: distinct_map)
qed

lemma generated_id_long: "2 \<le> length (fst (generateMessageID now seq))"
  using FormatInt_nonempty by (cases "FormatInt (time_to_milli now)") (auto simp: generateMessageID_def Let_def)

text \<open>C29: As long as the 64-bit sequence counter does not wrap, the identifiers generated from
  consecutive counter values are pairwise distinct, whatever the clock readings are (a clock that
  steps back included).\<close>

theorem generated_ids_distinct:
  assumes "0 \<le> seq" and "seq + int (length clock) \<le> max_int64"
    and "\<forall>now \<in> set clock. in_int64 (time_to_milli now)"
  shows "distinct (generate_ids clock seq)"
  using assms by (rule generate_ids_no_repeat)

theorem generated_ids_distinct_witness:
  "generate_ids [2000000, 1000000, 1000000] 0 = [''2-1'', ''1-2'', ''1-3''] \<and>
   distinct (generate_ids [2000000, 1000000, 1000000] 0)"
proof -
  have "in_int64 (time_to_milli 2000000)" "in_int64 (time_to_milli 1000000)"
    by (simp_all add: time_to_milli_def max_int64_def)
  with generated_ids_distinct [of 0 "[2000000, 1000000, 1000000]"]
  have "distinct (generate_ids [2000000, 1000000, 1000000] 0)"
    by (simp add: max_int64_def)
  then show ?thesis
    by (simp add: generateMessageID_def wrap64_def time_to_milli_def FormatInt_def nat_digits.simps
        digit_char_def)
qed

end
