(* ===== verification/Delivery.thy ===== *)
theory Delivery
  imports Types
begin

text \<open>
  What the rooms of the two relays share: subscribers, the delivery of one message with retries and
  panic recovery, the fan-out of \<open>Broadcast\<close>, and the interface of a room's subscriber table.  A
  subscriber (the Go interface) is an identity with the user ID it reports; what its \<open>Receive\<close> does
  is a parameter.  Calls to subscribers and to the event handler are recorded as effects.
  \<open>Broadcast\<close> delivers in goroutines: the parameter \<open>fin\<close> lists the users whose delivery ended
  before the wait was over (all, or a context end or the ten seconds cut it short), in the order
  their results were appended.
\<close>

section \<open>Subscribers and effects\<close>

record subscriber =
  sub_handle :: nat
  sub_ID :: string

datatype receive_result = RecvOk | RecvErr go_error | RecvPanic string

datatype effect =
    SubReceive subscriber
  | SubClose subscriber
  | Emit event
  | GoUnsubscribe string

text \<open>The event handler may be nil.\<close>

definition emit :: "bool \<Rightarrow> event \<Rightarrow> effect list" where
  "emit has_handler ev = (if has_handler then [Emit ev] else [])"

section \<open>One delivery\<close>

datatype attempt_result = Delivered | GaveUp "go_error option" | Panicked string

text \<open>The retry loop: the result and the number of \<open>Receive\<close> calls; \<open>rx k\<close> is what the k-th does.\<close>

fun attempt_loop :: "(nat \<Rightarrow> receive_result) \<Rightarrow> nat list \<Rightarrow> go_error option \<Rightarrow> attempt_result \<times> nat" where
  "attempt_loop rx [] lastErr = (GaveUp lastErr, 0)"
| "attempt_loop rx (k # ks) lastErr =
     (case rx k of
        RecvOk \<Rightarrow> (Delivered, 1)
      | RecvErr e \<Rightarrow> (case attempt_loop rx ks (Some e) of (r, n) \<Rightarrow> (r, Suc n))
      | RecvPanic v \<Rightarrow> (Panicked v, 1))"

definition attempts :: "(nat \<Rightarrow> receive_result) \<Rightarrow> attempt_result \<times> nat" where
  "attempts rx = attempt_loop rx [0, 1, 2] None"

text \<open>The delivery result; a panic is recovered and reported.\<close>

definition delivery_result_of :: "string \<Rightarrow> attempt_result \<Rightarrow> delivery_result" where
  "delivery_result_of userID r =
     (case r of
        Delivered \<Rightarrow> \<lparr>dr_UserID = userID, dr_Status = DeliverySuccess, dr_Error = None\<rparr>
      | GaveUp e \<Rightarrow> \<lparr>dr_UserID = userID, dr_Status = DeliveryFailed, dr_Error = e\<rparr>
      | Panicked v \<Rightarrow> \<lparr>dr_UserID = userID, dr_Status = DeliveryFailed,
                     dr_Error = Some (DeliveryPanicError userID v)\<rparr>)"

definition MemoryRoom_safeDeliver ::
    "string \<Rightarrow> subscriber \<Rightarrow> (nat \<Rightarrow> receive_result) \<Rightarrow> delivery_result \<times> effect list" where
  "MemoryRoom_safeDeliver userID sub rx =
     (case attempts rx of
        (r, n) \<Rightarrow>
          (delivery_result_of userID r,
           replicate n (SubReceive sub) @
           (case r of Panicked v \<Rightarrow> [GoUnsubscribe userID] | _ \<Rightarrow> [])))"

definition Room_safeDeliver ::
    "gotime \<Rightarrow> bool \<Rightarrow> string \<Rightarrow> string \<Rightarrow> string \<Rightarrow> subscriber \<Rightarrow> (nat \<Rightarrow> receive_result) \<Rightarrow>
     delivery_result \<times> effect list" where
  "Room_safeDeliver now has_handler roomID msgID userID sub rx =
     (case attempts rx of
        (r, n) \<Rightarrow>
          (delivery_result_of userID r,
           replicate n (SubReceive sub) @
           (case r of
              Panicked v \<Rightarrow>
                emit has_handler
                  \<lparr>ev_Type = EventTypeError, ev_RoomID = roomID, ev_UserID = userID,
                   ev_Timestamp = now, ev_Data = DeliveryPanicData v msgID\<rparr>
                @ [GoUnsubscribe userID]
            | _ \<Rightarrow> [])))"

section \<open>Fan-out\<close>

definition skipped :: "publish_options option \<Rightarrow> string \<Rightarrow> string \<Rightarrow> bool" where
  "skipped opts sender userID \<longleftrightarrow>
     (case opts of Some o' \<Rightarrow> po_SkipSender o' | None \<Rightarrow> False) \<and> userID = sender"

text \<open>The result list of \<open>Broadcast\<close>, over the delivery function of the room.\<close>

definition broadcast ::
    "(string \<Rightarrow> subscriber \<Rightarrow> delivery_result \<times> effect list) \<Rightarrow> string list \<Rightarrow>
     (string \<rightharpoonup> subscriber) \<Rightarrow> string list \<Rightarrow> string \<Rightarrow> publish_options option \<Rightarrow>
     delivery_result list \<times> effect list" where
  "broadcast deliver fin subscribers members sender opts =
     (let done = [deliver u s. u \<leftarrow> remdups fin, s \<leftarrow> (case subscribers u of None \<Rightarrow> [] | Some s \<Rightarrow> [s]),
                  \<not> skipped opts sender u];
          offline = filter (\<lambda>m. \<not> skipped opts sender m \<and> subscribers m = None) members
      in (map fst done @
          map (\<lambda>m. \<lparr>dr_UserID = m, dr_Status = DeliveryOffline, dr_Error = None\<rparr>) offline,
          concat (map snd done)))"

section \<open>Presence, events, options\<close>

definition default_presence :: "string \<Rightarrow> gotime \<Rightarrow> presence_info option \<Rightarrow> presence_info" where
  "default_presence userID now info =
     (case info of
        Some i \<Rightarrow> i
      | None \<Rightarrow> \<lparr>pi_UserID = userID, pi_ClientID = '''', pi_ConnectedAt = now\<rparr>)"

definition room_event :: "event_type \<Rightarrow> string \<Rightarrow> string \<Rightarrow> gotime \<Rightarrow> event" where
  "room_event t roomID userID now =
     \<lparr>ev_Type = t, ev_RoomID = roomID, ev_UserID = userID, ev_Timestamp = now, ev_Data = NoData\<rparr>"

definition opts_or_default :: "publish_options option \<Rightarrow> publish_options" where
  "opts_or_default opts = (case opts of None \<Rightarrow> DefaultPublishOptions | Some o' \<Rightarrow> o')"

definition GenerateDMRoomID :: "string \<Rightarrow> string \<Rightarrow> string" where
  "GenerateDMRoomID userA userB =
     (if userA < userB then ''dm:'' @ userA @ '':'' @ userB else ''dm:'' @ userB @ '':'' @ userA)"

section \<open>Delivery lemmas\<close>

lemma attempts_cases:
  "attempts rx =
     (case rx 0 of RecvOk \<Rightarrow> (Delivered, 1) | RecvPanic v \<Rightarrow> (Panicked v, 1)
      | RecvErr _ \<Rightarrow>
          (case rx 1 of RecvOk \<Rightarrow> (Delivered, 2) | RecvPanic v \<Rightarrow> (Panicked v, 2)
           | RecvErr _ \<Rightarrow>
               (case rx 2 of RecvOk \<Rightarrow> (Delivered, 3) | RecvPanic v \<Rightarrow> (Panicked v, 3)
                | RecvErr e \<Rightarrow> (GaveUp (Some e), 3))))"
  by (simp add: attempts_def numeral_2_eq_2 numeral_3_eq_3 split: receive_result.split)

lemma delivery_result_user [simp]: "dr_UserID (delivery_result_of u r) = u"
  by (simp add: delivery_result_of_def split: attempt_result.split)

lemma delivery_result_online: "dr_Status (delivery_result_of u r) \<noteq> DeliveryOffline"
  by (simp add: delivery_result_of_def split: attempt_result.split)

definition broadcast_targets ::
    "(string \<rightharpoonup> subscriber) \<Rightarrow> string \<Rightarrow> publish_options option \<Rightarrow> string set" where
  "broadcast_targets subscribers sender opts = {u \<in> dom subscribers. \<not> skipped opts sender u}"

text \<open>With no cut-off the results are one per online target and one per offline member.\<close>

lemma broadcast_complete:
  assumes user: "\<And>u s. dr_UserID (fst (deliver u s)) = u"
    and all: "broadcast_targets subscribers sender opts \<subseteq> set fin"
  shows "fst (broadcast deliver fin subscribers members sender opts) =
      map (\<lambda>u. fst (deliver u (the (subscribers u))))
        (filter (\<lambda>u. u \<in> broadcast_targets subscribers sender opts) (remdups fin)) @
      map (\<lambda>m. \<lparr>dr_UserID = m, dr_Status = DeliveryOffline, dr_Error = None\<rparr>)
        (filter (\<lambda>m. \<not> skipped opts sender m \<and> subscribers m = None) members)"
    and "set (map dr_UserID (fst (broadcast deliver fin subscribers members sender opts))) =
      {u \<in> dom subscribers \<union> set members. \<not> skipped opts sender u}"
    and "distinct members \<Longrightarrow>
      distinct (map dr_UserID (fst (broadcast deliver fin subscribers members sender opts)))"
proof -
  let ?T = "broadcast_targets subscribers sender opts"
  have "map fst [deliver u s. u \<leftarrow> us, s \<leftarrow> (case subscribers u of None \<Rightarrow> [] | Some s \<Rightarrow> [s]),
      \<not> skipped opts sender u] =
    map (\<lambda>u. fst (deliver u (the (subscribers u)))) (filter (\<lambda>u. u \<in> ?T) us)" for us
    by (induction us) (auto simp: broadcast_targets_def split: option.split)
  then show eq: "fst (broadcast deliver fin subscribers members sender opts) =
      map (\<lambda>u. fst (deliver u (the (subscribers u)))) (filter (\<lambda>u. u \<in> ?T) (remdups fin)) @
      map (\<lambda>m. \<lparr>dr_UserID = m, dr_Status = DeliveryOffline, dr_Error = None\<rparr>)
        (filter (\<lambda>m. \<not> skipped opts sender m \<and> subscribers m = None) members)"
    by (simp add: broadcast_def Let_def)
  have users: "map dr_UserID (fst (broadcast deliver fin subscribers members sender opts)) =
      filter (\<lambda>u. u \<in> ?T) (remdups fin) @
      filter (\<lambda>m. \<not> skipped opts sender m \<and> subscribers m = None) members"
    unfolding eq by (simp add: user comp_def)
  show "set (map dr_UserID (fst (broadcast deliver fin subscribers members sender opts))) =
      {u \<in> dom subscribers \<union> set members. \<not> skipped opts sender u}"
    unfolding users using all by (auto simp: broadcast_targets_def)
  show "distinct members \<Longrightarrow>
      distinct (map dr_UserID (fst (broadcast deliver fin subscribers members sender opts)))"
    unfolding users by (auto simp: broadcast_targets_def)
qed

section \<open>Receives per subscriber\<close>

definition receives :: "subscriber \<Rightarrow> effect list \<Rightarrow> nat" where
  "receives s es = length (filter (\<lambda>e. e = SubReceive s) es)"

lemma receives_simps [simp]:
  "receives s [] = 0"
  "receives s (xs @ ys) = receives s xs + receives s ys"
  "receives s (SubReceive t # es) = (if t = s then Suc (receives s es) else receives s es)"
  "receives s (emit hh ev) = 0"
  by (simp_all add: receives_def emit_def)

lemma receives_concat: "receives s (concat ess) = sum_list (map (receives s) ess)"
  by (induction ess) simp_all

text \<open>A broadcast whose deliveries reach the subscriber they are made for reaches a target once.\<close>

lemma broadcast_receives:
  assumes ids: "\<And>u t. subscribers u = Some t \<Longrightarrow> sub_ID t = u"
    and one: "\<And>u t. receives s (snd (deliver u t)) = (if t = s then n else 0)"
    and s: "subscribers (sub_ID s) = Some s" and fin: "sub_ID s \<in> set fin"
  shows "receives s (snd (broadcast deliver fin subscribers members sender opts)) =
    (if skipped opts sender (sub_ID s) then 0 else n)"
proof -
  define f where "f u = [deliver u t. t \<leftarrow> (case subscribers u of None \<Rightarrow> [] | Some t \<Rightarrow> [t]),
      \<not> skipped opts sender u]" for u
  have f: "sum_list (map (receives s) (map snd (f u))) =
      (if u = sub_ID s \<and> \<not> skipped opts sender (sub_ID s) then n else 0)" for u
  proof (cases "subscribers u")
    case None
    with s show ?thesis by (auto simp: f_def)
  next
    case (Some t)
    show ?thesis
    proof (cases "u = sub_ID s")
      case True
      with Some s have "t = s" by simp
      with True Some one [of u s] show ?thesis by (simp add: f_def)
    next
      case False
      with Some ids have "t \<noteq> s" by blast
      with False Some one [of u t] show ?thesis by (simp add: f_def)
    qed
  qed
  have count: "sum_list (map (receives s) (map snd (concat (map f us)))) =
    (if sub_ID s \<in> set us \<and> \<not> skipped opts sender (sub_ID s) then n else 0)" if "distinct us" for us
    using that
  proof (induction us)
    case Nil
    then show ?case by simp
  next
    case (Cons u us)
    then show ?case using f [of u] by (auto simp del: map_map)
  qed
  have "snd (broadcast deliver fin subscribers members sender opts) =
      concat (map snd (concat (map f (remdups fin))))"
    by (simp add: broadcast_def Let_def f_def [abs_def])
  then show ?thesis
    by (simp only: receives_concat count [OF distinct_remdups]) (simp add: fin)
qed

section \<open>The subscriber table\<close>

datatype room_op = Join subscriber "presence_info option" | Leave string | CloseAll "string list"

fun closes :: "effect list \<Rightarrow> subscriber list" where
  "closes [] = []"
| "closes (SubClose s # es) = s # closes es"
| "closes (_ # es) = closes es"

lemma closes_append [simp]: "closes (xs @ ys) = closes xs @ closes ys"
  by (induction xs rule: closes.induct) auto

lemma closes_emit [simp]: "closes (emit h e) = []"
  by (simp add: emit_def)

lemma closes_map_SubClose [simp]: "closes (map SubClose xs) = xs"
  by (induction xs) auto

definition opt_list :: "'a option \<Rightarrow> 'a list" where
  "opt_list x = (case x of None \<Rightarrow> [] | Some y \<Rightarrow> [y])"

lemma opt_list_simps [simp]: "opt_list None = []" "opt_list (Some x) = [x]"
  by (simp_all add: opt_list_def)

definition table_ok :: "(string \<rightharpoonup> subscriber) \<Rightarrow> (string \<rightharpoonup> presence_info) \<Rightarrow> bool" where
  "table_ok subs pres \<longleftrightarrow>
     dom pres = dom subs \<and> finite (dom subs) \<and> (\<forall>u s. subs u = Some s \<longrightarrow> sub_ID s = u)"

text \<open>Every enumeration a run closes the room with lists the users it has.\<close>

fun fair ::
    "('r \<Rightarrow> string \<rightharpoonup> subscriber) \<Rightarrow> ('r \<Rightarrow> room_op \<Rightarrow> 'r \<times> effect list) \<Rightarrow> 'r \<Rightarrow> room_op list \<Rightarrow> bool" where
  "fair subs step r [] \<longleftrightarrow> True"
| "fair subs step r (ev # evs) \<longleftrightarrow>
     (case ev of CloseAll ord \<Rightarrow> dom (subs r) \<subseteq> set ord | _ \<Rightarrow> True) \<and>
     fair subs step (fst (step r ev)) evs"

fun joined :: "room_op list \<Rightarrow> subscriber set" where
  "joined [] = {}"
| "joined (Join s _ # evs) = insert s (joined evs)"
| "joined (Leave _ # evs) = joined evs"
| "joined (CloseAll _ # evs) = joined evs"

text \<open>
  The interface the two kinds of room provide: a table of at most one subscriber per user, with
  presence kept beside it; whatever leaves the table is closed.  \<open>CloseAll\<close> carries the order in
  which the map is enumerated.
\<close>

locale subscriber_room =
  fixes subs :: "'r \<Rightarrow> string \<rightharpoonup> subscriber" and pres :: "'r \<Rightarrow> string \<rightharpoonup> presence_info"
    and step :: "'r \<Rightarrow> room_op \<Rightarrow> 'r \<times> effect list"
  assumes join: "subs (fst (step r (Join s i))) = (subs r)(sub_ID s \<mapsto> s) \<and>
      (\<exists>p. pres (fst (step r (Join s i))) = (pres r)(sub_ID s \<mapsto> p)) \<and>
      closes (snd (step r (Join s i))) = opt_list (subs r (sub_ID s))"
    and leave: "subs (fst (step r (Leave u))) = (subs r)(u := None) \<and>
      (pres r u = None \<or> subs r u \<noteq> None \<longrightarrow> pres (fst (step r (Leave u))) = (pres r)(u := None)) \<and>
      closes (snd (step r (Leave u))) = opt_list (subs r u)"
    and close_all: "subs (fst (step r (CloseAll ord))) = Map.empty \<and>
      pres (fst (step r (CloseAll ord))) = Map.empty \<and>
      closes (snd (step r (CloseAll ord))) = List.map_filter (subs r) ord"
begin

abbreviation ok :: "'r \<Rightarrow> bool" where
  "ok r \<equiv> table_ok (subs r) (pres r)"

lemma ok_step: "ok r \<Longrightarrow> ok (fst (step r ev))"
proof (cases ev)
  case (Join s i)
  assume ok: "ok r"
  from join [of r s i] obtain p where "subs (fst (step r ev)) = (subs r)(sub_ID s \<mapsto> s)"
      "pres (fst (step r ev)) = (pres r)(sub_ID s \<mapsto> p)"
    by (auto simp: Join)
  with ok show ?thesis by (simp add: table_ok_def)
next
  case (Leave u)
  assume "ok r"
  moreover from this have "pres r u = None \<or> subs r u \<noteq> None" by (auto simp: table_ok_def)
  ultimately show ?thesis
    using leave [of r u] Leave by (auto simp: table_ok_def)
next
  case (CloseAll ord)
  with close_all [of r ord] show ?thesis by (simp add: table_ok_def)
qed

lemma ok_run: "ok r \<Longrightarrow> ok (fst (run_ops step r evs))"
proof (induction evs arbitrary: r)
  case Nil
  then show ?case by simp
next
  case (Cons ev evs)
  obtain r1 o1 where s1: "step r ev = (r1, o1)" by (cases "step r ev")
  obtain r2 o2 where s2: "run_ops step r1 evs = (r2, o2)" by (cases "run_ops step r1 evs")
  from Cons.IH [OF ok_step [OF Cons.prems, of ev]] show ?case
    by (simp add: s1 s2)
qed


text \<open>No subscriber is dropped silently: whoever was in the table is still there or was closed.\<close>

lemma step_accounts:
  assumes "case ev of CloseAll ord \<Rightarrow> dom (subs r) \<subseteq> set ord | _ \<Rightarrow> True"
  shows "ran (subs r) \<subseteq> ran (subs (fst (step r ev))) \<union> set (closes (snd (step r ev)))"
proof
  fix s assume "s \<in> ran (subs r)"
  then obtain u where u: "subs r u = Some s" by (auto simp: ran_def)
  show "s \<in> ran (subs (fst (step r ev))) \<union> set (closes (snd (step r ev)))"
  proof (cases ev)
    case (Join s' i)
    with join [of r s' i] u show ?thesis
      by (cases "u = sub_ID s'") (auto simp: ran_def)
  next
    case (Leave u')
    with leave [of r u'] u show ?thesis
      by (cases "u = u'") (auto simp: ran_def)
  next
    case (CloseAll ord)
    with assms u have "u \<in> set ord" by auto
    with u have "s \<in> set (List.map_filter (subs r) ord)"
      by (force simp: List.map_filter_def)
    with close_all [of r ord] CloseAll show ?thesis by simp
  qed
qed

lemma run_accounts:
  "fair subs step r evs \<Longrightarrow>
   ran (subs r) \<union> joined evs \<subseteq>
     ran (subs (fst (run_ops step r evs))) \<union> set (closes (snd (run_ops step r evs)))"
proof (induction evs arbitrary: r)
  case Nil
  then show ?case by simp
next
  case (Cons ev evs)
  obtain r1 o1 where s1: "step r ev = (r1, o1)" by (cases "step r ev")
  obtain r2 o2 where s2: "run_ops step r1 evs = (r2, o2)" by (cases "run_ops step r1 evs")
  have "ran (subs r) \<subseteq> ran (subs r1) \<union> set (closes o1)"
    using step_accounts [where ev = ev and r = r] Cons.prems by (simp add: s1)
  moreover have "ran (subs r1) \<union> joined evs \<subseteq> ran (subs r2) \<union> set (closes o2)"
    using Cons.IH [of r1] Cons.prems by (simp add: s1 s2)
  moreover have "joined (ev # evs) \<subseteq> ran (subs r1) \<union> joined evs"
  proof (cases ev)
    case (Join s i)
    with join [of r s i] s1 have "subs r1 (sub_ID s) = Some s" by simp
    then have "s \<in> ran (subs r1)" by (rule ranI)
    with Join show ?thesis by auto
  qed auto
  ultimately show ?case by (auto simp: s1 s2)
qed

end

end
