(* ===== verification/MemoryRelay.thy ===== *)
theory MemoryRelay
  imports RingBuffer MessageId Delivery
begin

text \<open>
  The in-memory relay of \<open>engine/memory_relay.go\<close>.  Rooms and messages are shared by pointer in
  the code, so the state holds a heap of each: \<open>ml_rooms\<close> maps a room ID to a room's address, and
  a room's history stores message addresses.  Every method runs without interleaving (their locks
  are held for the whole call, or the call is read-only); the one method that is not atomic,
  \<open>GetOrCreateRoom\<close>, has a step relation of its own.  \<open>clk k\<close> is the k-th reading of the clock
  within a call, a list \<open>ord\<close> the order in which the runtime enumerates a map.
\<close>

section \<open>Rooms\<close>

record mem_room =
  mr_config :: room_config
  mr_subscribers :: "string \<rightharpoonup> subscriber"
  mr_presence :: "string \<rightharpoonup> presence_info"
  mr_history :: "nat ring_buffer"
  mr_lastActive :: gotime

definition MemoryRoom_Subscribe ::
    "(nat \<Rightarrow> gotime) \<Rightarrow> bool \<Rightarrow> mem_room \<Rightarrow> subscriber \<Rightarrow> presence_info option \<Rightarrow>
     mem_room \<times> effect list" where
  "MemoryRoom_Subscribe clk has_handler r sub info =
     (let userID = sub_ID sub
      in (r\<lparr>mr_subscribers := (mr_subscribers r)(userID \<mapsto> sub),
            mr_lastActive := clk 0,
            mr_presence := (mr_presence r)(userID \<mapsto> default_presence userID (clk 1) info)\<rparr>,
          map SubClose (opt_list (mr_subscribers r userID)) @
          emit has_handler (room_event EventTypeSubscribe (rc_ID (mr_config r)) userID (clk 2))))"

definition MemoryRoom_Unsubscribe ::
    "(nat \<Rightarrow> gotime) \<Rightarrow> bool \<Rightarrow> mem_room \<Rightarrow> string \<Rightarrow> mem_room \<times> effect list" where
  "MemoryRoom_Unsubscribe clk has_handler r userID =
     (case mr_subscribers r userID of
        Some sub \<Rightarrow>
          (r\<lparr>mr_subscribers := (mr_subscribers r)(userID := None),
             mr_presence := (mr_presence r)(userID := None)\<rparr>,
           SubClose sub #
           emit has_handler (room_event EventTypeUnsubscribe (rc_ID (mr_config r)) userID (clk 0)))
      | None \<Rightarrow> (r, []))"

definition MemoryRoom_Close :: "string list \<Rightarrow> mem_room \<Rightarrow> mem_room \<times> effect list" where
  "MemoryRoom_Close ord r =
     (r\<lparr>mr_subscribers := Map.empty, mr_presence := Map.empty\<rparr>,
      map SubClose (List.map_filter (mr_subscribers r) ord))"

definition MemoryRoom_Broadcast ::
    "(subscriber \<Rightarrow> nat \<Rightarrow> receive_result) \<Rightarrow> string list \<Rightarrow> mem_room \<Rightarrow> message \<Rightarrow>
     publish_options option \<Rightarrow> delivery_result list \<times> effect list" where
  "MemoryRoom_Broadcast rx fin r msg opts =
     broadcast (\<lambda>u s. MemoryRoom_safeDeliver u s (rx s)) fin (mr_subscribers r)
       (rc_Members (mr_config r)) (msg_SenderID msg) opts"

definition MemoryRoom_GetPresence :: "string list \<Rightarrow> mem_room \<Rightarrow> presence_info list" where
  "MemoryRoom_GetPresence ord r = List.map_filter (mr_presence r) ord"

definition MemoryRoom_SubscriberCount :: "mem_room \<Rightarrow> int" where
  "MemoryRoom_SubscriberCount r = int (card (dom (mr_subscribers r)))"

definition MemoryRoom_IsSubscribed :: "mem_room \<Rightarrow> string \<Rightarrow> bool" where
  "MemoryRoom_IsSubscribed r userID \<longleftrightarrow> mr_subscribers r userID \<noteq> None"

definition MemoryRoom_GetHistory :: "mem_room \<Rightarrow> int \<Rightarrow> nat list option" where
  "MemoryRoom_GetHistory r limit =
     (if limit \<le> 0 then rb_GetAll (mr_history r) else rb_GetLast (mr_history r) limit)"

fun LoadExternalMessages :: "nat option list \<Rightarrow> mem_room \<Rightarrow> mem_room option" where
  "LoadExternalMessages [] r = Some r"
| "LoadExternalMessages (msg # messages) r =
     (case rb_Add (mr_history r) msg of
        None \<Rightarrow> None
      | Some h \<Rightarrow> LoadExternalMessages messages (r\<lparr>mr_history := h\<rparr>))"

section \<open>The relay\<close>

record memory_config =
  mcfg_DefaultHistorySize :: int
  mcfg_DefaultHistoryTTL :: duration
  mcfg_EventHandler :: bool

definition DefaultMemoryConfig :: memory_config where
  "DefaultMemoryConfig =
     \<lparr>mcfg_DefaultHistorySize = 100, mcfg_DefaultHistoryTTL = 24 * hour, mcfg_EventHandler = False\<rparr>"

record mem_relay =
  ml_rooms :: "string \<rightharpoonup> nat"
  ml_heap :: "nat \<Rightarrow> mem_room"
  ml_next :: nat
  ml_msgs :: "nat \<Rightarrow> message"
  ml_hasHandler :: bool
  ml_running :: bool
  ml_startTime :: gotime
  ml_messageSeq :: int
  ml_totalMessages :: int
  ml_defaultHistorySize :: int
  ml_defaultHistoryTTL :: duration

definition empty_room :: "room_config \<Rightarrow> int \<Rightarrow> gotime \<Rightarrow> mem_room" where
  "empty_room config historySize now =
     \<lparr>mr_config = config, mr_subscribers = Map.empty, mr_presence = Map.empty,
      mr_history = NewRingBuffer historySize, mr_lastActive = now\<rparr>"

text \<open>\<open>msgs\<close> are the messages the callers will hand over, by address.\<close>

definition NewMemoryRelay :: "memory_config \<Rightarrow> gotime \<Rightarrow> (nat \<Rightarrow> message) \<Rightarrow> mem_relay" where
  "NewMemoryRelay cfg now msgs =
     \<lparr>ml_rooms = Map.empty, ml_heap = (\<lambda>_. empty_room (NewRoomConfig '''' []) 0 0), ml_next = 0,
      ml_msgs = msgs, ml_hasHandler = mcfg_EventHandler cfg, ml_running = True,
      ml_startTime = now, ml_messageSeq = 0, ml_totalMessages = 0,
      ml_defaultHistorySize =
        (if mcfg_DefaultHistorySize cfg \<le> 0 then 100 else mcfg_DefaultHistorySize cfg),
      ml_defaultHistoryTTL = mcfg_DefaultHistoryTTL cfg\<rparr>"

definition ml_SetEventHandler :: "bool \<Rightarrow> mem_relay \<Rightarrow> mem_relay" where
  "ml_SetEventHandler handler r = r\<lparr>ml_hasHandler := handler\<rparr>"

definition ml_CreateRoom ::
    "(nat \<Rightarrow> gotime) \<Rightarrow> room_config \<Rightarrow> mem_relay \<Rightarrow> (go_error, nat) outcome \<times> mem_relay" where
  "ml_CreateRoom clk config r =
     (if ml_rooms r (rc_ID config) \<noteq> None then (Fails (RoomAlreadyExists (rc_ID config)), r)
      else
        let historySize = (if rc_HistorySize config \<le> 0 then ml_defaultHistorySize r
                           else rc_HistorySize config);
            h = ml_next r
        in (Returns h,
            r\<lparr>ml_rooms := (ml_rooms r)(rc_ID config \<mapsto> h),
              ml_heap := (ml_heap r)(h := empty_room config historySize (clk 0)),
              ml_next := Suc h\<rparr>))"

definition ml_GetRoom :: "mem_relay \<Rightarrow> string \<Rightarrow> nat option" where
  "ml_GetRoom r roomID = ml_rooms r roomID"

definition ml_GetOrCreateRoom ::
    "(nat \<Rightarrow> gotime) \<Rightarrow> room_config \<Rightarrow> mem_relay \<Rightarrow> (go_error, nat) outcome \<times> mem_relay" where
  "ml_GetOrCreateRoom clk config r =
     (case ml_GetRoom r (rc_ID config) of
        Some h \<Rightarrow> (Returns h, r)
      | None \<Rightarrow> ml_CreateRoom clk config r)"

definition ml_DeleteRoom ::
    "string list \<Rightarrow> string \<Rightarrow> mem_relay \<Rightarrow> (go_error, unit) outcome \<times> mem_relay \<times> effect list" where
  "ml_DeleteRoom ord roomID r =
     (case ml_rooms r roomID of
        None \<Rightarrow> (Fails (RoomNotFound roomID), r, [])
      | Some h \<Rightarrow>
          (let (room, es) = MemoryRoom_Close ord (ml_heap r h)
           in (Returns (), r\<lparr>ml_heap := (ml_heap r)(h := room),
                            ml_rooms := (ml_rooms r)(roomID := None)\<rparr>, es)))"

definition ml_ListRooms :: "string list \<Rightarrow> mem_relay \<Rightarrow> string list" where
  "ml_ListRooms ord r = filter (\<lambda>i. ml_rooms r i \<noteq> None) ord"

definition ml_Subscribe ::
    "(nat \<Rightarrow> gotime) \<Rightarrow> string \<Rightarrow> subscriber \<Rightarrow> presence_info option \<Rightarrow> mem_relay \<Rightarrow>
     (go_error, unit) outcome \<times> mem_relay \<times> effect list" where
  "ml_Subscribe clk roomID sub presence r =
     (case ml_GetRoom r roomID of
        None \<Rightarrow> (Fails (RoomNotFound roomID), r, [])
      | Some h \<Rightarrow>
          (let (room, es) = MemoryRoom_Subscribe clk (ml_hasHandler r) (ml_heap r h) sub presence
           in (Returns (), r\<lparr>ml_heap := (ml_heap r)(h := room)\<rparr>, es)))"

definition ml_Unsubscribe ::
    "(nat \<Rightarrow> gotime) \<Rightarrow> string \<Rightarrow> string \<Rightarrow> mem_relay \<Rightarrow>
     (go_error, unit) outcome \<times> mem_relay \<times> effect list" where
  "ml_Unsubscribe clk roomID userID r =
     (case ml_GetRoom r roomID of
        None \<Rightarrow> (Fails (RoomNotFound roomID), r, [])
      | Some h \<Rightarrow>
          (let (room, es) = MemoryRoom_Unsubscribe clk (ml_hasHandler r) (ml_heap r h) userID
           in (Returns (), r\<lparr>ml_heap := (ml_heap r)(h := room)\<rparr>, es)))"

text \<open>The message \<open>Publish\<close> makes of the caller's, in place.\<close>

definition stamped :: "(nat \<Rightarrow> gotime) \<Rightarrow> string \<Rightarrow> int \<Rightarrow> message \<Rightarrow> message" where
  "stamped clk roomID seq msg =
     (let msg1 = (if time_IsZero (msg_Timestamp msg) then msg\<lparr>msg_Timestamp := clk 0\<rparr> else msg)
      in msg1\<lparr>msg_RoomID := roomID, msg_ID := fst (generateMessageID (clk 1) seq)\<rparr>)"

definition ml_Publish ::
    "(nat \<Rightarrow> gotime) \<Rightarrow> (subscriber \<Rightarrow> nat \<Rightarrow> receive_result) \<Rightarrow> string list \<Rightarrow> string \<Rightarrow> nat \<Rightarrow>
     publish_options option \<Rightarrow> mem_relay \<Rightarrow>
     (go_error, delivery_result list) outcome \<times> mem_relay \<times> effect list" where
  "ml_Publish clk rx fin roomID a opts0 r =
     (case ml_GetRoom r roomID of
        None \<Rightarrow> (Fails (RoomNotFound roomID), r, [])
      | Some h \<Rightarrow>
          (let opts = opts_or_default opts0;
               room = ml_heap r h;
               msg = stamped clk roomID (ml_messageSeq r) (ml_msgs r a);
               r1 = r\<lparr>ml_msgs := (ml_msgs r)(a := msg),
                      ml_messageSeq := snd (generateMessageID (clk 1) (ml_messageSeq r))\<rparr>
           in case (if po_Persist opts then rb_Add (mr_history room) (Some a)
                    else Some (mr_history room)) of
                None \<Rightarrow> (Panics, r1, [])
              | Some hist \<Rightarrow>
                  (let (results, es) = MemoryRoom_Broadcast rx fin room msg (Some opts)
                   in (Returns results,
                       r1\<lparr>ml_heap := (ml_heap r1)(h := room\<lparr>mr_history := hist\<rparr>),
                          ml_totalMessages := wrap64 (ml_totalMessages r1 + 1)\<rparr>,
                       es @ emit (ml_hasHandler r)
                         \<lparr>ev_Type = EventTypePublish, ev_RoomID = roomID,
                          ev_UserID = msg_SenderID msg, ev_Timestamp = clk 2,
                          ev_Data = PublishData (msg_ID msg) (length results)\<rparr>))))"

definition ml_PublishDirect ::
    "(nat \<Rightarrow> gotime) \<Rightarrow> (subscriber \<Rightarrow> nat \<Rightarrow> receive_result) \<Rightarrow> string list \<Rightarrow> string \<Rightarrow> string \<Rightarrow>
     nat \<Rightarrow> publish_options option \<Rightarrow> mem_relay \<Rightarrow>
     (go_error, delivery_result list) outcome \<times> mem_relay \<times> effect list" where
  "ml_PublishDirect clk rx fin senderID recipientID a opts r =
     (let roomID = GenerateDMRoomID senderID recipientID;
          config = \<lparr>rc_ID = roomID, rc_Type = RoomTypeDirect, rc_HistorySize = 0,
                    rc_HistoryTTL = 0, rc_Members = [senderID, recipientID]\<rparr>
      in case ml_GetOrCreateRoom clk config r of
           (Returns _, r1) \<Rightarrow>
             ml_Publish (\<lambda>k. clk (Suc k)) rx fin roomID a opts
               (r1\<lparr>ml_msgs := (ml_msgs r1)(a := (ml_msgs r1 a)
                     \<lparr>msg_RoomID := roomID, msg_SenderID := senderID\<rparr>)\<rparr>)
         | (Fails e, r1) \<Rightarrow> (Fails e, r1, [])
         | (Panics, r1) \<Rightarrow> (Panics, r1, [])
         | (Blocks, r1) \<Rightarrow> (Blocks, r1, []))"

definition ml_RecoverMessages ::
    "string \<Rightarrow> recovery_options option \<Rightarrow> mem_relay \<Rightarrow> (go_error, nat list) outcome" where
  "ml_RecoverMessages roomID opts0 r =
     (case ml_GetRoom r roomID of
        None \<Rightarrow> Fails (RoomNotFound roomID)
      | Some h \<Rightarrow>
          (let opts = (case opts0 of Some o' \<Rightarrow> o'
                       | None \<Rightarrow> \<lparr>ro_FromID = '''', ro_Limit = 100, ro_Since = zero_time\<rparr>);
               hist = mr_history (ml_heap r h)
           in case (if ro_FromID opts \<noteq> '''' then rb_GetSince (\<lambda>a. msg_ID (ml_msgs r a)) hist (ro_FromID opts)
                    else rb_GetAll hist) of
                None \<Rightarrow> Panics
              | Some messages \<Rightarrow>
                  (if ro_Limit opts > 0 \<and> int (length messages) > ro_Limit opts
                   then (case go_slice_from messages (int (length messages) - ro_Limit opts) of
                           Some ms \<Rightarrow> Returns ms | None \<Rightarrow> Panics)
                   else Returns messages)))"

text \<open>\<open>rx k\<close> is what the subscriber's \<open>Receive\<close> does with the k-th message.\<close>

fun deliver_loop ::
    "subscriber \<Rightarrow> (nat \<Rightarrow> receive_result) \<Rightarrow> nat \<Rightarrow> nat list \<Rightarrow> (go_error, unit) outcome \<times> effect list" where
  "deliver_loop sub rx k [] = (Returns (), [])"
| "deliver_loop sub rx k (msg # messages) =
     (case rx k of
        RecvOk \<Rightarrow> (case deliver_loop sub rx (Suc k) messages of (res, es) \<Rightarrow> (res, SubReceive sub # es))
      | RecvErr e \<Rightarrow> (Fails e, [SubReceive sub])
      | RecvPanic _ \<Rightarrow> (Panics, [SubReceive sub]))"

definition ml_RecoverAndDeliver ::
    "string \<Rightarrow> subscriber \<Rightarrow> (nat \<Rightarrow> receive_result) \<Rightarrow> recovery_options option \<Rightarrow> mem_relay \<Rightarrow>
     (go_error, unit) outcome \<times> effect list" where
  "ml_RecoverAndDeliver roomID sub rx opts r =
     (case ml_RecoverMessages roomID opts r of
        Returns messages \<Rightarrow> deliver_loop sub rx 0 messages
      | Fails e \<Rightarrow> (Fails e, [])
      | Panics \<Rightarrow> (Panics, [])
      | Blocks \<Rightarrow> (Blocks, []))"

definition ml_GetPresence ::
    "string list \<Rightarrow> string \<Rightarrow> mem_relay \<Rightarrow> (go_error, presence_info list) outcome" where
  "ml_GetPresence ord roomID r =
     (case ml_GetRoom r roomID of
        None \<Rightarrow> Fails (RoomNotFound roomID)
      | Some h \<Rightarrow> Returns (MemoryRoom_GetPresence ord (ml_heap r h)))"

text \<open>\<open>ord\<close> enumerates the rooms; the uptime is whole seconds.\<close>

definition ml_Stats :: "string list \<Rightarrow> gotime \<Rightarrow> mem_relay \<Rightarrow> stats" where
  "ml_Stats ord now r =
     \<lparr>st_ActiveRooms = int (card (dom (ml_rooms r))),
      st_ActiveSubscribers =
        sum_list (map (\<lambda>h. MemoryRoom_SubscriberCount (ml_heap r h)) (List.map_filter (ml_rooms r) ord)),
      st_TotalMessages = ml_totalMessages r,
      st_Uptime = (let d = time_Sub now (ml_startTime r) in sgn d * (\<bar>d\<bar> div second))\<rparr>"

text \<open>\<open>ords h\<close> is the enumeration of the subscribers of the room at \<open>h\<close>.\<close>

fun close_rooms ::
    "(nat \<Rightarrow> string list) \<Rightarrow> nat list \<Rightarrow> (nat \<Rightarrow> mem_room) \<Rightarrow> (nat \<Rightarrow> mem_room) \<times> effect list" where
  "close_rooms ords [] heap = (heap, [])"
| "close_rooms ords (h # hs) heap =
     (let (room, es) = MemoryRoom_Close (ords h) (heap h);
          (heap', es') = close_rooms ords hs (heap(h := room))
      in (heap', es @ es'))"

definition ml_Close ::
    "string list \<Rightarrow> (nat \<Rightarrow> string list) \<Rightarrow> mem_relay \<Rightarrow> mem_relay \<times> effect list" where
  "ml_Close ord ords r =
     (if \<not> ml_running r then (r, [])
      else let (heap, es) = close_rooms ords (List.map_filter (ml_rooms r) ord) (ml_heap r)
           in (r\<lparr>ml_running := False, ml_heap := heap, ml_rooms := Map.empty\<rparr>, es))"

text \<open>\<open>loader\<close> is the caller's fallback, absent when nil.\<close>

definition GetHistoryWithFallback ::
    "string \<Rightarrow> int \<Rightarrow> (string \<Rightarrow> int \<Rightarrow> go_error + nat list) option \<Rightarrow> mem_relay \<Rightarrow>
     (go_error, nat list) outcome" where
  "GetHistoryWithFallback roomID limit loader r =
     (case ml_GetRoom r roomID of
        None \<Rightarrow>
          (case loader of
             Some f \<Rightarrow> (case f roomID limit of Inl e \<Rightarrow> Fails e | Inr ms \<Rightarrow> Returns ms)
           | None \<Rightarrow> Fails (RoomNotFound roomID))
      | Some h \<Rightarrow>
          (case MemoryRoom_GetHistory (ml_heap r h) limit of
             None \<Rightarrow> Panics
           | Some messages \<Rightarrow>
               (case loader of
                  Some f \<Rightarrow>
                    (if int (length messages) < limit then
                       (case f roomID (limit - int (length messages)) of
                          Inr externalMsgs \<Rightarrow> Returns (externalMsgs @ messages)
                        | Inl _ \<Rightarrow> Returns messages)
                     else Returns messages)
                | None \<Rightarrow> Returns messages)))"

section \<open>Invariant\<close>

definition room_ok :: "mem_room \<Rightarrow> bool" where
  "room_ok room \<longleftrightarrow> rb_inv (mr_history room) \<and> table_ok (mr_subscribers room) (mr_presence room)"

definition ml_inv :: "mem_relay \<Rightarrow> bool" where
  "ml_inv r \<longleftrightarrow>
     finite (dom (ml_rooms r)) \<and>
     (\<forall>i h. ml_rooms r i = Some h \<longrightarrow> h < ml_next r \<and> rc_ID (mr_config (ml_heap r h)) = i) \<and>
     (\<forall>h. room_ok (ml_heap r h))"

text \<open>A memory room provides the interface of a subscriber table.\<close>

definition mem_room_step ::
    "(nat \<Rightarrow> gotime) \<Rightarrow> bool \<Rightarrow> mem_room \<Rightarrow> room_op \<Rightarrow> mem_room \<times> effect list" where
  "mem_room_step clk has_handler r ev =
     (case ev of
        Join sub info \<Rightarrow> MemoryRoom_Subscribe clk has_handler r sub info
      | Leave u \<Rightarrow> MemoryRoom_Unsubscribe clk has_handler r u
      | CloseAll ord \<Rightarrow> MemoryRoom_Close ord r)"

interpretation mem_room: subscriber_room mr_subscribers mr_presence "mem_room_step clk has_handler"
  for clk has_handler
  by unfold_locales
    (auto simp: mem_room_step_def MemoryRoom_Subscribe_def MemoryRoom_Unsubscribe_def
      MemoryRoom_Close_def Let_def fun_upd_idem_iff split: option.split)

lemma mem_room_step_frame:
  "mr_history (fst (mem_room_step clk hh r ev)) = mr_history r \<and>
   mr_config (fst (mem_room_step clk hh r ev)) = mr_config r"
  by (auto simp: mem_room_step_def MemoryRoom_Subscribe_def MemoryRoom_Unsubscribe_def
      MemoryRoom_Close_def Let_def split: room_op.split option.split)

lemma room_ok_step [inv_intros]: "room_ok r \<Longrightarrow> room_ok (fst (mem_room_step clk hh r ev))"
  using mem_room.ok_step [of r clk hh ev] mem_room_step_frame [of clk hh r ev]
  by (simp add: room_ok_def)

lemmas mem_room_ops =
  mem_room_step_def [of _ _ _ "Join _ _", simplified]
  mem_room_step_def [of _ _ _ "Leave _", simplified]
  mem_room_step_def [of _ _ _ "CloseAll _", simplified]

lemma room_ok_ops [inv_intros]:
  assumes "room_ok r"
  shows "room_ok (fst (MemoryRoom_Subscribe clk hh r s i))"
    and "room_ok (fst (MemoryRoom_Unsubscribe clk hh r u))"
    and "room_ok (fst (MemoryRoom_Close ord r))"
  using room_ok_step [OF assms] mem_room_ops by metis+

lemma room_frame_ops [simp]:
  "mr_config (fst (MemoryRoom_Subscribe clk hh r s i)) = mr_config r"
  "mr_config (fst (MemoryRoom_Unsubscribe clk hh r u)) = mr_config r"
  "mr_config (fst (MemoryRoom_Close ord r)) = mr_config r"
  using mem_room_step_frame mem_room_ops by metis+

lemma room_ok_empty [simp]: "room_ok (empty_room config n now)"
  by (simp add: room_ok_def empty_room_def rb_inv_new table_ok_def)

lemma empty_room_fields [simp]:
  "mr_config (empty_room config n now) = config"
  "mr_subscribers (empty_room config n now) = Map.empty"
  "mr_history (empty_room config n now) = NewRingBuffer n"
  by (simp_all add: empty_room_def)

lemma room_ok_history: "room_ok room \<Longrightarrow> rb_inv h \<Longrightarrow> room_ok (room\<lparr>mr_history := h\<rparr>)"
  by (simp add: room_ok_def)

lemma LoadExternal_ok:
  "room_ok room \<Longrightarrow> \<exists>room'. LoadExternalMessages ms room = Some room' \<and> room_ok room' \<and>
     mr_config room' = mr_config room"
proof (induction ms arbitrary: room)
  case Nil
  then show ?case by simp
next
  case (Cons m ms)
  then have inv: "rb_inv (mr_history room)" by (simp add: room_ok_def)
  have "room_ok (room\<lparr>mr_history := rb_added (mr_history room) m\<rparr>)"
    using Cons.prems inv by (simp add: room_ok_history rb_inv_added)
  from Cons.IH [OF this] show ?case by (auto simp: rb_Add_added [OF inv])
qed

lemma ml_inv_new: "ml_inv (NewMemoryRelay cfg now msgs)"
  by (simp add: ml_inv_def NewMemoryRelay_def)

lemma ml_inv_room [inv_intros]:
  "ml_inv r \<Longrightarrow> room_ok room \<Longrightarrow> mr_config room = mr_config (ml_heap r h) \<Longrightarrow>
   ml_inv (r\<lparr>ml_heap := (ml_heap r)(h := room)\<rparr>)"
  by (auto simp: ml_inv_def)

lemma ml_inv_frame [simp]:
  "ml_inv (r\<lparr>ml_msgs := a\<rparr>) = ml_inv r" "ml_inv (r\<lparr>ml_messageSeq := b\<rparr>) = ml_inv r"
  "ml_inv (r\<lparr>ml_totalMessages := c\<rparr>) = ml_inv r" "ml_inv (r\<lparr>ml_hasHandler := d\<rparr>) = ml_inv r"
  by (simp_all add: ml_inv_def)

lemma ml_inv_CreateRoom [inv_intros]:
  "ml_inv r \<Longrightarrow> ml_inv (snd (ml_CreateRoom clk config r))"
  by (auto simp: ml_CreateRoom_def ml_inv_def Let_def less_Suc_eq)

lemma ml_inv_GetOrCreateRoom [inv_intros]:
  "ml_inv r \<Longrightarrow> ml_inv (snd (ml_GetOrCreateRoom clk config r))"
  by (auto simp: ml_GetOrCreateRoom_def intro: inv_intros split: option.split)

lemma ml_inv_remove: "ml_inv r \<Longrightarrow> ml_inv (r\<lparr>ml_rooms := (ml_rooms r)(i := None)\<rparr>)"
  by (auto simp: ml_inv_def)

lemma ml_inv_heap: "ml_inv r \<Longrightarrow> room_ok (ml_heap r h)"
  by (simp add: ml_inv_def)

lemma ml_inv_DeleteRoom [inv_intros]:
  assumes "ml_inv r"
  shows "ml_inv (fst (snd (ml_DeleteRoom ord i r)))"
proof (cases "ml_rooms r i")
  case None
  with assms show ?thesis by (simp add: ml_DeleteRoom_def)
next
  case (Some h)
  have "ml_inv (r\<lparr>ml_heap := (ml_heap r)(h := fst (MemoryRoom_Close ord (ml_heap r h)))\<rparr>)"
    using assms by (intro ml_inv_room room_ok_ops ml_inv_heap) simp_all
  from ml_inv_remove [OF this, of i] Some show ?thesis
    by (simp add: ml_DeleteRoom_def case_prod_unfold Let_def)
qed

lemma ml_inv_Subscribe [inv_intros]:
  "ml_inv r \<Longrightarrow> ml_inv (fst (snd (ml_Subscribe clk i s p r)))"
  by (auto simp: ml_Subscribe_def case_prod_unfold Let_def intro!: inv_intros ml_inv_heap
      split: option.split)

lemma ml_inv_Unsubscribe [inv_intros]:
  "ml_inv r \<Longrightarrow> ml_inv (fst (snd (ml_Unsubscribe clk i u r)))"
  by (auto simp: ml_Unsubscribe_def case_prod_unfold Let_def intro!: inv_intros ml_inv_heap
      split: option.split)

text \<open>What a successful \<open>Publish\<close> does, without the panic the invariant excludes.\<close>

definition published_history :: "publish_options option \<Rightarrow> mem_room \<Rightarrow> nat \<Rightarrow> nat ring_buffer" where
  "published_history opts room a =
     (if po_Persist (opts_or_default opts)
      then rb_added (mr_history room) (Some a) else mr_history room)"

lemma ml_Publish_eq:
  fixes clk :: "nat \<Rightarrow> gotime" and a :: nat
  assumes "ml_inv r" and "ml_rooms r i = Some h"
  defines "msg \<equiv> stamped clk i (ml_messageSeq r) (ml_msgs r a)"
  shows "fst (ml_Publish clk rx fin i a opts r) =
      Returns (fst (MemoryRoom_Broadcast rx fin (ml_heap r h) msg (Some (opts_or_default opts))))"
    and "fst (snd (ml_Publish clk rx fin i a opts r)) =
      r\<lparr>ml_msgs := (ml_msgs r)(a := msg), ml_messageSeq := wrap64 (ml_messageSeq r + 1),
        ml_heap := (ml_heap r)(h := (ml_heap r h)\<lparr>mr_history := published_history opts (ml_heap r h) a\<rparr>),
        ml_totalMessages := wrap64 (ml_totalMessages r + 1)\<rparr>"
proof -
  have inv: "rb_inv (mr_history (ml_heap r h))"
    using ml_inv_heap [OF assms(1)] by (simp add: room_ok_def)
  have hist: "(if po_Persist (opts_or_default opts) then rb_Add (mr_history (ml_heap r h)) (Some a)
      else Some (mr_history (ml_heap r h))) = Some (published_history opts (ml_heap r h) a)"
    by (simp add: published_history_def rb_Add_added [OF inv])
  have seq: "snd (generateMessageID t n) = wrap64 (n + 1)" for t n
    by (simp add: generateMessageID_def Let_def)
  show "fst (ml_Publish clk rx fin i a opts r) =
      Returns (fst (MemoryRoom_Broadcast rx fin (ml_heap r h) msg (Some (opts_or_default opts))))"
    by (simp add: ml_Publish_def ml_GetRoom_def assms(2) Let_def hist
        case_prod_unfold flip: msg_def)
  show "fst (snd (ml_Publish clk rx fin i a opts r)) =
      r\<lparr>ml_msgs := (ml_msgs r)(a := msg), ml_messageSeq := wrap64 (ml_messageSeq r + 1),
        ml_heap := (ml_heap r)(h := (ml_heap r h)\<lparr>mr_history := published_history opts (ml_heap r h) a\<rparr>),
        ml_totalMessages := wrap64 (ml_totalMessages r + 1)\<rparr>"
    by (simp add: ml_Publish_def ml_GetRoom_def assms(2) Let_def hist seq
        case_prod_unfold flip: msg_def)
qed

lemma published_history_ok:
  "rb_inv (mr_history room) \<Longrightarrow> rb_inv (published_history opts room a)"
  by (simp add: published_history_def rb_inv_added)

lemma ml_inv_Publish [inv_intros]:
  assumes "ml_inv r"
  shows "ml_inv (fst (snd (ml_Publish clk rx fin i a opts r)))"
proof (cases "ml_rooms r i")
  case None
  with assms show ?thesis by (simp add: ml_Publish_def ml_GetRoom_def)
next
  case (Some h)
  have "room_ok ((ml_heap r h)\<lparr>mr_history := published_history opts (ml_heap r h) a\<rparr>)"
    using ml_inv_heap [OF assms] by (intro room_ok_history published_history_ok) (simp_all add: room_ok_def)
  with assms show ?thesis
    unfolding ml_Publish_eq(2) [OF assms Some] by (auto simp: ml_inv_def)
qed

lemma ml_inv_PublishDirect [inv_intros]:
  assumes "ml_inv r"
  shows "ml_inv (fst (snd (ml_PublishDirect clk rx fin s t a opts r)))"
  unfolding ml_PublishDirect_def Let_def
  using ml_inv_GetOrCreateRoom [OF assms]
  by (auto split: prod.split outcome.split intro!: ml_inv_Publish) (metis snd_conv)+

lemma close_rooms_ok:
  "\<forall>h. room_ok (heap h) \<Longrightarrow> room_ok (fst (close_rooms ords hs heap) h')"
  by (induction hs arbitrary: heap) (auto simp: Let_def case_prod_unfold room_ok_ops)

lemma ml_inv_Close [inv_intros]: "ml_inv r \<Longrightarrow> ml_inv (fst (ml_Close ord ords r))"
  using close_rooms_ok by (auto simp: ml_Close_def ml_inv_def Let_def case_prod_unfold)

section \<open>The relay as a machine\<close>

text \<open>
  Everything a program can do with a relay: the relay's methods, methods of a room it holds (which
  may have been deleted meanwhile; the goroutine a panicking delivery starts is the event
  \<open>MRoom\<close> with a \<open>Leave\<close>), and changing a message object it owns.
\<close>

datatype ml_event =
    MCreate "nat \<Rightarrow> gotime" room_config
  | MGetOrCreate "nat \<Rightarrow> gotime" room_config
  | MDelete "string list" string
  | MSubscribe "nat \<Rightarrow> gotime" string subscriber "presence_info option"
  | MUnsubscribe "nat \<Rightarrow> gotime" string string
  | MPublish "nat \<Rightarrow> gotime" "subscriber \<Rightarrow> nat \<Rightarrow> receive_result" "string list" string nat
      "publish_options option"
  | MPublishDirect "nat \<Rightarrow> gotime" "subscriber \<Rightarrow> nat \<Rightarrow> receive_result" "string list" string string nat
      "publish_options option"
  | MClose "string list" "nat \<Rightarrow> string list"
  | MRoom "nat \<Rightarrow> gotime" nat room_op
  | MLoad nat "nat option list"
  | MEdit nat message
  | MHandler bool

fun ml_step :: "mem_relay \<Rightarrow> ml_event \<Rightarrow> mem_relay" where
  "ml_step r (MCreate clk config) = snd (ml_CreateRoom clk config r)"
| "ml_step r (MGetOrCreate clk config) = snd (ml_GetOrCreateRoom clk config r)"
| "ml_step r (MDelete ord i) = fst (snd (ml_DeleteRoom ord i r))"
| "ml_step r (MSubscribe clk i s p) = fst (snd (ml_Subscribe clk i s p r))"
| "ml_step r (MUnsubscribe clk i u) = fst (snd (ml_Unsubscribe clk i u r))"
| "ml_step r (MPublish clk rx fin i a opts) = fst (snd (ml_Publish clk rx fin i a opts r))"
| "ml_step r (MPublishDirect clk rx fin s t a opts) =
     fst (snd (ml_PublishDirect clk rx fin s t a opts r))"
| "ml_step r (MClose ord ords) = fst (ml_Close ord ords r)"
| "ml_step r (MRoom clk h ev) =
     r\<lparr>ml_heap := (ml_heap r)(h := fst (mem_room_step clk (ml_hasHandler r) (ml_heap r h) ev))\<rparr>"
| "ml_step r (MLoad h ms) =
     (case LoadExternalMessages ms (ml_heap r h) of
        None \<Rightarrow> r
      | Some room \<Rightarrow> r\<lparr>ml_heap := (ml_heap r)(h := room)\<rparr>)"
| "ml_step r (MEdit a m) = r\<lparr>ml_msgs := (ml_msgs r)(a := m)\<rparr>"
| "ml_step r (MHandler b) = ml_SetEventHandler b r"

lemma ml_step_inv: "ml_inv r \<Longrightarrow> ml_inv (ml_step r ev)"
proof (cases ev)
  case (MRoom clk h ev')
  assume "ml_inv r"
  with MRoom show ?thesis
    using mem_room_step_frame [of clk "ml_hasHandler r" "ml_heap r h" ev']
    by (auto intro!: ml_inv_room room_ok_step ml_inv_heap)
next
  case (MLoad h ms)
  assume r: "ml_inv r"
  from LoadExternal_ok [OF ml_inv_heap [OF r], of ms h] obtain room
    where "LoadExternalMessages ms (ml_heap r h) = Some room" "room_ok room"
      "mr_config room = mr_config (ml_heap r h)"
    by blast
  with r MLoad show ?thesis by (simp add: ml_inv_room)
qed (auto simp: ml_SetEventHandler_def intro: inv_intros)

interpretation mem_relay: machine ml_step ml_inv "NewMemoryRelay cfg now msgs" for cfg now msgs
  by unfold_locales (simp_all add: ml_step_inv ml_inv_new)

lemma ml_RecoverMessages_eq:
  assumes "ml_inv r" and "ml_rooms r i = Some h" and "opts \<noteq> None"
  shows "ml_RecoverMessages i opts r =
    Returns (let ms = (if ro_FromID (the opts) \<in> {'''', ''0'', ''-''} then rb_stored (mr_history (ml_heap r h))
                       else tl (dropWhile (\<lambda>a. msg_ID (ml_msgs r a) \<noteq> ro_FromID (the opts))
                                 (rb_stored (mr_history (ml_heap r h)))))
             in if ro_Limit (the opts) > 0 then lastn (nat (ro_Limit (the opts))) ms else ms)"
proof -
  obtain o' where o': "opts = Some o'" using assms(3) by auto
  have inv: "rb_inv (mr_history (ml_heap r h))"
    using ml_inv_heap [OF assms(1)] by (simp add: room_ok_def)
  let ?ms = "if ro_FromID o' \<in> {'''', ''0'', ''-''} then rb_stored (mr_history (ml_heap r h))
      else tl (dropWhile (\<lambda>a. msg_ID (ml_msgs r a) \<noteq> ro_FromID o') (rb_stored (mr_history (ml_heap r h))))"
  have got: "(if ro_FromID o' \<noteq> '''' then rb_GetSince (\<lambda>a. msg_ID (ml_msgs r a)) (mr_history (ml_heap r h)) (ro_FromID o')
      else rb_GetAll (mr_history (ml_heap r h))) = Some ?ms"
    by (auto simp: rb_GetSince_eq [OF inv] rb_GetAll_eq [OF inv])
  have "go_slice_from ms (int (length ms) - n) = Some (lastn (nat n) ms)"
    if "0 < n" "n < int (length ms)" for n and ms :: "nat list"
    using that by (simp add: go_slice_from_def lastn_def nat_diff_distrib)
  then show ?thesis
    by (simp add: ml_RecoverMessages_def ml_GetRoom_def assms(2) o' got Let_def)
qed

lemma ml_Recover_no_panic:
  assumes "ml_inv r"
  shows "ml_RecoverMessages i opts r \<notin> {Panics, Blocks}"
proof -
  have some: "ml_RecoverMessages i (Some o') r \<notin> {Panics, Blocks}" for o'
  proof (cases "ml_rooms r i")
    case None
    then show ?thesis by (simp add: ml_RecoverMessages_def ml_GetRoom_def)
  next
    case (Some h)
    from ml_RecoverMessages_eq [OF assms this, of "Some o'"] show ?thesis by simp
  qed
  show ?thesis
  proof (cases opts)
    case None
    have "ml_RecoverMessages i None r =
        ml_RecoverMessages i (Some \<lparr>ro_FromID = '''', ro_Limit = 100, ro_Since = zero_time\<rparr>) r"
      by (simp add: ml_RecoverMessages_def cong: option.case_cong)
    with some None show ?thesis by simp
  qed (use some in simp)
qed

section \<open>Properties\<close>

text \<open>
  C26: Whatever a program does with an in-memory relay, the invariant holds: every room is
  registered under its own ID, tables agree, histories are well formed; and no publication,
  recovery or history query panics, whatever options it is given.
\<close>

theorem mem_relay_never_panics:
  "let r = foldl ml_step (NewMemoryRelay cfg now msgs) es
   in ml_inv r \<and>
      fst (ml_Publish clk rx fin i a opts r) \<notin> {Panics, Blocks} \<and>
      ml_RecoverMessages i ropts r \<notin> {Panics, Blocks} \<and>
      GetHistoryWithFallback i limit loader r \<notin> {Panics, Blocks}"
proof -
  let ?r = "foldl ml_step (NewMemoryRelay cfg now msgs) es"
  have inv: "ml_inv ?r" by (rule mem_relay.run_inv)
  have pub: "fst (ml_Publish clk rx fin i a opts ?r) \<notin> {Panics, Blocks}"
    using ml_Publish_eq(1) [OF inv, of i] by (cases "ml_rooms ?r i") (auto simp: ml_Publish_def ml_GetRoom_def)
  have rec: "ml_RecoverMessages i ropts ?r \<notin> {Panics, Blocks}"
    using inv by (rule ml_Recover_no_panic)
  have "\<exists>ms. MemoryRoom_GetHistory (ml_heap ?r h) limit = Some ms" for h
    using ml_inv_heap [OF inv, of h]
    by (auto simp: MemoryRoom_GetHistory_def room_ok_def rb_GetAll_eq rb_GetLast_eq)
  then have "GetHistoryWithFallback i limit loader ?r \<notin> {Panics, Blocks}"
    by (auto simp: GetHistoryWithFallback_def ml_GetRoom_def split: option.split sum.split)
      (metis option.distinct(1))+
  with inv pub rec show ?thesis by (simp add: Let_def)
qed

text \<open>Publishing a list of message objects, one after the other, with default options.\<close>

type_synonym timed_publication =
  "(nat \<Rightarrow> gotime) \<times> (subscriber \<Rightarrow> nat \<Rightarrow> receive_result) \<times> string list \<times> nat"

definition publish_events :: "string \<Rightarrow> timed_publication list \<Rightarrow> ml_event list" where
  "publish_events i ps = map (\<lambda>(clk, rx, fin, a). MPublish clk rx fin i a None) ps"

lemma publish_events_simps [simp]:
  "publish_events i [] = []"
  "publish_events i ((clk, rx, fin, a) # ps) = MPublish clk rx fin i a None # publish_events i ps"
  by (simp_all add: publish_events_def)

abbreviation addr_of :: "timed_publication \<Rightarrow> nat" where
  "addr_of p \<equiv> snd (snd (snd p))"

lemma publish_seq:
  assumes "ml_inv r" and "ml_rooms r i = Some h"
  shows "let r' = foldl ml_step r (publish_events i ps)
    in ml_inv r' \<and> ml_rooms r' = ml_rooms r \<and>
       rb_size (mr_history (ml_heap r' h)) = rb_size (mr_history (ml_heap r h)) \<and>
       rb_abs (mr_history (ml_heap r' h)) =
         lastn (nat (rb_size (mr_history (ml_heap r h))))
           (rb_abs (mr_history (ml_heap r h)) @ map (Some \<circ> addr_of) ps) \<and>
       (\<forall>a. a \<notin> set (map addr_of ps) \<longrightarrow> ml_msgs r' a = ml_msgs r a)"
  using assms
proof (induction ps arbitrary: r)
  case Nil
  have "rb_inv (mr_history (ml_heap r h))"
    using ml_inv_heap [OF Nil.prems(1)] by (simp add: room_ok_def)
  from history.items_bound [OF this] Nil show ?case
    by (simp add: Let_def)
next
  case (Cons p ps)
  obtain clk rx fin a where p: "p = (clk, rx, fin, a)" by (cases p)
  let ?r1 = "fst (snd (ml_Publish clk rx fin i a None r))"
  note eq = ml_Publish_eq(2) [OF Cons.prems, of clk rx fin a None]
  have inv: "rb_inv (mr_history (ml_heap r h))"
    using ml_inv_heap [OF Cons.prems(1)] by (simp add: room_ok_def)
  have hist: "mr_history (ml_heap ?r1 h) = rb_added (mr_history (ml_heap r h)) (Some a)"
    by (simp add: eq published_history_def opts_or_default_def DefaultPublishOptions_def)
  have "ml_rooms ?r1 = ml_rooms r" and msgs: "b \<noteq> a \<Longrightarrow> ml_msgs ?r1 b = ml_msgs r b" for b
    by (simp_all add: eq)
  with Cons.IH [OF ml_inv_Publish [OF Cons.prems(1), of clk rx fin i a None]] Cons.prems(2) inv hist
  show ?case
    by (simp add: p Let_def rb_abs_added lastn_lastn_append)
qed

lemma publish_seq_ids:
  assumes "ml_inv r" and "ml_rooms r i = Some h" and "distinct (map addr_of ps)"
    and "0 \<le> ml_messageSeq r" and "ml_messageSeq r + int (length ps) \<le> max_int64"
  shows "map (\<lambda>a. msg_ID (ml_msgs (foldl ml_step r (publish_events i ps)) a)) (map addr_of ps) =
    generate_ids (map (\<lambda>p. fst p 1) ps) (ml_messageSeq r)"
  using assms
proof (induction ps arbitrary: r)
  case Nil
  then show ?case by simp
next
  case (Cons p ps)
  obtain clk rx fin a where p: "p = (clk, rx, fin, a)" by (cases p)
  let ?r1 = "fst (snd (ml_Publish clk rx fin i a None r))"
  note eq = ml_Publish_eq(2) [OF Cons.prems(1,2), of clk rx fin a None]
  have inv1: "ml_inv ?r1" by (rule ml_inv_Publish [OF Cons.prems(1)])
  have rooms1: "ml_rooms ?r1 i = Some h" by (simp add: eq Cons.prems(2))
  have seq1: "ml_messageSeq ?r1 = ml_messageSeq r + 1"
    using Cons.prems(4,5) by (simp add: eq wrap64_id in_int64_def min_int64_def)
  have id1: "msg_ID (ml_msgs ?r1 a) = fst (generateMessageID (clk 1) (ml_messageSeq r))"
    by (simp add: eq stamped_def Let_def)
  have keep: "ml_msgs (foldl ml_step ?r1 (publish_events i ps)) a = ml_msgs ?r1 a"
    using publish_seq [OF inv1 rooms1, of ps] Cons.prems(3) by (simp add: p Let_def)
  have "snd (generateMessageID (clk 1) (ml_messageSeq r)) = ml_messageSeq ?r1"
    using seq1 Cons.prems(4,5)
    by (simp add: generateMessageID_def Let_def wrap64_id in_int64_def min_int64_def)
  with Cons.IH [OF inv1 rooms1] Cons.prems(3,4,5) seq1 id1 keep show ?case
    by (simp add: p Let_def case_prod_unfold)
qed

lemma dropWhile_nth:
  "distinct (map f xs) \<Longrightarrow> k < length xs \<Longrightarrow> dropWhile (\<lambda>x. f x \<noteq> f (xs ! k)) xs = drop k xs"
proof (induction xs arbitrary: k)
  case Nil
  then show ?case by simp
next
  case (Cons x xs)
  show ?case
  proof (cases k)
    case (Suc j)
    with Cons.prems have "f x \<noteq> f (xs ! j)"
      by (metis Suc_less_eq distinct.simps(2) image_eqI length_Cons list.set_map list.simps(9) nth_mem)
    with Cons Suc show ?thesis by simp
  qed simp
qed

text \<open>
  C20: Nothing is lost between a disconnection and a recovery: in a room whose history was empty,
  after publishing any number of messages (as many as the history holds), a client that recovers
  from the ID of the message it saw last gets exactly the messages published after it, in order.
\<close>

theorem publish_then_recover:
  assumes "ml_inv r" and "ml_rooms r i = Some h" and "rb_abs (mr_history (ml_heap r h)) = []"
    and "distinct (map addr_of ps)" and "length ps \<le> nat (rb_size (mr_history (ml_heap r h)))"
    and "0 \<le> ml_messageSeq r" and "ml_messageSeq r + int (length ps) \<le> max_int64"
    and "\<forall>p \<in> set ps. in_int64 (time_to_milli (fst p 1))" and "k < length ps"
  shows "let r' = foldl ml_step r (publish_events i ps)
    in ml_RecoverMessages i (Some \<lparr>ro_FromID = msg_ID (ml_msgs r' (addr_of (ps ! k))), ro_Limit = 0,
         ro_Since = zero_time\<rparr>) r' = Returns (map addr_of (drop (Suc k) ps))"
proof -
  let ?r' = "foldl ml_step r (publish_events i ps)" and ?as = "map addr_of ps"
  let ?id = "\<lambda>a. msg_ID (ml_msgs ?r' a)"
  have after: "ml_inv ?r'" "ml_rooms ?r' i = Some h" "rb_abs (mr_history (ml_heap ?r' h)) = map Some ?as"
    using publish_seq [OF assms(1,2), of ps] assms(2,3,5) by (simp_all add: Let_def)
  then have stored: "rb_stored (mr_history (ml_heap ?r' h)) = ?as"
    unfolding rb_stored_def by (simp only: map_filter_Some)
  have ids: "map ?id ?as = generate_ids (map (\<lambda>p. fst p 1) ps) (ml_messageSeq r)"
    by (rule publish_seq_ids) (use assms in simp_all)
  have "distinct (map ?id ?as)"
    unfolding ids using assms(6,7,8) by (intro generate_ids_no_repeat) auto
  then have drop: "dropWhile (\<lambda>a. ?id a \<noteq> ?id (?as ! k)) ?as = drop k ?as"
    using assms(9) by (intro dropWhile_nth) simp_all
  have long: "\<forall>s \<in> set (generate_ids clock n). 2 \<le> length s" for clock n
    using generated_id_long by (induction clock arbitrary: n) (auto simp: Let_def case_prod_unfold)
  have "?id (?as ! k) \<in> set (map ?id ?as)" using assms(9) by simp
  then have "2 \<le> length (?id (?as ! k))" using long ids by metis
  then have "?id (?as ! k) \<notin> {'''', ''0'', ''-''}" by auto
  with ml_RecoverMessages_eq [OF after(1,2), of "Some \<lparr>ro_FromID = ?id (?as ! k), ro_Limit = 0, ro_Since = zero_time\<rparr>"]
    stored drop
  have "ml_RecoverMessages i (Some \<lparr>ro_FromID = ?id (?as ! k), ro_Limit = 0, ro_Since = zero_time\<rparr>) ?r' =
      Returns (tl (drop k ?as))"
    by simp
  moreover have "tl (drop k ?as) = map addr_of (drop (Suc k) ps)"
    by (metis drop_Suc drop_map tl_drop)
  ultimately show ?thesis using assms(9) by (simp add: Let_def)
qed

definition group_room :: room_config where
  "group_room = NewRoomConfig ''r'' []"

definition sample_relay :: mem_relay where
  "sample_relay = snd (ml_CreateRoom (\<lambda>_. 0) group_room
     (NewMemoryRelay DefaultMemoryConfig 0 (\<lambda>_. sample_message ''new'' ''bob'')))"

lemma sample_relay_facts:
  "ml_inv sample_relay" "ml_rooms sample_relay ''r'' = Some 0" "ml_messageSeq sample_relay = 0"
  "ml_heap sample_relay 0 = empty_room group_room 1000 0" "ml_hasHandler sample_relay = False"
  "ml_msgs sample_relay = (\<lambda>_. sample_message ''new'' ''bob'')"
  by (simp_all add: sample_relay_def ml_inv_CreateRoom ml_inv_new)
    (simp_all add: ml_CreateRoom_def NewMemoryRelay_def group_room_def NewRoomConfig_def Let_def
      DefaultMemoryConfig_def)

definition sample_publication :: "int \<Rightarrow> nat \<Rightarrow> timed_publication" where
  "sample_publication now a = ((\<lambda>_. now), (\<lambda>_ _. RecvOk), [], a)"

theorem publish_then_recover_witness:
  "let r' = foldl ml_step sample_relay (publish_events ''r'' (map (sample_publication 5) [0, 1, 2]))
   in ml_RecoverMessages ''r'' (Some \<lparr>ro_FromID = msg_ID (ml_msgs r' 1), ro_Limit = 0,
        ro_Since = zero_time\<rparr>) r' = Returns [2]"
proof -
  have "in_int64 (time_to_milli 5)" by (simp add: time_to_milli_def)
  with publish_then_recover [OF sample_relay_facts(1,2), of "map (sample_publication 5) [0, 1, 2]" 1]
  show ?thesis
    by (simp add: sample_relay_facts rb_size_new sample_publication_def max_int64_def)
qed

text \<open>
  The history stores the caller's message object, not a copy: publishing the same object again
  rewrites the stored first publication with the second one's ID.  The history then holds the
  object twice, and a client that recovers from the ID it received first gets nothing, although a
  newer message was published.
\<close>

theorem republish_rewrites_history:
  assumes "ml_inv r" and "ml_rooms r i = Some h" and "rb_abs (mr_history (ml_heap r h)) = []"
    and "2 \<le> rb_size (mr_history (ml_heap r h))"
    and "0 \<le> ml_messageSeq r" and "ml_messageSeq r + 2 \<le> max_int64"
    and "in_int64 (time_to_milli (clk1 1))" and "in_int64 (time_to_milli (clk2 1))"
  shows "let r1 = ml_step r (MPublish clk1 rx1 fin1 i a None);
             r2 = ml_step r1 (MPublish clk2 rx2 fin2 i a None)
    in rb_stored (mr_history (ml_heap r2 h)) = [a, a] \<and>
       ml_RecoverMessages i (Some \<lparr>ro_FromID = msg_ID (ml_msgs r1 a), ro_Limit = 0,
         ro_Since = zero_time\<rparr>) r2 = Returns []"
proof -
  let ?r1 = "ml_step r (MPublish clk1 rx1 fin1 i a None)"
  let ?r2 = "ml_step ?r1 (MPublish clk2 rx2 fin2 i a None)"
  note eq1 = ml_Publish_eq(2) [OF assms(1,2), of clk1 rx1 fin1 a None]
  have r1: "ml_inv ?r1" by (rule ml_step_inv [OF assms(1)])
  have r1_fields: "ml_rooms ?r1 i = Some h" "ml_messageSeq ?r1 = ml_messageSeq r + 1"
    using assms(2,5,6) by (simp_all add: eq1 wrap64_id in_int64_def min_int64_def)
  note eq2 = ml_Publish_eq(2) [OF r1 r1_fields(1), of clk2 rx2 fin2 a None]
  let ?id1 = "msg_ID (ml_msgs ?r1 a)" and ?id2 = "msg_ID (ml_msgs ?r2 a)"
  have ids: "?id1 = fst (generateMessageID (clk1 1) (ml_messageSeq r))"
      "?id2 = fst (generateMessageID (clk2 1) (ml_messageSeq r + 1))"
    using eq2 r1_fields(2) by (simp_all add: eq1 stamped_def Let_def)
  have "distinct (generate_ids [clk1 1, clk2 1] (ml_messageSeq r))"
    by (rule generate_ids_no_repeat) (use assms in simp_all)
  moreover have "snd (generateMessageID (clk1 1) (ml_messageSeq r)) = ml_messageSeq r + 1"
    using assms(5,6) by (simp add: generateMessageID_def Let_def wrap64_id in_int64_def min_int64_def)
  ultimately have neq: "?id1 \<noteq> ?id2" unfolding ids by (simp add: Let_def case_prod_unfold)
  have "2 \<le> length ?id1" unfolding ids by (rule generated_id_long)
  then have mark: "?id1 \<notin> {'''', ''0'', ''-''}" by auto
  have r2: "ml_inv ?r2" "ml_rooms ?r2 i = Some h"
    by (rule ml_step_inv [OF r1]) (use eq2 r1_fields(1) in simp)
  have "rb_abs (mr_history (ml_heap ?r2 h)) = [Some a, Some a]"
    using publish_seq [OF assms(1,2), of "[(clk1, rx1, fin1, a), (clk2, rx2, fin2, a)]"] assms(3,4)
    by (simp add: Let_def)
  then have stored: "rb_stored (mr_history (ml_heap ?r2 h)) = [a, a]"
    by (simp add: rb_stored_def List.map_filter_simps)
  with ml_RecoverMessages_eq [OF r2, of "Some \<lparr>ro_FromID = ?id1, ro_Limit = 0, ro_Since = zero_time\<rparr>"] mark neq
  show ?thesis by (simp add: Let_def)
qed

theorem republish_rewrites_history_witness:
  "let r1 = ml_step sample_relay (MPublish (\<lambda>_. 5) (\<lambda>_ _. RecvOk) [] ''r'' 0 None);
       r2 = ml_step r1 (MPublish (\<lambda>_. 7) (\<lambda>_ _. RecvOk) [] ''r'' 0 None)
   in ml_RecoverMessages ''r'' (Some \<lparr>ro_FromID = msg_ID (ml_msgs r1 0), ro_Limit = 0,
        ro_Since = zero_time\<rparr>) r2 = Returns []"
proof -
  have "in_int64 (time_to_milli 5)" "in_int64 (time_to_milli 7)" by (simp_all add: time_to_milli_def)
  with republish_rewrites_history [OF sample_relay_facts(1,2), of "\<lambda>_. 5" "\<lambda>_. 7" "\<lambda>_ _. RecvOk" "[]" 0
      "\<lambda>_ _. RecvOk" "[]"]
  show ?thesis
    by (simp add: sample_relay_facts rb_size_new max_int64_def Let_def)
qed


definition alice :: subscriber where "alice = \<lparr>sub_handle = 1, sub_ID = ''alice''\<rparr>"


text \<open>
  One delivery calls \<open>Receive\<close> at most three times and stops at the first success or panic; it
  reports success exactly when one of those calls succeeded, the panic when one panicked, and
  otherwise the third error; and it asks for the subscriber's removal exactly after a panic.
\<close>

theorem safe_deliver_outcome:
  "let (res, es) = MemoryRoom_safeDeliver u s rx;
       calls = length (filter (\<lambda>e. e = SubReceive s) es)
   in (dr_Status res = DeliverySuccess \<longleftrightarrow> (\<exists>k < 3. rx k = RecvOk \<and> (\<forall>j < k. \<exists>e. rx j = RecvErr e))) \<and>
      (GoUnsubscribe u \<in> set es \<longleftrightarrow> (\<exists>k < 3. \<exists>v. rx k = RecvPanic v \<and> (\<forall>j < k. \<exists>e. rx j = RecvErr e))) \<and>
      1 \<le> calls \<and> calls \<le> 3 \<and>
      (\<forall>j < calls - 1. \<exists>e. rx j = RecvErr e) \<and>
      ((\<exists>e. rx (calls - 1) = RecvErr e) \<longrightarrow> calls = 3 \<and> dr_Status res = DeliveryFailed \<and>
         rx 2 = RecvErr (the (dr_Error res)))"
proof -
  have less3: "(\<exists>k < 3. P k) \<longleftrightarrow> P 0 \<or> P 1 \<or> P 2" for P :: "nat \<Rightarrow> bool"
    by (auto simp: numeral_3_eq_3 numeral_2_eq_2 less_Suc_eq)
  have less2: "(\<forall>j < 2. P j) \<longleftrightarrow> P 0 \<and> P 1" for P :: "nat \<Rightarrow> bool"
    by (auto simp: numeral_2_eq_2 less_Suc_eq)
  show ?thesis
    unfolding MemoryRoom_safeDeliver_def attempts_cases less3
    by (cases "rx 0"; cases "rx 1"; cases "rx 2")
      (simp_all add: delivery_result_of_def less2)
qed

theorem safe_deliver_outcome_witness:
  "fst (MemoryRoom_safeDeliver ''alice'' alice (\<lambda>k. if k = 1 then RecvOk else RecvErr ErrInternal)) =
     \<lparr>dr_UserID = ''alice'', dr_Status = DeliverySuccess, dr_Error = None\<rparr>"
proof -
  let ?rx = "\<lambda>k. if k = 1 then RecvOk else RecvErr ErrInternal"
  have "\<exists>k < (3 :: nat). ?rx k = RecvOk \<and> (\<forall>j < k. \<exists>e. ?rx j = RecvErr e)"
    by (intro exI [of _ "1 :: nat"]) simp
  with safe_deliver_outcome [of "''alice''" alice ?rx]
  have "dr_Status (fst (MemoryRoom_safeDeliver ''alice'' alice ?rx)) = DeliverySuccess"
    by (simp add: case_prod_unfold Let_def)
  then show ?thesis
    by (simp add: MemoryRoom_safeDeliver_def case_prod_unfold delivery_result_of_def split: attempt_result.splits)
qed

text \<open>
  C27: No connection is dropped silently: after any sequence of subscriptions, unsubscriptions and
  closings of a new room, every subscriber that ever joined is still registered or has been closed,
  and the subscriber and presence tables have the same users, each under its own ID.
\<close>

theorem subscribers_accounted_for:
  assumes "fair mr_subscribers (mem_room_step clk hh) (empty_room config n now) evs"
  shows "let (room, es) = run_ops (mem_room_step clk hh) (empty_room config n now) evs
    in joined evs \<subseteq> ran (mr_subscribers room) \<union> set (closes es) \<and>
       table_ok (mr_subscribers room) (mr_presence room)"
proof -
  have "table_ok (mr_subscribers (empty_room config n now)) (mr_presence (empty_room config n now))"
    by (simp add: empty_room_def table_ok_def)
  from mem_room.ok_run [OF this, of clk hh evs] mem_room.run_accounts [OF assms] show ?thesis
    by (simp add: case_prod_unfold)
qed

theorem subscribers_accounted_for_witness:
  "let (room, es) = run_ops (mem_room_step (\<lambda>_. 0) False) (empty_room group_room 10 0)
         [Join alice None, Join (alice\<lparr>sub_handle := 2\<rparr>) None, CloseAll [''alice'']]
   in {alice, alice\<lparr>sub_handle := 2\<rparr>} \<subseteq> ran (mr_subscribers room) \<union> set (closes es)"
proof -
  have "fair mr_subscribers (mem_room_step (\<lambda>_. 0) False) (empty_room group_room 10 0)
      [Join alice None, Join (alice\<lparr>sub_handle := 2\<rparr>) None, CloseAll [''alice'']]"
    by (simp add: mem_room_step_def MemoryRoom_Subscribe_def alice_def Let_def)
  from subscribers_accounted_for [OF this] show ?thesis
    by (auto simp: case_prod_unfold Let_def)
qed

text \<open>
  Subscribing a subscriber that is already registered closes that very subscriber and then
  registers it again: the room is left with a connection it has just closed.
\<close>

theorem resubscribe_closes_itself:
  assumes "mr_subscribers room (sub_ID s) = Some s"
  shows "let (room', es) = MemoryRoom_Subscribe clk hh room s info
    in mr_subscribers room' (sub_ID s) = Some s \<and> SubClose s \<in> set es"
  using assms by (simp add: MemoryRoom_Subscribe_def Let_def)

theorem resubscribe_closes_itself_witness:
  "SubClose alice \<in> set (snd (MemoryRoom_Subscribe (\<lambda>_. 0) False
     ((empty_room group_room 10 0)\<lparr>mr_subscribers := [''alice'' \<mapsto> alice]\<rparr>) alice None))"
  using resubscribe_closes_itself
    [of "(empty_room group_room 10 0)\<lparr>mr_subscribers := [''alice'' \<mapsto> alice]\<rparr>" alice "\<lambda>_. 0" False None]
  by (simp add: alice_def case_prod_unfold Let_def)

lemma append_colon_inject:
  "CHR '':'' \<notin> set a \<Longrightarrow> CHR '':'' \<notin> set c \<Longrightarrow> a @ CHR '':'' # b = c @ CHR '':'' # d \<longleftrightarrow> a = c \<and> b = d"
proof (induction a arbitrary: c)
  case Nil
  then show ?case by (cases c) auto
next
  case (Cons x a)
  then show ?case by (cases c) auto
qed

text \<open>
  The room of a direct conversation does not depend on who writes, and different pairs of users
  without a colon in their IDs have different rooms; with a colon two pairs can share one, so the
  messages of one conversation are delivered to the other.
\<close>

theorem dm_room_id:
  assumes "CHR '':'' \<notin> set a \<union> set b \<union> set c \<union> set d"
  shows "(GenerateDMRoomID a b = GenerateDMRoomID c d \<longleftrightarrow> {a, b} = {c, d}) \<and>
    GenerateDMRoomID x y = GenerateDMRoomID y x \<and>
    GenerateDMRoomID ''a'' ''b:c'' = GenerateDMRoomID ''a:b'' ''c''"
proof -
  have "GenerateDMRoomID x y = GenerateDMRoomID y x"
    by (auto simp: GenerateDMRoomID_def)
  moreover have "GenerateDMRoomID a b = GenerateDMRoomID c d \<longleftrightarrow> {a, b} = {c, d}"
    using assms append_colon_inject [of a c b d] append_colon_inject [of a d b c]
      append_colon_inject [of b c a d] append_colon_inject [of b d a c]
    by (auto simp: GenerateDMRoomID_def doubleton_eq_iff)
  moreover have "GenerateDMRoomID ''a'' ''b:c'' = ''dm:a:b:c''" "GenerateDMRoomID ''a:b'' ''c'' = ''dm:a:b:c''"
    by (simp_all add: GenerateDMRoomID_def less_char_def)
  ultimately show ?thesis by simp
qed

theorem dm_room_id_witness:
  "GenerateDMRoomID ''ann'' ''bob'' \<noteq> GenerateDMRoomID ''ann'' ''eve''"
  using dm_room_id [of "''ann''" "''bob''" "''ann''" "''eve''" "''ann''" "''bob''"]
  by (auto simp: doubleton_eq_iff)

section \<open>Concurrent \<open>GetOrCreateRoom\<close>\<close>

text \<open>
  \<open>GetOrCreateRoom\<close> looks the room up and creates it in two separate critical sections.  A state is
  the relay and, per goroutine, where it is in the call; \<open>config\<close> and the clock are common.
\<close>

datatype goc_pc = Calling | Creating | Returned "(go_error, nat) outcome"

inductive goc_step ::
    "(nat \<Rightarrow> gotime) \<Rightarrow> room_config \<Rightarrow> mem_relay \<times> (nat \<Rightarrow> goc_pc) \<Rightarrow> mem_relay \<times> (nat \<Rightarrow> goc_pc) \<Rightarrow> bool"
  for clk config where
  hit: "pcs t = Calling \<Longrightarrow> ml_GetRoom r (rc_ID config) = Some h \<Longrightarrow>
    goc_step clk config (r, pcs) (r, pcs(t := Returned (Returns h)))"
| miss: "pcs t = Calling \<Longrightarrow> ml_GetRoom r (rc_ID config) = None \<Longrightarrow>
    goc_step clk config (r, pcs) (r, pcs(t := Creating))"
| create: "pcs t = Creating \<Longrightarrow> ml_CreateRoom clk config r = (res, r') \<Longrightarrow>
    goc_step clk config (r, pcs) (r', pcs(t := Returned res))"

inductive_cases goc_stepE: "goc_step clk config (r, pcs) s'"

text \<open>Run alone, the steps are the method.\<close>

lemma goc_alone:
  assumes "pcs t = Calling"
  shows "(goc_step clk config)\<^sup>*\<^sup>* (r, pcs)
    (snd (ml_GetOrCreateRoom clk config r), pcs(t := Returned (fst (ml_GetOrCreateRoom clk config r))))"
proof (cases "ml_GetRoom r (rc_ID config)")
  case None
  have "goc_step clk config (r, pcs) (r, pcs(t := Creating))"
    using assms None by (rule miss)
  moreover obtain res r' where res: "ml_CreateRoom clk config r = (res, r')"
    by (cases "ml_CreateRoom clk config r")
  then have "goc_step clk config (r, pcs(t := Creating)) (r', (pcs(t := Creating))(t := Returned res))"
    by (intro create) simp_all
  ultimately have "(goc_step clk config)\<^sup>*\<^sup>* (r, pcs) (r', pcs(t := Returned res))"
    by (simp add: converse_rtranclp_into_rtranclp)
  then show ?thesis by (simp add: ml_GetOrCreateRoom_def None res)
next
  case (Some h)
  then have "goc_step clk config (r, pcs) (r, pcs(t := Returned (Returns h)))"
    using assms by (intro hit)
  then show ?thesis by (simp add: ml_GetOrCreateRoom_def Some)
qed

definition goc_inv :: "room_config \<Rightarrow> mem_relay \<times> (nat \<Rightarrow> goc_pc) \<Rightarrow> bool" where
  "goc_inv config = (\<lambda>(r, pcs). \<forall>t res. pcs t = Returned res \<longrightarrow>
     (case res of
        Returns h \<Rightarrow> ml_rooms r (rc_ID config) = Some h
      | Fails e \<Rightarrow> e = RoomAlreadyExists (rc_ID config) \<and> ml_rooms r (rc_ID config) \<noteq> None
      | Panics \<Rightarrow> False
      | Blocks \<Rightarrow> False))"

lemma goc_step_inv:
  assumes "goc_step clk config s s'" and "goc_inv config s"
  shows "goc_inv config s'"
  using assms
proof cases
  case (hit pcs t r h)
  with assms(2) show ?thesis by (auto simp: goc_inv_def ml_GetRoom_def)
next
  case (miss pcs t r)
  with assms(2) show ?thesis by (auto simp: goc_inv_def)
next
  case (create pcs t r res r')
  show ?thesis
  proof (cases "ml_rooms r (rc_ID config)")
    case None
    with create assms(2) have "pcs u \<noteq> Returned res'" for u res'
      by (cases res') (fastforce simp: goc_inv_def)+
    with create None show ?thesis
      by (auto simp: goc_inv_def ml_CreateRoom_def Let_def)
  next
    case (Some h)
    with create assms(2) show ?thesis
      by (auto simp: goc_inv_def ml_CreateRoom_def)
  qed
qed

text \<open>
  However the calls of any number of goroutines interleave, all that get a room get the same
  one, the registered one: the second lookup inside \<open>CreateRoom\<close> never replaces a room.
\<close>

theorem get_or_create_same_room:
  assumes "(goc_step clk config)\<^sup>*\<^sup>* (r0, \<lambda>_. Calling) (r, pcs)"
    and "pcs t = Returned (Returns h)"
  shows "ml_rooms r (rc_ID config) = Some h"
proof -
  from assms(1) have "goc_inv config (r, pcs)"
  proof (induction rule: rtranclp_induct)
    case base
    show ?case by (simp add: goc_inv_def)
  next
    case (step s s')
    then show ?case using goc_step_inv by blast
  qed
  with assms(2) show ?thesis by (fastforce simp: goc_inv_def)
qed

theorem get_or_create_same_room_witness:
  "ml_rooms (snd (ml_GetOrCreateRoom (\<lambda>_. 0) group_room sample_relay)) (rc_ID group_room) = Some 0"
proof -
  have got: "ml_GetOrCreateRoom (\<lambda>_. 0) group_room sample_relay = (Returns 0, sample_relay)"
    using sample_relay_facts(2)
    by (simp add: ml_GetOrCreateRoom_def ml_GetRoom_def group_room_def NewRoomConfig_def)
  from goc_alone [of "\<lambda>_. Calling" 0 "\<lambda>_. 0" group_room sample_relay]
  have "(goc_step (\<lambda>_. 0) group_room)\<^sup>*\<^sup>* (sample_relay, \<lambda>_. Calling)
      (sample_relay, (\<lambda>_. Calling)(0 := Returned (Returns 0)))"
    by (simp add: got)
  from get_or_create_same_room [OF this, of 0 0] show ?thesis by (simp add: got)
qed

text \<open>
  \<open>GetOrCreateRoom\<close> can fail although the room exists: two goroutines that both miss the lookup
  race to create the room, and the loser gets "already exists" instead of the room, so for example
  one of two first direct messages between two users is refused.
\<close>

theorem get_or_create_race:
  assumes "ml_rooms r (rc_ID config) = None"
  shows "\<exists>r' pcs. (goc_step clk config)\<^sup>*\<^sup>* (r, \<lambda>_. Calling) (r', pcs) \<and>
    ml_rooms r' (rc_ID config) \<noteq> None \<and> pcs 1 = Returned (Fails (RoomAlreadyExists (rc_ID config)))"
proof -
  let ?p0 = "(\<lambda>_. Calling) :: nat \<Rightarrow> goc_pc"
  let ?p1 = "?p0(0 := Creating)" and ?p2 = "?p0(0 := Creating, 1 := Creating)"
  obtain r' where made: "ml_CreateRoom clk config r = (Returns (ml_next r), r')"
      and room: "ml_rooms r' (rc_ID config) = Some (ml_next r)"
    using assms by (auto simp: ml_CreateRoom_def Let_def)
  have lost: "ml_CreateRoom clk config r' = (Fails (RoomAlreadyExists (rc_ID config)), r')"
    using room by (simp add: ml_CreateRoom_def)
  let ?p3 = "?p2(0 := Returned (Returns (ml_next r)))"
  let ?p4 = "?p3(1 := Returned (Fails (RoomAlreadyExists (rc_ID config))))"
  have "goc_step clk config (r, ?p0) (r, ?p1)"
    by (rule miss) (simp_all add: assms ml_GetRoom_def)
  moreover have "goc_step clk config (r, ?p1) (r, ?p2)"
    by (rule miss) (simp_all add: assms ml_GetRoom_def)
  moreover have "goc_step clk config (r, ?p2) (r', ?p3)"
    by (rule create) (simp_all add: made)
  moreover have "goc_step clk config (r', ?p3) (r', ?p4)"
    by (rule create) (simp_all add: lost)
  ultimately have "(goc_step clk config)\<^sup>*\<^sup>* (r, ?p0) (r', ?p4)"
    by (meson r_into_rtranclp rtranclp_trans)
  with room show ?thesis by (intro exI [of _ r'] exI [of _ ?p4]) simp
qed

theorem get_or_create_race_witness:
  "\<exists>r' pcs. (goc_step (\<lambda>_. 0) group_room)\<^sup>*\<^sup>*
     (NewMemoryRelay DefaultMemoryConfig 0 (\<lambda>_. sample_message ''new'' ''bob''), \<lambda>_. Calling) (r', pcs) \<and>
     ml_rooms r' ''r'' \<noteq> None \<and> pcs 1 = Returned (Fails (RoomAlreadyExists ''r''))"
  using get_or_create_race [of "NewMemoryRelay DefaultMemoryConfig 0 (\<lambda>_. sample_message ''new'' ''bob'')"
      group_room "\<lambda>_. 0"]
  by (simp add: NewMemoryRelay_def group_room_def NewRoomConfig_def)

end
