(* ===== verification/Pattern.thy ===== *)
theory Pattern
  imports Types
begin

text \<open>
  The channel pattern matcher \<open>matchPattern\<close> of \<open>engine/permissions.go\<close>.  The two indices of
  the Go loop become the two unread suffixes: \<open>pi\<close> is the position where \<open>ps\<close> starts, \<open>ci\<close>
  the position where \<open>cs\<close> starts.  The literal between two stars is built with
  \<open>string(pattern[pi])\<close>, which encodes the byte as a code point, so a byte above 127 becomes
  two bytes.  The reference is the usual glob relation.
\<close>

section \<open>The matcher\<close>

definition star :: char where
  "star = CHR ''*''"

text \<open>\<open>string(b)\<close> of a byte: its UTF-8 encoding as a code point.\<close>

definition string_of_byte :: "char \<Rightarrow> string" where
  "string_of_byte c =
     (let b = (of_char c :: nat)
      in if b < 128 then [c] else [char_of (192 + b div 64), char_of (128 + b mod 64)])"

text \<open>The inner loop that collects the literal up to the next star.\<close>

fun next_literal :: "string \<Rightarrow> string \<Rightarrow> string \<times> string" where
  "next_literal [] lit = (lit, [])"
| "next_literal (p # ps) lit =
     (if p \<noteq> star then next_literal ps (lit @ string_of_byte p) else (lit, p # ps))"

text \<open>The inner loop that looks for the literal in the rest of the channel.\<close>

fun find_literal :: "string \<Rightarrow> string \<Rightarrow> string option" where
  "find_literal lit [] = None"
| "find_literal lit (c # cs) =
     (if length lit \<le> length (c # cs) \<and> take (length lit) (c # cs) = lit
      then Some (drop (length lit) (c # cs)) else find_literal lit cs)"

lemma next_literal_length: "length (snd (next_literal ps lit)) \<le> length ps"
  by (induction ps lit rule: next_literal.induct) auto

text \<open>What follows the main loop: skip trailing stars, then both ends must be reached.\<close>

definition match_end :: "string \<Rightarrow> string \<Rightarrow> bool" where
  "match_end ps cs \<longleftrightarrow> dropWhile (\<lambda>p. p = star) ps = [] \<and> cs = []"

function match_loop :: "string \<Rightarrow> string \<Rightarrow> bool" where
  "match_loop [] cs = match_end [] cs"
| "match_loop (p # ps) [] = match_end (p # ps) []"
| "match_loop (p # ps) (c # cs) =
     (if p = star then
        (if ps = [] then True
         else (let (lit, ps') = next_literal ps []
               in case find_literal lit (c # cs) of
                    None \<Rightarrow> False
                  | Some cs' \<Rightarrow> match_loop ps' cs'))
      else if p = c then match_loop ps cs
      else False)"
  by pat_completeness auto
termination
proof (relation "measure (\<lambda>(ps, cs). length ps)", goal_cases)
  case (2 p ps c cs x lit ps' cs')
  then show ?case using next_literal_length [of ps "[]"] by (metis case_prod_conv in_measure le_imp_less_Suc length_Cons snd_conv)
qed auto

definition matchPattern :: "string \<Rightarrow> string \<Rightarrow> bool" where
  "matchPattern pattern channel = (if pattern = ''*'' then True else match_loop pattern channel)"

section \<open>The reference: glob matching\<close>

fun glob :: "string \<Rightarrow> string \<Rightarrow> bool" where
  "glob [] cs = (cs = [])"
| "glob (p # ps) [] = (p = star \<and> glob ps [])"
| "glob (p # ps) (c # cs) =
     (if p = star then glob ps (c # cs) \<or> glob (p # ps) cs else p = c \<and> glob ps cs)"

definition ascii :: "string \<Rightarrow> bool" where
  "ascii s \<longleftrightarrow> (\<forall>c \<in> set s. (of_char c :: nat) < 128)"

lemma glob_star_iff: "glob (star # ps) cs \<longleftrightarrow> (\<exists>xs ys. cs = xs @ ys \<and> glob ps ys)"
proof (induction cs)
  case Nil
  then show ?case by simp
next
  case (Cons c cs)
  show ?case
  proof
    assume "glob (star # ps) (c # cs)"
    with Cons show "\<exists>xs ys. c # cs = xs @ ys \<and> glob ps ys"
      by (auto intro: exI [of _ "[]"]) (metis append_Cons)
  next
    assume "\<exists>xs ys. c # cs = xs @ ys \<and> glob ps ys"
    with Cons show "glob (star # ps) (c # cs)"
      by (auto simp: Cons_eq_append_conv)
  qed
qed

lemma glob_literal: "star \<notin> set lit \<Longrightarrow> glob (lit @ ps) cs \<longleftrightarrow> (\<exists>ys. cs = lit @ ys \<and> glob ps ys)"
proof (induction lit arbitrary: cs)
  case Nil
  then show ?case by simp
next
  case (Cons l lit)
  then show ?case by (cases cs) auto
qed

lemma glob_stars_Nil: "glob ps [] \<longleftrightarrow> dropWhile (\<lambda>p. p = star) ps = []"
  by (induction ps) auto

section \<open>The inner loops\<close>

lemma string_of_byte_ascii: "(of_char p :: nat) < 128 \<Longrightarrow> string_of_byte p = [p]"
  by (simp add: string_of_byte_def)

lemma next_literal_ascii:
  "ascii ps \<Longrightarrow> next_literal ps lit =
     (lit @ takeWhile (\<lambda>p. p \<noteq> star) ps, dropWhile (\<lambda>p. p \<noteq> star) ps)"
  by (induction ps lit rule: next_literal.induct) (auto simp: ascii_def string_of_byte_ascii)

lemma find_literal_Some:
  "find_literal lit cs = Some cs' \<Longrightarrow> \<exists>xs. cs = xs @ lit @ cs'"
proof (induction lit cs rule: find_literal.induct)
  case (1 lit)
  then show ?case by simp
next
  case (2 lit c cs)
  show ?case
  proof (cases "take (length lit) (c # cs) = lit \<and> length lit \<le> length (c # cs)")
    case True
    with "2.prems" have "c # cs = [] @ lit @ cs'"
      using append_take_drop_id [of "length lit" "c # cs"] by auto
    then show ?thesis by blast
  next
    case False
    with 2 obtain xs where "cs = xs @ lit @ cs'" by (auto split: if_splits)
    then have "c # cs = (c # xs) @ lit @ cs'" by simp
    then show ?thesis by blast
  qed
qed

text \<open>The leftmost occurrence leaves the longest rest.\<close>

lemma find_literal_leftmost:
  assumes "cs = xs @ lit @ ys" and "cs \<noteq> []"
  shows "\<exists>cs' zs. find_literal lit cs = Some cs' \<and> cs' = zs @ ys"
  using assms
proof (induction lit cs arbitrary: xs rule: find_literal.induct)
  case (1 lit)
  then show ?case by simp
next
  case (2 lit c cs)
  show ?case
  proof (cases xs)
    case Nil
    with "2.prems"(1) have eq: "c # cs = lit @ ys" by simp
    then have "take (length lit) (c # cs) = lit" "drop (length lit) (c # cs) = ys"
        "length lit \<le> length (c # cs)"
      by simp_all
    then have "find_literal lit (c # cs) = Some ys"
      by (simp only: find_literal.simps) simp
    then show ?thesis by auto
  next
    case (Cons x xs')
    then have rest: "cs = xs' @ lit @ ys" using "2.prems" by simp
    show ?thesis
    proof (cases "length lit \<le> length (c # cs) \<and> take (length lit) (c # cs) = lit")
      case True
      have "c # cs = ((x # xs') @ lit) @ ys" using Cons "2.prems"(1) by simp
      then have "drop (length lit) (c # cs) = drop (length lit) ((x # xs') @ lit) @ ys"
        by (simp only: drop_append) simp
      with True show ?thesis by auto
    next
      case False
      show ?thesis
      proof (cases "cs = []")
        case True
        with rest have "lit = []" by simp
        with False show ?thesis by simp
      next
        case notnil: False
        from "2.IH" [OF False rest notnil] False show ?thesis by auto
      qed
    qed
  qed
qed

section \<open>Correctness\<close>

lemma glob_star_absorb: "glob (star # ps) ys \<Longrightarrow> glob (star # ps) (zs @ ys)"
  unfolding glob_star_iff by (metis append.assoc)

lemma match_end_glob: "match_end ps [] \<longleftrightarrow> glob ps []"
  by (simp add: match_end_def glob_stars_Nil)

lemma split_literal:
  "ps = takeWhile (\<lambda>p. p \<noteq> star) ps @ dropWhile (\<lambda>p. p \<noteq> star) ps"
  "star \<notin> set (takeWhile (\<lambda>p. p \<noteq> star) ps)"
  by (simp_all) (metis (mono_tags) set_takeWhileD)

lemma ascii_Cons [simp]: "ascii (p # ps) \<longleftrightarrow> (of_char p :: nat) < 128 \<and> ascii ps"
  by (auto simp: ascii_def)

lemma ascii_dropWhile: "ascii ps \<Longrightarrow> ascii (dropWhile P ps)"
  by (auto simp: ascii_def dest: set_dropWhileD)

lemma match_loop_sound: "ascii ps \<Longrightarrow> match_loop ps cs \<Longrightarrow> glob ps cs"
proof (induction ps cs rule: match_loop.induct)
  case (1 cs)
  then show ?case by (simp add: match_end_def)
next
  case (2 p ps)
  then show ?case by (simp only: match_loop.simps match_end_glob)
next
  case (3 p ps c cs)
  show ?case
  proof (cases "p = star \<and> ps \<noteq> []")
    case True
    let ?lit = "takeWhile (\<lambda>p. p \<noteq> star) ps" and ?ps' = "dropWhile (\<lambda>p. p \<noteq> star) ps"
    from True "3.prems" obtain cs' where cs': "find_literal ?lit (c # cs) = Some cs'"
        and m: "match_loop ?ps' cs'"
      by (auto simp: next_literal_ascii split: option.splits)
    have "glob ?ps' cs'"
      using "3.IH"(1) True m cs' "3.prems"(1) by (simp add: next_literal_ascii ascii_dropWhile)
    then have "glob (?lit @ ?ps') (?lit @ cs')"
      using glob_literal [OF split_literal(2)] by blast
    moreover from find_literal_Some [OF cs'] obtain xs where "c # cs = xs @ ?lit @ cs'" by blast
    ultimately have "\<exists>xs ys. c # cs = xs @ ys \<and> glob ps ys" by auto
    then have "glob (star # ps) (c # cs)"
      unfolding glob_star_iff .
    with True show ?thesis by simp
  next
    case False
    then show ?thesis using 3 glob_star_iff [of "[]" "c # cs"] by (auto split: if_splits)
  qed
qed

lemma match_loop_complete:
  "ascii ps \<Longrightarrow> star \<notin> set ps \<or> last ps = star \<Longrightarrow> glob ps cs \<Longrightarrow> match_loop ps cs"
proof (induction ps cs rule: match_loop.induct)
  case (1 cs)
  then show ?case by (simp add: match_end_def)
next
  case (2 p ps)
  then show ?case by (simp only: match_loop.simps match_end_glob)
next
  case (3 p ps c cs)
  show ?case
  proof (cases "p = star \<and> ps \<noteq> []")
    case True
    let ?lit = "takeWhile (\<lambda>p. p \<noteq> star) ps" and ?ps' = "dropWhile (\<lambda>p. p \<noteq> star) ps"
    have last: "last ps = star" using True "3.prems"(2) by simp
    then have "star \<in> set ps" using True last_in_set [of ps] by simp
    then have "?ps' \<noteq> []" by auto
    with hd_dropWhile [OF this] obtain qs where qs: "?ps' = star # qs"
      by (cases ?ps') auto
    from "3.prems"(3) True have "glob (star # ps) (c # cs)" by blast
    then obtain xs ys where xs: "c # cs = xs @ ys" "glob ps ys"
      unfolding glob_star_iff by blast
    from xs(2) have "glob (?lit @ ?ps') ys" by simp
    then obtain ys' where ys': "ys = ?lit @ ys'" "glob ?ps' ys'"
      unfolding glob_literal [OF split_literal(2)] by blast
    have "c # cs = xs @ ?lit @ ys'" unfolding xs(1) ys'(1) ..
    from find_literal_leftmost [OF this] obtain zs
      where found: "find_literal ?lit (c # cs) = Some (zs @ ys')" by blast
    have absorbed: "glob ?ps' (zs @ ys')"
      using ys'(2) glob_star_absorb unfolding qs by blast
    have "last (?lit @ ?ps') = last ?ps'"
      by (rule last_appendR) (simp add: qs)
    then have "last ?ps' = star" using last by simp
    then have "match_loop ?ps' (zs @ ys')"
      using "3.IH"(1) True found "3.prems"(1) absorbed
      by (simp add: next_literal_ascii ascii_dropWhile)
    then show ?thesis using True found "3.prems"(1) by (simp add: next_literal_ascii)
  next
    case False
    show ?thesis
    proof (cases "p = star")
      case True
      with False show ?thesis by simp
    next
      case neq: False
      with "3.prems"(3) have "p = c" "glob ps cs" by auto
      moreover have "star \<notin> set ps \<or> last ps = star"
        using "3.prems"(2) by (cases "ps = []") auto
      ultimately show ?thesis using "3.IH"(2) neq "3.prems"(1) by simp
    qed
  qed
qed

lemma matchPattern_glob:
  assumes "ascii pattern" and "matchPattern pattern channel"
  shows "glob pattern channel"
proof (cases "pattern = ''*''")
  case True
  then show ?thesis
    using glob_star_iff [of "[]" channel] by (simp add: star_def)
next
  case False
  with assms match_loop_sound show ?thesis by (simp add: matchPattern_def)
qed

text \<open>A channel the matcher accepts does match the pattern as a glob, where \<open>*\<close> stands for any
  sequence of bytes, for every ASCII pattern: no rule is applied to a channel outside its pattern.\<close>

theorem match_pattern_sound:
  assumes "ascii pattern" and "matchPattern pattern channel"
  shows "glob pattern channel"
  using assms by (rule matchPattern_glob)

theorem match_pattern_sound_witness: "glob ''chat:*'' ''chat:general''"
proof -
  have "ascii ''chat:*''" by (simp add: ascii_def)
  moreover have "matchPattern ''chat:*'' ''chat:general''" by (simp add: matchPattern_def star_def)
  ultimately show ?thesis by (rule match_pattern_sound)
qed

text \<open>C30: On ASCII patterns without a star or ending in one (every pattern of the documentation), the
  matcher decides exactly the glob relation: it terminates, and searching each literal at its
  leftmost occurrence without backtracking loses no match.\<close>

theorem match_pattern_exact:
  assumes "ascii pattern" and "star \<notin> set pattern \<or> last pattern = star"
  shows "matchPattern pattern channel \<longleftrightarrow> glob pattern channel"
  using matchPattern_glob [OF assms(1)] match_loop_complete [OF assms]
  by (auto simp: matchPattern_def)

theorem match_pattern_exact_witness:
  "matchPattern ''team:*:log:*'' ''team:a:b:log:7'' \<and> \<not> matchPattern ''user:1'' ''user:12''"
proof -
  have "ascii ''team:*:log:*''" "ascii ''user:1''" by (simp_all add: ascii_def)
  with match_pattern_exact [of "''team:*:log:*''" "''team:a:b:log:7''"]
    match_pattern_exact [of "''user:1''" "''user:12''"]
  show ?thesis by (simp add: star_def)
qed

text \<open>A pattern whose last star is followed by text misses channels it should match, because the
  literal is taken at its leftmost occurrence only; and a byte above 127 after a star never
  matches itself, because \<open>string(pattern[pi])\<close> re-encodes it as two bytes.\<close>

theorem match_pattern_incomplete:
  "glob ''*:admin'' ''x:admin:admin'' \<and> \<not> matchPattern ''*:admin'' ''x:admin:admin'' \<and>
   glob [star, CHR 0xE9, star] [CHR 0xE9] \<and> \<not> matchPattern [star, CHR 0xE9, star] [CHR 0xE9]"
  by (simp add: matchPattern_def star_def string_of_byte_def match_end_def)

end
