(* ===== verification/Permissions.thy ===== *)
theory Permissions
  imports Pattern
begin

text \<open>
  Access control of \<open>engine/permissions.go\<close>: the permission bit sets (a Go \<open>int\<close>, here a
  64-bit word), the channel rules and the \<open>DefaultPermissionChecker\<close> with its role and per-user
  tables.  A nil or missing map entry reads as Go reads it: an absent role list is empty.
\<close>

section \<open>Permission bits\<close>

type_synonym permission = "64 word"

definition PermNone :: permission where
  "PermNone = 0"

definition PermSubscribe :: permission where
  "PermSubscribe = push_bit 1 1"

definition PermPublish :: permission where
  "PermPublish = push_bit 2 1"

definition PermPresence :: permission where
  "PermPresence = push_bit 3 1"

definition PermHistory :: permission where
  "PermHistory = push_bit 4 1"

definition PermJoinLeave :: permission where
  "PermJoinLeave = push_bit 5 1"

definition PermAll :: permission where
  "PermAll = PermSubscribe OR PermPublish OR PermPresence OR PermHistory OR PermJoinLeave"

definition PermReadOnly :: permission where
  "PermReadOnly = PermSubscribe OR PermPresence OR PermHistory"

definition PermStandard :: permission where
  "PermStandard = PermSubscribe OR PermPublish OR PermPresence"

lemmas perm_defs = PermNone_def PermSubscribe_def PermPublish_def PermPresence_def PermHistory_def
  PermJoinLeave_def PermAll_def PermReadOnly_def PermStandard_def

definition perm_Has :: "permission \<Rightarrow> permission \<Rightarrow> bool" where
  "perm_Has p perm \<longleftrightarrow> p AND perm = perm"

definition perm_Add :: "permission \<Rightarrow> permission \<Rightarrow> permission" where
  "perm_Add p perm = p OR perm"

definition perm_Remove :: "permission \<Rightarrow> permission \<Rightarrow> permission" where
  "perm_Remove p perm = p AND NOT perm"

lemma perm_Has_bits: "perm_Has p q \<longleftrightarrow> (\<forall>n. bit q n \<longrightarrow> bit p n)"
proof
  assume "perm_Has p q"
  then show "\<forall>n. bit q n \<longrightarrow> bit p n"
    unfolding perm_Has_def by (metis bit_and_iff)
next
  assume "\<forall>n. bit q n \<longrightarrow> bit p n"
  then show "perm_Has p q"
    unfolding perm_Has_def by (intro bit_word_eqI) (auto simp: bit_and_iff)
qed

lemma bit_perm_Add [simp]: "bit (perm_Add p q) n \<longleftrightarrow> bit p n \<or> bit q n"
  by (simp add: perm_Add_def bit_or_iff)

lemma bit_perm_Remove [simp]: "bit (perm_Remove p q) n \<longleftrightarrow> bit p n \<and> \<not> bit q n"
  by (auto simp: perm_Remove_def bit_simps dest: bit_imp_possible_bit)

lemma perm_Has_single: "n < 64 \<Longrightarrow> perm_Has p (push_bit n 1) \<longleftrightarrow> bit p n"
  by (auto simp: perm_Has_bits bit_exp_iff)

lemma perm_Has_Subscribe: "perm_Has p PermSubscribe \<longleftrightarrow> bit p 1"
  by (simp only: PermSubscribe_def perm_Has_single)

lemma perm_Has_Publish: "perm_Has p PermPublish \<longleftrightarrow> bit p 2"
  by (simp only: PermPublish_def perm_Has_single)

lemma perm_Has_Presence: "perm_Has p PermPresence \<longleftrightarrow> bit p 3"
  by (simp only: PermPresence_def perm_Has_single)

lemma perm_Has_History: "perm_Has p PermHistory \<longleftrightarrow> bit p 4"
  by (simp only: PermHistory_def perm_Has_single)

lemma perm_Has_JoinLeave: "perm_Has p PermJoinLeave \<longleftrightarrow> bit p 5"
  by (simp only: PermJoinLeave_def perm_Has_single)

section \<open>Rules and the checker\<close>

record channel_rule =
  cr_Pattern :: string
  cr_DefaultPermissions :: permission
  cr_RequireAuth :: bool
  cr_AllowAnonymous :: bool
  cr_MaxSubscribers :: int
  cr_MaxPublishRate :: int
  cr_JoinLeave :: bool
  cr_Presence :: bool
  cr_HistorySize :: int
  cr_HistoryTTL :: duration

definition zero_rule :: channel_rule where
  "zero_rule =
     \<lparr>cr_Pattern = '''', cr_DefaultPermissions = 0, cr_RequireAuth = False,
      cr_AllowAnonymous = False, cr_MaxSubscribers = 0, cr_MaxPublishRate = 0,
      cr_JoinLeave = False, cr_Presence = False, cr_HistorySize = 0, cr_HistoryTTL = 0\<rparr>"

record permission_checker =
  pc_rules :: "channel_rule list"
  pc_defaultRule :: channel_rule
  pc_userPermissions :: "string \<rightharpoonup> string \<rightharpoonup> permission"
  pc_rolePermissions :: "string \<rightharpoonup> permission"
  pc_userRoles :: "string \<rightharpoonup> string list"
  pc_requireAuth :: bool

definition NewPermissionChecker :: permission_checker where
  "NewPermissionChecker =
     \<lparr>pc_rules = [],
      pc_defaultRule = zero_rule\<lparr>cr_DefaultPermissions := PermStandard, cr_Presence := True\<rparr>,
      pc_userPermissions = Map.empty, pc_rolePermissions = Map.empty, pc_userRoles = Map.empty,
      pc_requireAuth = False\<rparr>"

definition AddRule :: "permission_checker \<Rightarrow> channel_rule \<Rightarrow> permission_checker" where
  "AddRule c rule = c\<lparr>pc_rules := pc_rules c @ [rule]\<rparr>"

definition SetDefaultRule :: "permission_checker \<Rightarrow> channel_rule \<Rightarrow> permission_checker" where
  "SetDefaultRule c rule = c\<lparr>pc_defaultRule := rule\<rparr>"

definition SetRequireAuth :: "permission_checker \<Rightarrow> bool \<Rightarrow> permission_checker" where
  "SetRequireAuth c require = c\<lparr>pc_requireAuth := require\<rparr>"

definition SetUserPermission ::
    "permission_checker \<Rightarrow> string \<Rightarrow> string \<Rightarrow> permission \<Rightarrow> permission_checker" where
  "SetUserPermission c userID channel perm =
     (let m = (case pc_userPermissions c userID of None \<Rightarrow> Map.empty | Some m \<Rightarrow> m)
      in c\<lparr>pc_userPermissions := (pc_userPermissions c)(userID \<mapsto> m(channel \<mapsto> perm))\<rparr>)"

definition RemoveUserPermission ::
    "permission_checker \<Rightarrow> string \<Rightarrow> string \<Rightarrow> permission_checker" where
  "RemoveUserPermission c userID channel =
     (case pc_userPermissions c userID of
        None \<Rightarrow> c
      | Some m \<Rightarrow>
          c\<lparr>pc_userPermissions := (pc_userPermissions c)(userID \<mapsto> m(channel := None))\<rparr>)"

definition SetRolePermission ::
    "permission_checker \<Rightarrow> string \<Rightarrow> permission \<Rightarrow> permission_checker" where
  "SetRolePermission c role perm =
     c\<lparr>pc_rolePermissions := (pc_rolePermissions c)(role \<mapsto> perm)\<rparr>"

definition roles_of :: "permission_checker \<Rightarrow> string \<Rightarrow> string list" where
  "roles_of c userID = (case pc_userRoles c userID of None \<Rightarrow> [] | Some rs \<Rightarrow> rs)"

definition AssignRole :: "permission_checker \<Rightarrow> string \<Rightarrow> string \<Rightarrow> permission_checker" where
  "AssignRole c userID role =
     c\<lparr>pc_userRoles := (pc_userRoles c)(userID \<mapsto> roles_of c userID @ [role])\<rparr>"

fun remove_role_loop :: "string \<Rightarrow> string list \<Rightarrow> string list \<Rightarrow> string list" where
  "remove_role_loop role [] newRoles = newRoles"
| "remove_role_loop role (r # roles) newRoles =
     remove_role_loop role roles (if r \<noteq> role then newRoles @ [r] else newRoles)"

definition RemoveRole :: "permission_checker \<Rightarrow> string \<Rightarrow> string \<Rightarrow> permission_checker" where
  "RemoveRole c userID role =
     c\<lparr>pc_userRoles := (pc_userRoles c)(userID \<mapsto> remove_role_loop role (roles_of c userID) [])\<rparr>"

fun find_rule_loop :: "channel_rule list \<Rightarrow> channel_rule \<Rightarrow> string \<Rightarrow> channel_rule" where
  "find_rule_loop [] d channel = d"
| "find_rule_loop (rule # rules) d channel =
     (if matchPattern (cr_Pattern rule) channel then rule else find_rule_loop rules d channel)"

definition findRule :: "permission_checker \<Rightarrow> string \<Rightarrow> channel_rule" where
  "findRule c channel = find_rule_loop (pc_rules c) (pc_defaultRule c) channel"

definition GetChannelRule :: "permission_checker \<Rightarrow> string \<Rightarrow> channel_rule" where
  "GetChannelRule c channel = findRule c channel"

text \<open>The loop both checks share: add the permissions of every role of the user.\<close>

fun apply_roles :: "(string \<rightharpoonup> permission) \<Rightarrow> string list \<Rightarrow> permission \<Rightarrow> permission" where
  "apply_roles rp [] perm = perm"
| "apply_roles rp (role # roles) perm =
     apply_roles rp roles (case rp role of None \<Rightarrow> perm | Some q \<Rightarrow> perm_Add perm q)"

text \<open>The override both checks share: a per-user, per-channel permission replaces the rest.\<close>

definition apply_user :: "permission_checker \<Rightarrow> string \<Rightarrow> string \<Rightarrow> permission \<Rightarrow> permission" where
  "apply_user c userID channel perm =
     (case pc_userPermissions c userID of
        None \<Rightarrow> perm
      | Some m \<Rightarrow> (case m channel of None \<Rightarrow> perm | Some q \<Rightarrow> q))"

definition CheckConnect ::
    "permission_checker \<Rightarrow> string \<Rightarrow> string \<Rightarrow> bool \<times> go_error option" where
  "CheckConnect c userID token =
     (if pc_requireAuth c \<and> userID = '''' then (False, Some ErrUnauthorized) else (True, None))"

definition CheckSubscribe ::
    "permission_checker \<Rightarrow> string \<Rightarrow> string \<Rightarrow> string \<Rightarrow> permission \<times> go_error option" where
  "CheckSubscribe c userID channel token =
     (let rule = findRule c channel
      in if cr_RequireAuth rule \<and> userID = '''' \<and> \<not> cr_AllowAnonymous rule
         then (PermNone, Some ErrUnauthorized)
         else
           (let perm = apply_user c userID channel
                  (apply_roles (pc_rolePermissions c) (roles_of c userID) (cr_DefaultPermissions rule))
            in if \<not> perm_Has perm PermSubscribe then (PermNone, Some ErrPermissionDenied)
               else (perm, None)))"

definition GetUserPermissions :: "permission_checker \<Rightarrow> string \<Rightarrow> string \<Rightarrow> permission" where
  "GetUserPermissions c userID channel =
     (let rule = findRule c channel
      in apply_user c userID channel
           (apply_roles (pc_rolePermissions c) (roles_of c userID) (cr_DefaultPermissions rule)))"

definition CheckPublish ::
    "permission_checker \<Rightarrow> string \<Rightarrow> string \<Rightarrow> bool \<times> go_error option" where
  "CheckPublish c userID channel =
     (if \<not> perm_Has (GetUserPermissions c userID channel) PermPublish
      then (False, Some ErrPermissionDenied) else (True, None))"

section \<open>What the checks compute\<close>

lemma remove_role_filter: "remove_role_loop role rs acc = acc @ filter (\<lambda>r. r \<noteq> role) rs"
  by (induction role rs acc rule: remove_role_loop.induct) simp_all

lemma roles_of_RemoveRole [simp]:
  "roles_of (RemoveRole c u role) v =
     (if v = u then filter (\<lambda>r. r \<noteq> role) (roles_of c v) else roles_of c v)"
  by (simp add: RemoveRole_def roles_of_def remove_role_filter)

lemma roles_of_AssignRole [simp]:
  "roles_of (AssignRole c u role) v =
     (if v = u then roles_of c v @ [role] else roles_of c v)"
  by (simp add: AssignRole_def roles_of_def)

lemma apply_roles_bit:
  "bit (apply_roles rp roles perm) n \<longleftrightarrow>
     bit perm n \<or> (\<exists>role \<in> set roles. \<exists>q. rp role = Some q \<and> bit q n)"
  by (induction rp roles perm rule: apply_roles.induct) (auto split: option.splits)

lemma find_rule_first:
  "find_rule_loop rules d ch =
     (case filter (\<lambda>r. matchPattern (cr_Pattern r) ch) rules of [] \<Rightarrow> d | r # _ \<Rightarrow> r)"
  by (induction rules) auto

text \<open>The user-level override, when there is one.\<close>

definition user_override :: "permission_checker \<Rightarrow> string \<Rightarrow> string \<Rightarrow> permission option" where
  "user_override c u ch = (case pc_userPermissions c u of None \<Rightarrow> None | Some m \<Rightarrow> m ch)"

lemma apply_user_override:
  "apply_user c u ch perm = (case user_override c u ch of None \<Rightarrow> perm | Some q \<Rightarrow> q)"
  by (simp add: apply_user_def user_override_def split: option.splits)

lemma user_override_updates [simp]:
  "user_override (SetUserPermission c u ch p) v k =
     (if v = u \<and> k = ch then Some p else user_override c v k)"
  "user_override (RemoveUserPermission c u ch) v k =
     (if v = u \<and> k = ch then None else user_override c v k)"
  by (auto simp: user_override_def SetUserPermission_def RemoveUserPermission_def Let_def
      split: option.splits)

lemma subscribe_perm:
  "CheckSubscribe c u ch token = (perm, None) \<Longrightarrow>
     perm = GetUserPermissions c u ch \<and> perm_Has perm PermSubscribe"
  by (auto simp: CheckSubscribe_def GetUserPermissions_def Let_def split: if_splits)

section \<open>Properties\<close>

lemma GetUserPermissions_bit:
  "user_override c u ch = None \<Longrightarrow>
   bit (GetUserPermissions c u ch) n \<longleftrightarrow>
     bit (cr_DefaultPermissions (findRule c ch)) n \<or>
     (\<exists>role q. role \<in> set (roles_of c u) \<and> pc_rolePermissions c role = Some q \<and> bit q n)"
  by (auto simp: GetUserPermissions_def Let_def apply_user_override apply_roles_bit)

text \<open>C18: The permissions of a user on a channel, bit by bit: a per-user entry for that exact channel
  decides alone; otherwise a bit is granted when the first rule whose pattern matches the channel
  (the default rule if none does) grants it or some role of the user grants it.\<close>

theorem effective_permissions:
  "bit (GetUserPermissions c u ch) n \<longleftrightarrow>
     (case user_override c u ch of
        Some q \<Rightarrow> bit q n
      | None \<Rightarrow>
          bit (cr_DefaultPermissions
                 (case filter (\<lambda>r. matchPattern (cr_Pattern r) ch) (pc_rules c) of
                    [] \<Rightarrow> pc_defaultRule c | r # _ \<Rightarrow> r)) n \<or>
          (\<exists>role q. role \<in> set (roles_of c u) \<and> pc_rolePermissions c role = Some q \<and> bit q n))"
  by (auto simp: GetUserPermissions_def Let_def apply_user_override apply_roles_bit findRule_def
      find_rule_first split: option.splits)


text \<open>\<open>CheckPublish\<close> looks at the permission bits only: there are a rule that requires
  authentication and forbids anonymous access, and a checker using it, for which the anonymous
  (empty) user is refused to subscribe as unauthorized and yet allowed to publish.\<close>

theorem publish_ignores_require_auth:
  "let rule = zero_rule\<lparr>cr_Pattern := ''chat:*'', cr_DefaultPermissions := PermStandard,
                cr_RequireAuth := True\<rparr>;
       c = AddRule NewPermissionChecker rule
   in CheckSubscribe c '''' ''chat:1'' '''' = (PermNone, Some ErrUnauthorized) \<and>
      CheckPublish c '''' ''chat:1'' = (True, None)"
proof -
  let ?rule = "zero_rule\<lparr>cr_Pattern := ''chat:*'', cr_DefaultPermissions := PermStandard,
                cr_RequireAuth := True\<rparr>"
  let ?c = "AddRule NewPermissionChecker ?rule"
  have rule: "findRule ?c ''chat:1'' = ?rule"
    by (simp add: findRule_def AddRule_def NewPermissionChecker_def matchPattern_def star_def)
  then have perms: "GetUserPermissions ?c '''' ''chat:1'' = PermStandard"
    by (simp add: GetUserPermissions_def apply_user_def AddRule_def NewPermissionChecker_def
        roles_of_def)
  have "CheckSubscribe ?c '''' ''chat:1'' '''' = (PermNone, Some ErrUnauthorized)"
    by (simp only: CheckSubscribe_def Let_def rule) (simp add: zero_rule_def)
  moreover have "CheckPublish ?c '''' ''chat:1'' = (True, None)"
    unfolding CheckPublish_def perms by (simp add: perm_defs perm_Has_def)
  ultimately show ?thesis by (simp add: Let_def)
qed

text \<open>Rules are first match wins: a rule added later never changes the permissions of any user
  on a channel an earlier rule already matches.\<close>

theorem later_rule_is_shadowed:
  assumes "\<exists>r \<in> set (pc_rules c). matchPattern (cr_Pattern r) ch"
  shows "GetUserPermissions (AddRule c rule) u ch = GetUserPermissions c u ch"
proof -
  have "filter (\<lambda>r. matchPattern (cr_Pattern r) ch) (pc_rules c) \<noteq> []"
    using assms by (simp add: filter_empty_conv)
  then have "findRule (AddRule c rule) ch = findRule c ch"
    by (auto simp: findRule_def AddRule_def find_rule_first split: list.split)
  then show ?thesis
    by (simp add: GetUserPermissions_def apply_user_def AddRule_def roles_of_def)
qed

theorem later_rule_is_shadowed_witness:
  "let c = AddRule NewPermissionChecker (zero_rule\<lparr>cr_Pattern := ''a:*''\<rparr>)
   in GetUserPermissions (AddRule c (zero_rule\<lparr>cr_Pattern := ''a:b'', cr_DefaultPermissions := PermAll\<rparr>))
        ''u'' ''a:b'' = GetUserPermissions c ''u'' ''a:b''"
proof -
  let ?c = "AddRule NewPermissionChecker (zero_rule\<lparr>cr_Pattern := ''a:*''\<rparr>)"
  have "\<exists>r \<in> set (pc_rules ?c). matchPattern (cr_Pattern r) ''a:b''"
    by (simp add: AddRule_def NewPermissionChecker_def matchPattern_def star_def)
  from later_rule_is_shadowed [OF this] show ?thesis by (simp add: Let_def)
qed

text \<open>Revoking a role takes effect everywhere and only for that user: afterwards the user does not
  hold the role (however often it was assigned), a bit survives exactly when the override, the rule
  or a remaining role grants it, and other users' permissions are unchanged.\<close>

theorem remove_role_revokes:
  "role \<notin> set (roles_of (RemoveRole c u role) u) \<and>
   (user_override c u ch = None \<longrightarrow>
     bit (GetUserPermissions (RemoveRole c u role) u ch) n =
       (bit (cr_DefaultPermissions (findRule c ch)) n \<or>
        (\<exists>r q. r \<in> set (roles_of c u) \<and> r \<noteq> role \<and> pc_rolePermissions c r = Some q \<and> bit q n))) \<and>
   (v \<noteq> u \<longrightarrow> GetUserPermissions (RemoveRole c u role) v ch = GetUserPermissions c v ch)"
proof -
  have frame: "findRule (RemoveRole c u role) = findRule c"
      "pc_rolePermissions (RemoveRole c u role) = pc_rolePermissions c"
      "user_override (RemoveRole c u role) = user_override c"
    by (auto simp: findRule_def RemoveRole_def user_override_def fun_eq_iff)
  then show ?thesis
    by (auto simp: GetUserPermissions_def Let_def apply_user_override apply_roles_bit)
qed

theorem remove_role_revokes_witness:
  "let c = AssignRole (SetRolePermission (SetDefaultRule NewPermissionChecker zero_rule)
             ''admin'' PermAll) ''bob'' ''admin''
   in bit (GetUserPermissions c ''bob'' ''x'') 2 \<and>
      \<not> bit (GetUserPermissions (RemoveRole c ''bob'' ''admin'') ''bob'' ''x'') 2"
proof -
  let ?c = "AssignRole (SetRolePermission (SetDefaultRule NewPermissionChecker zero_rule)
             ''admin'' PermAll) ''bob'' ''admin''"
  have "user_override ?c ''bob'' ''x'' = None" "findRule ?c ''x'' = zero_rule"
      "set (roles_of ?c ''bob'') = {''admin''}" "pc_rolePermissions ?c ''admin'' = Some PermAll"
    by (simp_all add: user_override_def AssignRole_def SetRolePermission_def SetDefaultRule_def
        NewPermissionChecker_def findRule_def roles_of_def)
  moreover have "bit PermAll 2" "\<not> bit (cr_DefaultPermissions zero_rule) 2"
    by (simp_all add: perm_defs zero_rule_def bit_or_iff)
  ultimately show ?thesis
    using remove_role_revokes [of "''admin''" ?c "''bob''" "''x''" 2 "''bob''"]
    by (auto simp: Let_def GetUserPermissions_bit)
qed

end
