(* ===== verification/Namespaces.thy ===== *)
theory Namespaces
  imports Types "HOL-Library.Sublist"
begin

text \<open>
  Channel namespaces: \<open>engine/namespace.go\<close>.  The registry is a Go map from names to namespaces;
  a loop over it runs in an unspecified order, so \<open>GetByChannel\<close> and \<open>List\<close> take the order in
  which the runtime enumerates the keys as an argument, and what holds for every enumeration holds
  for every run.  Namespaces are values: the pointers the Go map shares with its callers are not
  modelled.
\<close>

section \<open>State\<close>

record namespace_options =
  no_HistorySize :: int
  no_HistoryTTL :: duration
  no_HistoryRecover :: bool
  no_Presence :: bool
  no_JoinLeave :: bool
  no_ForcePushJoinLeave :: bool
  no_PresenceDisableForClient :: bool
  no_Publish :: bool
  no_SubscribeToPublish :: bool
  no_Anonymous :: bool
  no_Protected :: bool
  no_ForcePositioning :: bool
  no_ForceRecovery :: bool
  no_MaxSubscribers :: int
  no_MaxChannelLength :: int
  no_SingleConnection :: bool
  no_ProxySubscribe :: bool
  no_ProxyPublish :: bool

definition zero_options :: namespace_options where
  "zero_options =
     \<lparr>no_HistorySize = 0, no_HistoryTTL = 0, no_HistoryRecover = False, no_Presence = False,
      no_JoinLeave = False, no_ForcePushJoinLeave = False, no_PresenceDisableForClient = False,
      no_Publish = False, no_SubscribeToPublish = False, no_Anonymous = False,
      no_Protected = False, no_ForcePositioning = False, no_ForceRecovery = False,
      no_MaxSubscribers = 0, no_MaxChannelLength = 0, no_SingleConnection = False,
      no_ProxySubscribe = False, no_ProxyPublish = False\<rparr>"

record namespace =
  ns_Name :: string
  ns_ChannelPrefix :: string
  ns_Options :: namespace_options

definition DefaultNamespaceOptions :: namespace_options where
  "DefaultNamespaceOptions = zero_options
     \<lparr>no_HistorySize := 100, no_HistoryTTL := 24 * hour, no_HistoryRecover := True,
      no_Presence := True, no_JoinLeave := False, no_Publish := True, no_Anonymous := False,
      no_Protected := False, no_MaxChannelLength := 255\<rparr>"

record namespace_manager =
  nm_namespaces :: "string \<rightharpoonup> namespace"
  nm_defaultNS :: namespace

definition NewNamespaceManager :: namespace_manager where
  "NewNamespaceManager =
     \<lparr>nm_namespaces = Map.empty,
      nm_defaultNS = \<lparr>ns_Name = ''default'', ns_ChannelPrefix = '''',
                      ns_Options = DefaultNamespaceOptions\<rparr>\<rparr>"

section \<open>Registry operations\<close>

definition ns_Register :: "namespace_manager \<Rightarrow> namespace \<Rightarrow> namespace_manager" where
  "ns_Register m ns = m\<lparr>nm_namespaces := (nm_namespaces m)(ns_Name ns \<mapsto> ns)\<rparr>"

definition ns_Get :: "namespace_manager \<Rightarrow> string \<Rightarrow> namespace option" where
  "ns_Get m name = nm_namespaces m name"

definition ns_Remove :: "namespace_manager \<Rightarrow> string \<Rightarrow> namespace_manager" where
  "ns_Remove m name = m\<lparr>nm_namespaces := (nm_namespaces m)(name := None)\<rparr>"

definition ns_SetDefault :: "namespace_manager \<Rightarrow> namespace \<Rightarrow> namespace_manager" where
  "ns_SetDefault m ns = m\<lparr>nm_defaultNS := ns\<rparr>"

definition ns_Default :: "namespace_manager \<Rightarrow> namespace" where
  "ns_Default m = nm_defaultNS m"

text \<open>The condition of the loop body: a non-empty prefix, strictly shorter than the channel.\<close>

definition prefix_hit :: "namespace \<Rightarrow> string \<Rightarrow> bool" where
  "prefix_hit ns channel \<longleftrightarrow>
     ns_ChannelPrefix ns \<noteq> '''' \<and> length channel > length (ns_ChannelPrefix ns) \<and>
     take (length (ns_ChannelPrefix ns)) channel = ns_ChannelPrefix ns"

fun get_by_channel_loop :: "namespace_manager \<Rightarrow> string \<Rightarrow> string list \<Rightarrow> namespace" where
  "get_by_channel_loop m channel [] = nm_defaultNS m"
| "get_by_channel_loop m channel (name # ord) =
     (case nm_namespaces m name of
        Some ns \<Rightarrow> (if prefix_hit ns channel then ns else get_by_channel_loop m channel ord)
      | None \<Rightarrow> get_by_channel_loop m channel ord)"

definition GetByChannel :: "string list \<Rightarrow> namespace_manager \<Rightarrow> string \<Rightarrow> namespace" where
  "GetByChannel ord m channel = get_by_channel_loop m channel ord"

definition ns_List :: "string list \<Rightarrow> namespace_manager \<Rightarrow> namespace list" where
  "ns_List ord m = nm_defaultNS m # List.map_filter (nm_namespaces m) ord"

text \<open>An enumeration of the keys of a map, as \<open>range\<close> produces one.\<close>

definition enumerates :: "string list \<Rightarrow> (string \<rightharpoonup> 'v) \<Rightarrow> bool" where
  "enumerates ord m \<longleftrightarrow> distinct ord \<and> set ord = dom m"

section \<open>Channel names\<close>

definition ChannelName :: "namespace \<Rightarrow> string \<Rightarrow> string" where
  "ChannelName ns channel =
     (if ns_ChannelPrefix ns = '''' then channel else ns_ChannelPrefix ns @ channel)"

definition StripPrefix :: "namespace \<Rightarrow> string \<Rightarrow> string" where
  "StripPrefix ns channel =
     (if ns_ChannelPrefix ns = '''' then channel
      else if length channel > length (ns_ChannelPrefix ns) \<and>
              take (length (ns_ChannelPrefix ns)) channel = ns_ChannelPrefix ns
      then drop (length (ns_ChannelPrefix ns)) channel
      else channel)"

definition ValidateChannel :: "namespace \<Rightarrow> string \<Rightarrow> go_error option" where
  "ValidateChannel ns channel =
     (if length channel = 0 then Some ErrBadRequest
      else if no_MaxChannelLength (ns_Options ns) > 0 \<and>
              int (length channel) > no_MaxChannelLength (ns_Options ns)
      then Some ErrBadRequest
      else None)"

section \<open>Presets\<close>

definition ChatNamespace :: "string \<Rightarrow> namespace" where
  "ChatNamespace pre =
     \<lparr>ns_Name = ''chat'', ns_ChannelPrefix = pre, ns_Options = zero_options
       \<lparr>no_HistorySize := 1000, no_HistoryTTL := 7 * 24 * hour, no_HistoryRecover := True,
        no_Presence := True, no_JoinLeave := True, no_Publish := True, no_Anonymous := False,
        no_Protected := False\<rparr>\<rparr>"

definition NotificationNamespace :: "string \<Rightarrow> namespace" where
  "NotificationNamespace pre =
     \<lparr>ns_Name = ''notifications'', ns_ChannelPrefix = pre, ns_Options = zero_options
       \<lparr>no_HistorySize := 100, no_HistoryTTL := 24 * hour, no_HistoryRecover := True,
        no_Presence := False, no_JoinLeave := False, no_Publish := False, no_Anonymous := False,
        no_ForceRecovery := True, no_SingleConnection := True\<rparr>\<rparr>"

definition PresenceNamespace :: "string \<Rightarrow> namespace" where
  "PresenceNamespace pre =
     \<lparr>ns_Name = ''presence'', ns_ChannelPrefix = pre, ns_Options = zero_options
       \<lparr>no_HistorySize := 0, no_HistoryRecover := False, no_Presence := True,
        no_JoinLeave := True, no_ForcePushJoinLeave := True, no_Publish := False,
        no_Anonymous := False, no_ForcePositioning := False\<rparr>\<rparr>"

definition PublicNamespace :: "string \<Rightarrow> namespace" where
  "PublicNamespace pre =
     \<lparr>ns_Name = ''public'', ns_ChannelPrefix = pre, ns_Options = zero_options
       \<lparr>no_HistorySize := 100, no_HistoryTTL := hour, no_HistoryRecover := False,
        no_Presence := False, no_JoinLeave := False, no_Publish := False, no_Anonymous := True\<rparr>\<rparr>"

definition PersonalNamespace :: "string \<Rightarrow> namespace" where
  "PersonalNamespace pre =
     \<lparr>ns_Name = ''personal'', ns_ChannelPrefix = pre, ns_Options = zero_options
       \<lparr>no_HistorySize := 500, no_HistoryTTL := 30 * 24 * hour, no_HistoryRecover := True,
        no_Presence := False, no_JoinLeave := False, no_Publish := False, no_Protected := True,
        no_ForceRecovery := True, no_SingleConnection := True\<rparr>\<rparr>"

section \<open>Lookup\<close>

lemma prefix_hit_strict: "prefix_hit ns ch \<longleftrightarrow>
    ns_ChannelPrefix ns \<noteq> [] \<and> strict_prefix (ns_ChannelPrefix ns) ch"
  unfolding prefix_hit_def strict_prefix_def prefix_def
  by (auto simp: append_eq_conv_conj) (metis append_take_drop_id)

lemma get_by_channel_cases:
  "(get_by_channel_loop m ch ord = nm_defaultNS m \<and>
      (\<forall>name \<in> set ord. \<forall>ns. nm_namespaces m name = Some ns \<longrightarrow> \<not> prefix_hit ns ch)) \<or>
   (\<exists>name \<in> set ord. nm_namespaces m name = Some (get_by_channel_loop m ch ord) \<and>
      prefix_hit (get_by_channel_loop m ch ord) ch)"
  by (induction m ch ord rule: get_by_channel_loop.induct) (auto split: option.splits)

text \<open>Registered namespaces whose prefixes cannot claim the same channel.\<close>

definition disjoint_prefixes :: "namespace_manager \<Rightarrow> bool" where
  "disjoint_prefixes m \<longleftrightarrow>
     (\<forall>a b x y. nm_namespaces m a = Some x \<and> nm_namespaces m b = Some y \<and> a \<noteq> b \<and>
        ns_ChannelPrefix x \<noteq> [] \<and> ns_ChannelPrefix y \<noteq> [] \<longrightarrow>
        \<not> prefix (ns_ChannelPrefix x) (ns_ChannelPrefix y))"

lemma prefix_hit_unique:
  assumes "disjoint_prefixes m" and "nm_namespaces m a = Some x" and "nm_namespaces m b = Some y"
    and "prefix_hit x ch" and "prefix_hit y ch"
  shows "x = y"
proof -
  have "prefix (ns_ChannelPrefix x) ch" "prefix (ns_ChannelPrefix y) ch"
      "ns_ChannelPrefix x \<noteq> []" "ns_ChannelPrefix y \<noteq> []"
    using assms(4,5) by (auto simp: prefix_hit_strict strict_prefix_def)
  then show ?thesis
    using assms(1-3) prefix_same_cases unfolding disjoint_prefixes_def
    by (metis option.inject)
qed

section \<open>Properties\<close>

text \<open>With prefixes none of which extends another, \<open>GetByChannel\<close> does not depend on the map's
  iteration order: every enumeration of the registry finds the same namespace, namely the one whose
  prefix the channel strictly extends, or the default when there is none.\<close>

theorem get_by_channel_deterministic:
  assumes "disjoint_prefixes m" and "enumerates ord (nm_namespaces m)"
  shows "(\<forall>ns name. nm_namespaces m name = Some ns \<longrightarrow> prefix_hit ns ch \<longrightarrow>
            GetByChannel ord m ch = ns) \<and>
         ((\<forall>ns name. nm_namespaces m name = Some ns \<longrightarrow> \<not> prefix_hit ns ch) \<longrightarrow>
            GetByChannel ord m ch = ns_Default m)"
  using get_by_channel_cases [of m ch ord] prefix_hit_unique [OF assms(1)] assms(2)
  unfolding GetByChannel_def ns_Default_def enumerates_def by (metis domI)

theorem get_by_channel_deterministic_witness:
  "GetByChannel [''public'', ''chat'']
     (ns_Register (ns_Register NewNamespaceManager (ChatNamespace ''chat:'')) (PublicNamespace ''public:''))
     ''chat:general'' = ChatNamespace ''chat:''"
proof -
  let ?m = "ns_Register (ns_Register NewNamespaceManager (ChatNamespace ''chat:''))
      (PublicNamespace ''public:'')"
  have ns: "nm_namespaces ?m = [''chat'' \<mapsto> ChatNamespace ''chat:'', ''public'' \<mapsto> PublicNamespace ''public:'']"
    by (simp add: ns_Register_def NewNamespaceManager_def ChatNamespace_def PublicNamespace_def)
  have dis: "disjoint_prefixes ?m"
    unfolding disjoint_prefixes_def ns
    by (auto simp: ChatNamespace_def PublicNamespace_def split: if_splits)
  have enum: "enumerates [''public'', ''chat''] (nm_namespaces ?m)"
    by (auto simp: enumerates_def ns)
  have "prefix_hit (ChatNamespace ''chat:'') ''chat:general''"
    by (simp add: prefix_hit_def ChatNamespace_def)
  moreover have "nm_namespaces ?m ''chat'' = Some (ChatNamespace ''chat:'')"
    by (simp add: ns)
  ultimately show ?thesis
    using get_by_channel_deterministic [OF dis enum, of "''chat:general''"] by blast
qed

text \<open>With overlapping prefixes the namespace of a channel is not determined: two enumerations
  of the same registry give different namespaces, one of which forbids publishing.\<close>

theorem get_by_channel_order_dependent:
  "let m = ns_Register (ns_Register NewNamespaceManager (ChatNamespace ''c:'')) (PublicNamespace ''c:pub:'')
   in enumerates [''chat'', ''public''] (nm_namespaces m) \<and>
      enumerates [''public'', ''chat''] (nm_namespaces m) \<and>
      no_Publish (ns_Options (GetByChannel [''chat'', ''public''] m ''c:pub:1'')) \<and>
      \<not> no_Publish (ns_Options (GetByChannel [''public'', ''chat''] m ''c:pub:1''))"
  by (simp add: Let_def ns_Register_def NewNamespaceManager_def ChatNamespace_def PublicNamespace_def
      enumerates_def GetByChannel_def prefix_hit_def insert_commute zero_options_def)

text \<open>Stripping the prefix undoes adding it for every non-empty channel (for every channel when
  the prefix is empty), and the lookup of a prefixed channel hits its own namespace; the empty channel
  under a non-empty prefix keeps the prefix and falls through to no namespace.\<close>

theorem channel_name_roundtrip:
  "(StripPrefix ns (ChannelName ns ch) \<noteq> ch \<longleftrightarrow> ch = [] \<and> ns_ChannelPrefix ns \<noteq> []) \<and>
   (prefix_hit ns (ChannelName ns ch) \<longleftrightarrow> ns_ChannelPrefix ns \<noteq> [] \<and> ch \<noteq> [])"
  by (auto simp: StripPrefix_def ChannelName_def prefix_hit_def)

lemma validate_channel_cases:
  "ValidateChannel ns ch =
     (if ch \<noteq> [] \<and> (no_MaxChannelLength (ns_Options ns) \<le> 0 \<or>
            int (length ch) \<le> no_MaxChannelLength (ns_Options ns))
      then None else Some ErrBadRequest)"
  by (auto simp: ValidateChannel_def)

end
