(* ===== verification/Dedupe.thy ===== *)
theory Dedupe
  imports Types
begin

text \<open>
  The deduplication cache of \<open>engine/broker.go\<close>.  The \<open>container/list\<close> is a list of elements,
  each a handle (the element's identity, as \<open>elements\<close> stores it) with the ID it carries;
  \<open>dd_next\<close> is the next unused handle.  \<open>IsDuplicate\<close> reads the clock twice (once to test the
  age, once for the stored time), so it takes both readings.  The eviction loop of the code spins
  for ever on an empty list under a negative size; it is a \<open>partial_function\<close> and shown to end.
  The abstraction \<open>dd_abs\<close> is the list of (ID, time seen) pairs, oldest insertion first.
\<close>

section \<open>State and operations\<close>

record dedupe_cache =
  dd_cache :: "string \<rightharpoonup> gotime"
  dd_order :: "(nat \<times> string) list"
  dd_elements :: "string \<rightharpoonup> nat"
  dd_maxSize :: int
  dd_ttl :: duration
  dd_next :: nat

definition NewDedupeCache :: "int \<Rightarrow> duration \<Rightarrow> dedupe_cache" where
  "NewDedupeCache maxSize ttl =
     \<lparr>dd_cache = Map.empty, dd_order = [], dd_elements = Map.empty,
      dd_maxSize = (if maxSize \<le> 0 then 10000 else maxSize),
      dd_ttl = (if ttl \<le> 0 then 5 * 60 * second else ttl),
      dd_next = 0\<rparr>"

definition list_Remove :: "nat \<Rightarrow> (nat \<times> string) list \<Rightarrow> (nat \<times> string) list" where
  "list_Remove h order = filter (\<lambda>e. fst e \<noteq> h) order"

definition drop_expired :: "dedupe_cache \<Rightarrow> string \<Rightarrow> dedupe_cache" where
  "drop_expired d i =
     (case dd_elements d i of
        None \<Rightarrow> d
      | Some h \<Rightarrow> d\<lparr>dd_order := list_Remove h (dd_order d),
                    dd_elements := (dd_elements d)(i := None)\<rparr>)"

partial_function (option) evict_loop :: "dedupe_cache \<Rightarrow> dedupe_cache option" where
  "evict_loop d =
     (if int (length (dd_order d)) > dd_maxSize d then
        (case dd_order d of
           [] \<Rightarrow> evict_loop d
         | e # rest \<Rightarrow>
             evict_loop (d\<lparr>dd_order := rest,
                           dd_elements := (dd_elements d)(snd e := None),
                           dd_cache := (dd_cache d)(snd e := None)\<rparr>))
      else Some d)"

definition insert_seen :: "dedupe_cache \<Rightarrow> string \<Rightarrow> gotime \<Rightarrow> dedupe_cache" where
  "insert_seen d i now =
     d\<lparr>dd_cache := (dd_cache d)(i \<mapsto> now),
       dd_order := dd_order d @ [(dd_next d, i)],
       dd_elements := (dd_elements d)(i \<mapsto> dd_next d),
       dd_next := Suc (dd_next d)\<rparr>"

definition IsDuplicate ::
    "dedupe_cache \<Rightarrow> string \<Rightarrow> gotime \<Rightarrow> gotime \<Rightarrow> (bool \<times> dedupe_cache) option" where
  "IsDuplicate d i now1 now2 =
     (case dd_cache d i of
        Some ts \<Rightarrow>
          (if time_Sub now1 ts < dd_ttl d then Some (True, d)
           else map_option (Pair False) (evict_loop (insert_seen (drop_expired d i) i now2)))
      | None \<Rightarrow> map_option (Pair False) (evict_loop (insert_seen d i now2)))"

text \<open>The loop of \<open>Cleanup\<close> over the map, in the order \<open>ord\<close> the runtime chooses.\<close>

fun cleanup_loop :: "gotime \<Rightarrow> string list \<Rightarrow> dedupe_cache \<Rightarrow> dedupe_cache" where
  "cleanup_loop now [] d = d"
| "cleanup_loop now (i # ord) d =
     (case dd_cache d i of
        None \<Rightarrow> cleanup_loop now ord d
      | Some ts \<Rightarrow>
          (if time_Sub now ts > dd_ttl d
           then (let d' = drop_expired d i
                 in cleanup_loop now ord (d'\<lparr>dd_cache := (dd_cache d')(i := None)\<rparr>))
           else cleanup_loop now ord d))"

definition Cleanup :: "string list \<Rightarrow> gotime \<Rightarrow> dedupe_cache \<Rightarrow> dedupe_cache" where
  "Cleanup ord now d = cleanup_loop now ord d"

section \<open>Invariant and abstraction\<close>

text \<open>The three tables agree; without the size bound, because an insertion may exceed it by one.\<close>

definition dd_wf :: "dedupe_cache \<Rightarrow> bool" where
  "dd_wf d \<longleftrightarrow>
     0 < dd_maxSize d \<and>
     distinct (map fst (dd_order d)) \<and> distinct (map snd (dd_order d)) \<and>
     dom (dd_cache d) = snd ` set (dd_order d) \<and>
     dom (dd_elements d) = snd ` set (dd_order d) \<and>
     (\<forall>(h, i) \<in> set (dd_order d). dd_elements d i = Some h \<and> h < dd_next d)"

definition dd_inv :: "dedupe_cache \<Rightarrow> bool" where
  "dd_inv d \<longleftrightarrow> dd_wf d \<and> int (length (dd_order d)) \<le> dd_maxSize d"

definition dd_abs :: "dedupe_cache \<Rightarrow> (string \<times> gotime) list" where
  "dd_abs d = map (\<lambda>(h, i). (i, the (dd_cache d i))) (dd_order d)"

text \<open>The reference: one list, a lookup, an append, and "keep the newest".\<close>

definition seen_spec ::
    "nat \<Rightarrow> duration \<Rightarrow> string \<Rightarrow> gotime \<Rightarrow> gotime \<Rightarrow> (string \<times> gotime) list \<Rightarrow>
     bool \<times> (string \<times> gotime) list" where
  "seen_spec cap ttl i now1 now2 l =
     (case map_of l i of
        Some ts \<Rightarrow>
          (if time_Sub now1 ts < ttl then (True, l)
           else (False, lastn cap (filter (\<lambda>e. fst e \<noteq> i) l @ [(i, now2)])))
      | None \<Rightarrow> (False, lastn cap (l @ [(i, now2)])))"

definition clean_spec :: "duration \<Rightarrow> gotime \<Rightarrow> (string \<times> gotime) list \<Rightarrow> (string \<times> gotime) list" where
  "clean_spec ttl now l = filter (\<lambda>e. \<not> time_Sub now (snd e) > ttl) l"

lemma dd_inv_new: "dd_inv (NewDedupeCache m t)"
  by (simp add: dd_inv_def dd_wf_def NewDedupeCache_def)

lemma dd_abs_new [simp]: "dd_abs (NewDedupeCache m t) = []"
  by (simp add: dd_abs_def NewDedupeCache_def)

lemma length_dd_abs [simp]: "length (dd_abs d) = length (dd_order d)"
  by (simp add: dd_abs_def)

lemma fst_dd_abs: "map fst (dd_abs d) = map snd (dd_order d)"
  by (auto simp: dd_abs_def)

lemma map_of_dd_abs:
  assumes "dd_wf d"
  shows "map_of (dd_abs d) = dd_cache d"
proof -
  have "map_of (map (\<lambda>(h, i). (i, the (f i))) xs) = f |` (snd ` set xs)"
    if "snd ` set xs \<subseteq> dom f" for f :: "string \<rightharpoonup> gotime" and xs :: "(nat \<times> string) list"
    using that by (induction xs) (auto simp: restrict_map_def fun_eq_iff)
  then have "map_of (dd_abs d) = dd_cache d |` (snd ` set (dd_order d))"
    using assms by (simp add: dd_abs_def dd_wf_def)
  also have "\<dots> = dd_cache d |` dom (dd_cache d)"
    using assms by (simp add: dd_wf_def)
  also have "\<dots> = dd_cache d"
    by (rule ext) (auto simp: restrict_map_def domIff)
  finally show ?thesis .
qed

text \<open>Removing by handle removes the entry of that ID.\<close>

lemma list_Remove_id:
  assumes "dd_wf d" and "dd_elements d i = Some h"
  shows "list_Remove h (dd_order d) = filter (\<lambda>e. snd e \<noteq> i) (dd_order d)"
proof -
  have "fst e = h \<longleftrightarrow> snd e = i" if e: "e \<in> set (dd_order d)" for e
  proof
    assume h: "fst e = h"
    have "i \<in> snd ` set (dd_order d)"
      using assms by (auto simp: dd_wf_def)
    then obtain e' where e': "e' \<in> set (dd_order d)" "snd e' = i" by auto
    with assms have "fst e' = h" by (auto simp: dd_wf_def)
    with h e e' assms(1) have "e = e'"
      by (auto simp: dd_wf_def distinct_map dest: inj_onD)
    with e' show "snd e = i" by simp
  next
    assume "snd e = i"
    with e assms show "fst e = h" by (auto simp: dd_wf_def)
  qed
  then show ?thesis unfolding list_Remove_def by (intro filter_cong) auto
qed

lemma distinct_map_filter_keep: "distinct (map f xs) \<Longrightarrow> distinct (map f (filter P xs))"
  by (simp add: distinct_map_filter)

text \<open>Forgetting an ID completely: the order entry, the handle and the time.\<close>

definition forget :: "dedupe_cache \<Rightarrow> string \<Rightarrow> dedupe_cache" where
  "forget d i = d\<lparr>dd_order := filter (\<lambda>e. snd e \<noteq> i) (dd_order d),
     dd_elements := (dd_elements d)(i := None), dd_cache := (dd_cache d)(i := None)\<rparr>"

lemma dd_wf_forget [inv_intros]: "dd_wf d \<Longrightarrow> dd_wf (forget d i)"
  by (auto simp: dd_wf_def forget_def distinct_map_filter)

lemma dd_abs_forget: "dd_abs (forget d i) = filter (\<lambda>e. fst e \<noteq> i) (dd_abs d)"
  by (auto simp: dd_abs_def forget_def filter_map comp_def case_prod_unfold intro: map_cong)

lemma forget_fields [simp]:
  "dd_maxSize (forget d i) = dd_maxSize d" "dd_ttl (forget d i) = dd_ttl d"
  "dd_cache (forget d i) = (dd_cache d)(i := None)"
  by (simp_all add: forget_def)

lemma dd_inv_forget [inv_intros]:
  assumes "dd_inv d"
  shows "dd_inv (forget d i)"
proof -
  have "length (filter (\<lambda>e. snd e \<noteq> i) (dd_order d)) \<le> length (dd_order d)"
    by (rule length_filter_le)
  then have "int (length (dd_order (forget d i))) \<le> int (length (dd_order d))"
    by (simp add: forget_def)
  also have "\<dots> \<le> dd_maxSize d"
    using assms by (simp add: dd_inv_def)
  finally show ?thesis using assms by (simp add: dd_inv_def dd_wf_forget)
qed

lemma dd_abs_lookup:
  assumes "dd_wf d" and "e \<in> set (dd_abs d)"
  shows "dd_cache d (fst e) = Some (snd e)"
proof -
  have "distinct (map fst (dd_abs d))"
    using assms(1) by (simp add: fst_dd_abs dd_wf_def)
  with assms(2) have "map_of (dd_abs d) (fst e) = Some (snd e)"
    by simp
  then show ?thesis by (simp add: map_of_dd_abs [OF assms(1)])
qed

lemma drop_expired_forget:
  assumes "dd_wf d" and "dd_cache d i = Some ts"
  shows "(drop_expired d i)\<lparr>dd_cache := (dd_cache (drop_expired d i))(i := None)\<rparr> = forget d i"
    and "insert_seen (drop_expired d i) i now = insert_seen (forget d i) i now"
proof -
  have "dom (dd_elements d) = dom (dd_cache d)"
    using assms(1) by (simp add: dd_wf_def)
  with assms(2) obtain h where h: "dd_elements d i = Some h"
    by blast
  show "(drop_expired d i)\<lparr>dd_cache := (dd_cache (drop_expired d i))(i := None)\<rparr> = forget d i"
    and "insert_seen (drop_expired d i) i now = insert_seen (forget d i) i now"
    using list_Remove_id [OF assms(1) h]
    by (simp_all add: drop_expired_def h forget_def insert_seen_def)
qed

lemma dd_wf_insert [inv_intros]:
  assumes "dd_wf d" and "dd_cache d i = None"
  shows "dd_wf (insert_seen d i now)"
proof -
  have "i \<notin> snd ` set (dd_order d)"
    using assms by (auto simp: dd_wf_def)
  then have i: "\<And>h. (h, i) \<notin> set (dd_order d)" by force
  have "dd_next d \<notin> fst ` set (dd_order d)"
    using assms by (auto simp: dd_wf_def)
  with i assms show ?thesis
    by (fastforce simp: dd_wf_def insert_seen_def less_Suc_eq)
qed

lemma dd_abs_insert:
  assumes "dd_wf d" and "dd_cache d i = None"
  shows "dd_abs (insert_seen d i now) = dd_abs d @ [(i, now)]"
proof -
  have "i \<notin> snd ` set (dd_order d)"
    using assms by (auto simp: dd_wf_def)
  then have "\<And>h. (h, i) \<notin> set (dd_order d)" by force
  then show ?thesis by (auto simp: dd_abs_def insert_seen_def)
qed

lemma insert_seen_fields [simp]:
  "dd_maxSize (insert_seen d i now) = dd_maxSize d" "dd_ttl (insert_seen d i now) = dd_ttl d"
  "length (dd_order (insert_seen d i now)) = Suc (length (dd_order d))"
  by (simp_all add: insert_seen_def)

section \<open>Eviction\<close>

lemma evict_loop_fits: "int (length (dd_order d)) \<le> dd_maxSize d \<Longrightarrow> evict_loop d = Some d"
  by (simp add: evict_loop.simps)

text \<open>One entry too many is what an insertion can leave: the loop runs once.\<close>

lemma evict_loop_one:
  assumes wf: "dd_wf d" and len: "int (length (dd_order d)) = dd_maxSize d + 1"
  shows "\<exists>d'. evict_loop d = Some d' \<and> dd_inv d' \<and> dd_abs d' = tl (dd_abs d) \<and>
    dd_maxSize d' = dd_maxSize d \<and> dd_ttl d' = dd_ttl d"
proof -
  have "0 < dd_maxSize d" using wf by (simp add: dd_wf_def)
  with len obtain h i rest where order: "dd_order d = (h, i) # rest"
    by (cases "dd_order d") auto
  have i: "\<forall>e \<in> set rest. snd e \<noteq> i"
    using wf by (auto simp: dd_wf_def order)
  then have "filter (\<lambda>e. snd e \<noteq> i) (dd_order d) = rest"
    by (simp add: order filter_id_conv)
  then have forget: "forget d i = d\<lparr>dd_order := rest, dd_elements := (dd_elements d)(i := None),
      dd_cache := (dd_cache d)(i := None)\<rparr>"
    by (simp add: forget_def)
  have "evict_loop d = evict_loop (forget d i)"
    using len by (subst evict_loop.simps) (simp add: order forget)
  also have "\<dots> = Some (forget d i)"
    by (rule evict_loop_fits) (use len in \<open>simp add: forget order\<close>)
  finally have ev: "evict_loop d = Some (forget d i)" .
  have "dd_abs (forget d i) = tl (dd_abs d)"
    unfolding dd_abs_forget using i by (auto simp: dd_abs_def order filter_id_conv)
  moreover have "dd_inv (forget d i)"
    using wf len by (simp add: dd_inv_def dd_wf_forget) (simp add: forget order)
  ultimately show ?thesis using ev by simp
qed

lemma evict_after_insert:
  assumes inv: "dd_inv d" and i: "dd_cache d i = None"
  shows "\<exists>d'. evict_loop (insert_seen d i now) = Some d' \<and> dd_inv d' \<and>
    dd_abs d' = lastn (nat (dd_maxSize d)) (dd_abs d @ [(i, now)]) \<and>
    dd_maxSize d' = dd_maxSize d \<and> dd_ttl d' = dd_ttl d"
proof -
  have wf: "dd_wf (insert_seen d i now)" and abs: "dd_abs (insert_seen d i now) = dd_abs d @ [(i, now)]"
    using inv i by (simp_all add: dd_inv_def dd_wf_insert dd_abs_insert)
  have pos: "0 < dd_maxSize d" and len: "int (length (dd_order d)) \<le> dd_maxSize d"
    using inv by (simp_all add: dd_inv_def dd_wf_def)
  show ?thesis
  proof (cases "int (length (dd_order d)) < dd_maxSize d")
    case True
    then have "evict_loop (insert_seen d i now) = Some (insert_seen d i now)"
      by (simp add: evict_loop_fits)
    moreover have "lastn (nat (dd_maxSize d)) (dd_abs d @ [(i, now)]) = dd_abs d @ [(i, now)]"
      using True by (intro lastn_all) auto
    ultimately show ?thesis using True wf by (auto simp: dd_inv_def abs)
  next
    case False
    with len have full: "int (length (dd_order d)) = dd_maxSize d" by simp
    then have "nat (dd_maxSize d) = length (dd_order d)" "dd_order d \<noteq> []"
      using pos by auto
    then have "lastn (nat (dd_maxSize d)) (dd_abs d @ [(i, now)]) = tl (dd_abs d @ [(i, now)])"
      by (cases "dd_order d") (simp_all add: lastn_def drop_Suc dd_abs_def)
    with evict_loop_one [OF wf] full show ?thesis by (simp add: abs)
  qed
qed

section \<open>Refinement\<close>

lemma IsDuplicate_refines:
  assumes inv: "dd_inv d"
  shows "\<exists>d'. IsDuplicate d i now1 now2 =
      Some (fst (seen_spec (nat (dd_maxSize d)) (dd_ttl d) i now1 now2 (dd_abs d)), d') \<and>
    dd_inv d' \<and>
    dd_abs d' = snd (seen_spec (nat (dd_maxSize d)) (dd_ttl d) i now1 now2 (dd_abs d)) \<and>
    dd_maxSize d' = dd_maxSize d \<and> dd_ttl d' = dd_ttl d"
proof -
  have wf: "dd_wf d" using inv by (simp add: dd_inv_def)
  show ?thesis
  proof (cases "dd_cache d i")
    case None
    with evict_after_insert [OF inv None, of now2] show ?thesis
      by (auto simp: IsDuplicate_def seen_spec_def map_of_dd_abs [OF wf])
  next
    case (Some ts)
    show ?thesis
    proof (cases "time_Sub now1 ts < dd_ttl d")
      case True
      with Some inv show ?thesis by (simp add: IsDuplicate_def seen_spec_def map_of_dd_abs [OF wf])
    next
      case False
      have "dd_inv (forget d i)"
        using inv by (rule dd_inv_forget)
      with evict_after_insert [of "forget d i" i now2] False Some show ?thesis
        by (auto simp: IsDuplicate_def seen_spec_def map_of_dd_abs [OF wf]
            drop_expired_forget(2) [OF wf Some] dd_abs_forget)
    qed
  qed
qed

lemma cleanup_loop_refines:
  "dd_inv d \<Longrightarrow> dd_inv (cleanup_loop now ord d) \<and>
     dd_abs (cleanup_loop now ord d) =
       filter (\<lambda>e. \<not> (time_Sub now (snd e) > dd_ttl d \<and> fst e \<in> set ord)) (dd_abs d) \<and>
     dd_maxSize (cleanup_loop now ord d) = dd_maxSize d \<and> dd_ttl (cleanup_loop now ord d) = dd_ttl d"
proof (induction ord arbitrary: d)
  case Nil
  then show ?case by simp
next
  case (Cons i ord)
  have wf: "dd_wf d" using Cons.prems by (simp add: dd_inv_def)
  note mem = dd_abs_lookup [OF wf]
  show ?case
  proof (cases "\<exists>ts. dd_cache d i = Some ts \<and> time_Sub now ts > dd_ttl d")
    case True
    then obtain ts where ts: "dd_cache d i = Some ts" "time_Sub now ts > dd_ttl d" by blast
    have "dd_inv (forget d i)"
      using Cons.prems by (rule dd_inv_forget)
    from Cons.IH [OF this] have "dd_inv (cleanup_loop now (i # ord) d) \<and>
        dd_abs (cleanup_loop now (i # ord) d) =
          filter (\<lambda>e. \<not> (time_Sub now (snd e) > dd_ttl d \<and> fst e \<in> set ord))
            (filter (\<lambda>e. fst e \<noteq> i) (dd_abs d)) \<and>
        dd_maxSize (cleanup_loop now (i # ord) d) = dd_maxSize d \<and>
        dd_ttl (cleanup_loop now (i # ord) d) = dd_ttl d"
      using ts by (simp add: Let_def drop_expired_forget(1) [OF wf ts(1)] dd_abs_forget)
    moreover have "filter (\<lambda>e. \<not> (time_Sub now (snd e) > dd_ttl d \<and> fst e \<in> set ord))
        (filter (\<lambda>e. fst e \<noteq> i) (dd_abs d)) =
      filter (\<lambda>e. \<not> (time_Sub now (snd e) > dd_ttl d \<and> fst e \<in> set (i # ord))) (dd_abs d)"
      unfolding filter_filter using mem ts by (intro filter_cong) auto
    ultimately show ?thesis by simp
  next
    case False
    then have "cleanup_loop now (i # ord) d = cleanup_loop now ord d"
      by (auto split: option.splits)
    moreover have "filter (\<lambda>e. \<not> (time_Sub now (snd e) > dd_ttl d \<and> fst e \<in> set ord)) (dd_abs d) =
      filter (\<lambda>e. \<not> (time_Sub now (snd e) > dd_ttl d \<and> fst e \<in> set (i # ord))) (dd_abs d)"
      using mem False by (intro filter_cong) auto
    ultimately show ?thesis using Cons.IH [OF Cons.prems] by simp
  qed
qed

lemma Cleanup_refines:
  assumes inv: "dd_inv d" and ord: "set ord = dom (dd_cache d)"
  shows "dd_inv (Cleanup ord now d) \<and> dd_abs (Cleanup ord now d) = clean_spec (dd_ttl d) now (dd_abs d) \<and>
    dd_maxSize (Cleanup ord now d) = dd_maxSize d \<and> dd_ttl (Cleanup ord now d) = dd_ttl d"
proof -
  have "set (map fst (dd_abs d)) = set ord"
    unfolding fst_dd_abs using inv ord by (simp add: dd_inv_def dd_wf_def)
  then have "set ord = fst ` set (dd_abs d)"
    by simp
  then have "filter (\<lambda>e. \<not> (time_Sub now (snd e) > dd_ttl d \<and> fst e \<in> set ord)) (dd_abs d) =
      clean_spec (dd_ttl d) now (dd_abs d)"
    unfolding clean_spec_def by (intro filter_cong) auto
  with cleanup_loop_refines [OF inv, of now ord] show ?thesis by (simp add: Cleanup_def)
qed

section \<open>The cache as a machine\<close>

datatype dedupe_event = Seen string gotime gotime | Clean "string list" gotime

definition dd_step :: "dedupe_cache \<Rightarrow> dedupe_event \<Rightarrow> dedupe_cache" where
  "dd_step d ev =
     (case ev of
        Seen i now1 now2 \<Rightarrow> (case IsDuplicate d i now1 now2 of Some (_, d') \<Rightarrow> d' | None \<Rightarrow> d)
      | Clean ord now \<Rightarrow> Cleanup ord now d)"

lemma dd_step_Seen:
  assumes "dd_inv d"
  shows "dd_inv (dd_step d (Seen i now1 now2)) \<and>
    dd_abs (dd_step d (Seen i now1 now2)) =
      snd (seen_spec (nat (dd_maxSize d)) (dd_ttl d) i now1 now2 (dd_abs d)) \<and>
    dd_maxSize (dd_step d (Seen i now1 now2)) = dd_maxSize d \<and>
    dd_ttl (dd_step d (Seen i now1 now2)) = dd_ttl d"
  using IsDuplicate_refines [OF assms, of i now1 now2] by (auto simp: dd_step_def)

lemma dd_step_Clean:
  assumes "dd_inv d"
  shows "dd_inv (dd_step d (Clean ord now)) \<and>
    dd_abs (dd_step d (Clean ord now)) =
      filter (\<lambda>e. \<not> (time_Sub now (snd e) > dd_ttl d \<and> fst e \<in> set ord)) (dd_abs d) \<and>
    dd_maxSize (dd_step d (Clean ord now)) = dd_maxSize d \<and>
    dd_ttl (dd_step d (Clean ord now)) = dd_ttl d"
  using cleanup_loop_refines [OF assms, of now ord] by (simp add: dd_step_def Cleanup_def)

lemma dd_step_inv:
  assumes "dd_inv d"
  shows "dd_inv (dd_step d ev) \<and> dd_maxSize (dd_step d ev) = dd_maxSize d \<and>
    dd_ttl (dd_step d ev) = dd_ttl d"
  using dd_step_Seen [OF assms] dd_step_Clean [OF assms] by (cases ev) simp_all

interpretation dedupe: machine dd_step
  "\<lambda>d. dd_inv d \<and> dd_maxSize d = (if m \<le> 0 then 10000 else m) \<and>
       dd_ttl d = (if t \<le> 0 then 5 * 60 * second else t)"
  "NewDedupeCache m t"
  for m :: int and t :: duration
proof unfold_locales
  show "dd_inv (NewDedupeCache m t) \<and>
      dd_maxSize (NewDedupeCache m t) = (if m \<le> 0 then 10000 else m) \<and>
      dd_ttl (NewDedupeCache m t) = (if t \<le> 0 then 5 * 60 * second else t)"
    using dd_inv_new [of m t] by (simp add: NewDedupeCache_def)
qed (simp add: dd_step_inv)

text \<open>\<open>(i, ts)\<close> is in the list with at most \<open>k\<close> newer entries.\<close>

definition remembers :: "string \<Rightarrow> gotime \<Rightarrow> nat \<Rightarrow> (string \<times> gotime) list \<Rightarrow> bool" where
  "remembers i ts k l \<longleftrightarrow>
     (\<exists>xs ys. l = xs @ (i, ts) # ys \<and> length ys \<le> k \<and> i \<notin> fst ` set xs)"

lemma remembers_lookup: "remembers i ts k l \<Longrightarrow> map_of l i = Some ts"
proof -
  assume "remembers i ts k l"
  then obtain xs ys where l: "l = xs @ (i, ts) # ys" and "i \<notin> fst ` set xs"
    by (auto simp: remembers_def)
  then have "map_of xs i = None" by (simp add: map_of_eq_None_iff)
  then show ?thesis by (simp add: l map_add_def)
qed

lemma remembers_filter: "remembers i ts k l \<Longrightarrow> P (i, ts) \<Longrightarrow> remembers i ts k (filter P l)"
proof -
  assume "remembers i ts k l" and P: "P (i, ts)"
  then obtain xs ys where l: "l = xs @ (i, ts) # ys" "length ys \<le> k" "i \<notin> fst ` set xs"
    by (auto simp: remembers_def)
  then have "filter P l = filter P xs @ (i, ts) # filter P ys"
    using P by simp
  moreover have "length (filter P ys) \<le> k"
    using l(2) length_filter_le [of P ys] by (rule order_trans [rotated])
  moreover have "i \<notin> fst ` set (filter P xs)" using l(3) by auto
  ultimately show ?thesis unfolding remembers_def by blast
qed

lemma remembers_append:
  assumes "remembers i ts k l" and "Suc k < cap"
  shows "remembers i ts (Suc k) (lastn cap (l @ [e]))"
proof -
  from assms(1) obtain xs ys where l: "l = xs @ (i, ts) # ys" "length ys \<le> k" "i \<notin> fst ` set xs"
    by (auto simp: remembers_def)
  have "lastn cap (l @ [e]) = lastn (cap - Suc (Suc (length ys))) xs @ (i, ts) # ys @ [e]"
    using l(2) assms(2) lastn_append [of cap xs "(i, ts) # ys @ [e]"] by (simp add: l(1))
  moreover have "i \<notin> fst ` set (lastn n xs)" for n
    using l(3) set_lastn [of n xs] by blast
  ultimately show ?thesis
    unfolding remembers_def using l(2)
    by (intro exI [of _ "lastn (cap - Suc (Suc (length ys))) xs"] exI [of _ "ys @ [e]"]) simp
qed

lemma remembers_mono: "remembers i ts k l \<Longrightarrow> k \<le> k' \<Longrightarrow> remembers i ts k' l"
  unfolding remembers_def by (elim exE) (intro exI, auto)

fun other_event :: "string \<Rightarrow> gotime \<Rightarrow> duration \<Rightarrow> dedupe_event \<Rightarrow> bool" where
  "other_event i ts ttl (Seen j _ _) \<longleftrightarrow> j \<noteq> i"
| "other_event i ts ttl (Clean _ now) \<longleftrightarrow> time_Sub now ts \<le> ttl"

fun seen_count :: "dedupe_event list \<Rightarrow> nat" where
  "seen_count [] = 0"
| "seen_count (Seen _ _ _ # es) = Suc (seen_count es)"
| "seen_count (Clean _ _ # es) = seen_count es"

lemma seen_spec_remembers:
  assumes "remembers i ts k l" and "j \<noteq> i" and "Suc k < cap"
  shows "remembers i ts (Suc k) (snd (seen_spec cap ttl j now1 now2 l))"
proof -
  have "remembers i ts (Suc k) l" using assms(1) by (rule remembers_mono) simp
  moreover have "remembers i ts k (filter (\<lambda>e. fst e \<noteq> j) l)"
    using assms(1,2) by (intro remembers_filter) auto
  ultimately show ?thesis
    using assms(1,3) by (auto simp: seen_spec_def remembers_append split: option.split)
qed

lemma remembers_run:
  "dd_inv d \<Longrightarrow> remembers i ts k (dd_abs d) \<Longrightarrow> \<forall>ev \<in> set es. other_event i ts (dd_ttl d) ev \<Longrightarrow>
     k + seen_count es < nat (dd_maxSize d) \<Longrightarrow>
     dd_inv (foldl dd_step d es) \<and> dd_ttl (foldl dd_step d es) = dd_ttl d \<and>
     map_of (dd_abs (foldl dd_step d es)) i = Some ts"
proof (induction es arbitrary: d k)
  case Nil
  then show ?case by (simp add: remembers_lookup)
next
  case (Cons ev es)
  show ?case
  proof (cases ev)
    case (Seen j now1 now2)
    note step = dd_step_Seen [OF Cons.prems(1), of j now1 now2]
    have "remembers i ts (Suc k) (dd_abs (dd_step d ev))"
      using Cons.prems Seen step by (simp add: seen_spec_remembers)
    from Cons.IH [OF _ this] Cons.prems step show ?thesis by (simp add: Seen)
  next
    case (Clean ord now)
    note step = dd_step_Clean [OF Cons.prems(1), of ord now]
    have "remembers i ts k (dd_abs (dd_step d ev))"
      using Cons.prems Clean step by (auto intro!: remembers_filter)
    from Cons.IH [OF _ this] Cons.prems step show ?thesis by (simp add: Clean)
  qed
qed

lemma seen_spec_fresh:
  assumes "fst (seen_spec cap ttl i now1 now2 l) = False" and "0 < cap" and "distinct (map fst l)"
  shows "remembers i now2 0 (snd (seen_spec cap ttl i now1 now2 l))"
proof -
  have *: "remembers i now2 0 (lastn cap (xs @ [(i, now2)]))" if "i \<notin> fst ` set xs" for xs
  proof -
    from assms(2) obtain n where "cap = Suc n" by (cases cap) auto
    moreover have "i \<notin> fst ` set (lastn n xs)"
      using that set_lastn [of n xs] by blast
    ultimately show ?thesis by (auto simp: remembers_def)
  qed
  show ?thesis
  proof (cases "map_of l i")
    case None
    then have "i \<notin> fst ` set l" by (simp add: map_of_eq_None_iff)
    with None show ?thesis by (simp add: seen_spec_def *)
  next
    case (Some ts)
    with assms(1) show ?thesis by (auto simp: seen_spec_def intro!: * split: if_splits)
  qed
qed

section \<open>Properties\<close>

text \<open>
  C12: After any sequence of calls on a new cache, \<open>IsDuplicate\<close> returns (its eviction loop ends)
  and answers and updates like the reference: one list of (ID, time) pairs, at most \<open>maxSize\<close> of
  them, the oldest insertion dropped first, an ID is a duplicate iff its time is younger than the
  TTL, and an expired ID is re-inserted at the end.
\<close>

theorem is_duplicate_refines:
  "let d = foldl dd_step (NewDedupeCache m t) es;
       spec = seen_spec (if m \<le> 0 then 10000 else nat m) (if t \<le> 0 then 5 * 60 * second else t)
                i now1 now2 (dd_abs d)
   in \<exists>d'. IsDuplicate d i now1 now2 = Some (fst spec, d') \<and> dd_inv d' \<and> dd_abs d' = snd spec"
proof -
  let ?d = "foldl dd_step (NewDedupeCache m t) es"
  have "dd_inv ?d" "dd_ttl ?d = (if t \<le> 0 then 5 * 60 * second else t)"
    "nat (dd_maxSize ?d) = (if m \<le> 0 then 10000 else nat m)"
    using dedupe.run_inv [of m t es] by auto
  with IsDuplicate_refines [of ?d i now1 now2] show ?thesis by (auto simp: Let_def)
qed

text \<open>
  \<open>Cleanup\<close> removes exactly the entries older than the TTL and keeps the others in their
  order, whatever order the runtime enumerates the map in, and keeps the three tables in step.
\<close>

theorem cleanup_order_independent:
  assumes "set ord = dom (dd_cache (foldl dd_step (NewDedupeCache m t) es))"
  shows "let d = foldl dd_step (NewDedupeCache m t) es in
    dd_inv (Cleanup ord now d) \<and>
    dd_abs (Cleanup ord now d) =
      clean_spec (if t \<le> 0 then 5 * 60 * second else t) now (dd_abs d)"
  using Cleanup_refines [OF _ assms, of now] dedupe.run_inv [of m t es] by (simp add: Let_def)

theorem cleanup_order_independent_witness:
  "dd_abs (Cleanup [''b'', ''a''] 9 (foldl dd_step (NewDedupeCache 2 5) [Seen ''a'' 1 1, Seen ''b'' 8 8]))
     = [(''b'', 8)]"
proof -
  let ?es = "[Seen ''a'' 1 1, Seen ''b'' 8 8]"
  have d: "foldl dd_step (NewDedupeCache 2 5) ?es =
      \<lparr>dd_cache = [''a'' \<mapsto> 1, ''b'' \<mapsto> 8], dd_order = [(0, ''a''), (1, ''b'')],
       dd_elements = [''a'' \<mapsto> 0, ''b'' \<mapsto> 1], dd_maxSize = 2, dd_ttl = 5, dd_next = 2\<rparr>"
    by (simp add: dd_step_def NewDedupeCache_def IsDuplicate_def insert_seen_def evict_loop_fits)
  have "set [''b'', ''a''] = dom (dd_cache (foldl dd_step (NewDedupeCache 2 5) ?es))"
    unfolding d by auto
  from cleanup_order_independent [OF this, of 9] show ?thesis
    unfolding d Let_def
    by (simp add: dd_abs_def [of "\<lparr>dd_cache = _, dd_order = _, dd_elements = _, dd_maxSize = _, dd_ttl = _, dd_next = _\<rparr>"] clean_spec_def time_Sub_def min_int64_def max_int64_def)
qed

text \<open>
  C9: Within its window the cache never lets an ID through twice: once \<open>IsDuplicate\<close> has said
  "new" for an ID, it says "duplicate" after any sequence of fewer than \<open>maxSize\<close> other IDs and
  any clean-ups, as long as the clock has not advanced by the TTL.
\<close>

theorem dedupe_window:
  assumes "IsDuplicate (foldl dd_step (NewDedupeCache m t) es0) i now1 ts = Some (False, d)"
    and "\<forall>ev \<in> set es. other_event i ts (dd_ttl d) ev"
    and "seen_count es < nat (dd_maxSize d)"
    and "time_Sub now2 ts < dd_ttl d"
  shows "\<exists>d'. IsDuplicate (foldl dd_step d es) i now2 now3 = Some (True, d')"
proof -
  let ?d0 = "foldl dd_step (NewDedupeCache m t) es0"
  have inv0: "dd_inv ?d0" using dedupe.run_inv [of m t es0] by simp
  then have "distinct (map fst (dd_abs ?d0))" "0 < nat (dd_maxSize ?d0)"
    by (simp_all add: fst_dd_abs dd_inv_def dd_wf_def)
  with IsDuplicate_refines [OF inv0, of i now1 ts] assms(1)
  have d: "dd_inv d" "remembers i ts 0 (dd_abs d)"
    by (auto intro: seen_spec_fresh)
  have run: "dd_inv (foldl dd_step d es)" "dd_ttl (foldl dd_step d es) = dd_ttl d"
      "map_of (dd_abs (foldl dd_step d es)) i = Some ts"
    using remembers_run [OF d assms(2)] assms(3) by simp_all
  with IsDuplicate_refines [OF run(1), of i now2 now3] assms(4) show ?thesis
    by (auto simp: seen_spec_def)
qed

theorem dedupe_window_witness:
  "\<exists>d'. IsDuplicate (foldl dd_step (insert_seen (NewDedupeCache 2 5) ''a'' 1) [Seen ''b'' 2 2])
     ''a'' 3 3 = Some (True, d')"
proof (rule dedupe_window)
  show "IsDuplicate (foldl dd_step (NewDedupeCache 2 5) []) ''a'' 1 1 =
      Some (False, insert_seen (NewDedupeCache 2 5) ''a'' 1)"
    by (simp add: NewDedupeCache_def IsDuplicate_def insert_seen_def evict_loop_fits)
qed (simp_all add: NewDedupeCache_def insert_seen_def time_Sub_def min_int64_def max_int64_def)

end
