(* ===== verification/Resp.thy ===== *)
theory Resp
  imports Strconv
begin

text \<open>
  The RESP wire format of \<open>redis/resp.go\<close>: the value type with its accessors, the command
  writer and the reply reader.  The reader works on the bytes the connection still delivers before
  it is closed; a read returns the rest of them, and an index or an allocation out of bounds is the
  outcome \<open>ReadPanic\<close>.  The two mutually recursive readers end because every value takes at
  least one byte: their definition checks that the rest is shorter, and \<open>ReadValue_simps\<close> shows
  the check away.
\<close>

section \<open>Values\<close>

datatype resp_value =
  Value (v_Type: char) (v_Str: string) (v_Int: int) (v_Array: "resp_value list")
    (v_IsNull: bool) (v_IsError: bool)

datatype resp_error =
    EOF
  | UnexpectedEOF
  | ErrInvalidResp string
  | ErrNilResponse
  | ErrUnexpectedType
  | NumError
  | OddArrayLength

definition t_SimpleString :: char where "t_SimpleString = CHR ''+''"
definition t_Error :: char where "t_Error = CHR ''-''"
definition t_Integer :: char where "t_Integer = CHR '':''"
definition t_BulkString :: char where "t_BulkString = CHR ''$''"
definition t_Array :: char where "t_Array = CHR ''*''"

lemmas type_bytes = t_SimpleString_def t_Error_def t_Integer_def t_BulkString_def t_Array_def

definition simple_string :: "string \<Rightarrow> resp_value" where
  "simple_string s = Value t_SimpleString s 0 [] False False"

definition error_value :: "string \<Rightarrow> resp_value" where
  "error_value s = Value t_Error s 0 [] False True"

definition integer_value :: "int \<Rightarrow> resp_value" where
  "integer_value n = Value t_Integer '''' n [] False False"

definition bulk_string :: "string \<Rightarrow> resp_value" where
  "bulk_string s = Value t_BulkString s 0 [] False False"

definition null_bulk :: resp_value where
  "null_bulk = Value t_BulkString '''' 0 [] True False"

definition array_value :: "resp_value list \<Rightarrow> resp_value" where
  "array_value vs = Value t_Array '''' 0 vs False False"

definition null_array :: resp_value where
  "null_array = Value t_Array '''' 0 [] True False"

lemmas reply_values = simple_string_def error_value_def integer_value_def bulk_string_def
  null_bulk_def array_value_def null_array_def

text \<open>\<open>fmt\<close>'s \<open>%v\<close> of a slice: its elements' \<open>String()\<close> between brackets.\<close>

fun value_String :: "resp_value \<Rightarrow> string" where
  "value_String (Value t s n arr null err) =
     (if t = t_SimpleString \<or> t = t_BulkString \<or> t = t_Error then s
      else if t = t_Integer then FormatInt n
      else if t = t_Array then ''['' @ join_with '' '' (map value_String arr) @ '']''
      else '''')"

definition AsString :: "resp_value \<Rightarrow> resp_error + string" where
  "AsString v =
     (if v_IsNull v then Inl ErrNilResponse
      else if v_Type v = t_SimpleString \<or> v_Type v = t_BulkString then Inr (v_Str v)
      else if v_Type v = t_Integer then Inr (FormatInt (v_Int v))
      else Inl ErrUnexpectedType)"

definition AsInt :: "resp_value \<Rightarrow> resp_error + int" where
  "AsInt v =
     (if v_IsNull v then Inl ErrNilResponse
      else if v_Type v = t_Integer then Inr (v_Int v)
      else if v_Type v = t_BulkString \<or> v_Type v = t_SimpleString
      then (case ParseInt (v_Str v) of None \<Rightarrow> Inl NumError | Some n \<Rightarrow> Inr n)
      else Inl ErrUnexpectedType)"

definition AsArray :: "resp_value \<Rightarrow> resp_error + resp_value list" where
  "AsArray v =
     (if v_IsNull v then Inl ErrNilResponse
      else if v_Type v = t_Array then Inr (v_Array v)
      else Inl ErrUnexpectedType)"

fun strings_loop :: "resp_value list \<Rightarrow> resp_error + string list" where
  "strings_loop [] = Inr []"
| "strings_loop (item # arr) =
     (case AsString item of
        Inl e \<Rightarrow> Inl e
      | Inr s \<Rightarrow> (case strings_loop arr of Inl e \<Rightarrow> Inl e | Inr ss \<Rightarrow> Inr (s # ss)))"

definition AsStringSlice :: "resp_value \<Rightarrow> resp_error + string list" where
  "AsStringSlice v =
     (case AsArray v of Inl e \<Rightarrow> Inl e | Inr arr \<Rightarrow> strings_loop arr)"

fun map_loop :: "resp_value list \<Rightarrow> (string \<rightharpoonup> string) \<Rightarrow> resp_error + (string \<rightharpoonup> string)" where
  "map_loop (k # v # arr) result =
     (case AsString k of
        Inl e \<Rightarrow> Inl e
      | Inr key \<Rightarrow>
          (case AsString v of
             Inl e \<Rightarrow> Inl e
           | Inr val \<Rightarrow> map_loop arr (result(key \<mapsto> val))))"
| "map_loop _ result = Inr result"

definition AsMap :: "resp_value \<Rightarrow> resp_error + (string \<rightharpoonup> string)" where
  "AsMap v =
     (case AsArray v of
        Inl e \<Rightarrow> Inl e
      | Inr arr \<Rightarrow>
          (if length arr mod 2 \<noteq> 0 then Inl OddArrayLength else map_loop arr Map.empty))"

section \<open>Writing commands\<close>

abbreviation crlf :: string where
  "crlf \<equiv> [CHR 0x0D, CHR 0x0A]"

fun bulk_args :: "string list \<Rightarrow> string" where
  "bulk_args [] = []"
| "bulk_args (arg # args) =
     ''$'' @ FormatInt (int (length arg)) @ crlf @ arg @ crlf @ bulk_args args"

definition WriteCommand :: "string list \<Rightarrow> string" where
  "WriteCommand args = ''*'' @ FormatInt (int (length args)) @ crlf @ bulk_args args"

section \<open>Reading values\<close>

datatype 'a reading = Read 'a string | ReadErr resp_error string | ReadPanic

text \<open>\<open>ReadString('\n')\<close>: the line with its terminator, and the rest.\<close>

fun split_line :: "string \<Rightarrow> (string \<times> string) option" where
  "split_line [] = None"
| "split_line (c # cs) =
     (if c = CHR 0x0A then Some ([c], cs)
      else (case split_line cs of None \<Rightarrow> None | Some (line, rest) \<Rightarrow> Some (c # line, rest)))"

definition readLine :: "string \<Rightarrow> string reading" where
  "readLine inp =
     (case split_line inp of
        None \<Rightarrow> ReadErr EOF []
      | Some (line, rest) \<Rightarrow>
          (if length line < 2 \<or> line ! (length line - 2) \<noteq> CHR 0x0D
           then ReadErr (ErrInvalidResp '''') rest
           else Read (take (length line - 2) line) rest))"

text \<open>
  \<open>make\<close> of a slice panics on a negative length and on a size the runtime cannot address
  (2^48 bytes on a 64-bit target); a smaller allocation is assumed to be granted.  A \<open>Value\<close>
  takes 64 bytes.
\<close>

definition max_alloc :: int where
  "max_alloc = 2 ^ 48"

definition make_ok :: "int \<Rightarrow> int \<Rightarrow> bool" where
  "make_ok elem_size n \<longleftrightarrow> 0 \<le> n \<and> n * elem_size \<le> max_alloc"

text \<open>\<open>io.ReadFull\<close> into a slice of \<open>n\<close> bytes.\<close>

definition read_full :: "nat \<Rightarrow> string \<Rightarrow> string reading" where
  "read_full n inp =
     (if n \<le> length inp then Read (take n inp) (drop n inp)
      else if inp = [] then ReadErr EOF []
      else ReadErr UnexpectedEOF [])"

definition readSimpleString :: "string \<Rightarrow> resp_value reading" where
  "readSimpleString inp =
     (case readLine inp of
        Read line rest \<Rightarrow> Read (simple_string line) rest
      | ReadErr e rest \<Rightarrow> ReadErr e rest
      | ReadPanic \<Rightarrow> ReadPanic)"

definition readError :: "string \<Rightarrow> resp_value reading" where
  "readError inp =
     (case readLine inp of
        Read line rest \<Rightarrow> Read (error_value line) rest
      | ReadErr e rest \<Rightarrow> ReadErr e rest
      | ReadPanic \<Rightarrow> ReadPanic)"

definition readInteger :: "string \<Rightarrow> resp_value reading" where
  "readInteger inp =
     (case readLine inp of
        Read line rest \<Rightarrow>
          (case ParseInt line of
             None \<Rightarrow> ReadErr (ErrInvalidResp ''invalid integer'') rest
           | Some n \<Rightarrow> Read (integer_value n) rest)
      | ReadErr e rest \<Rightarrow> ReadErr e rest
      | ReadPanic \<Rightarrow> ReadPanic)"

definition readBulkString :: "string \<Rightarrow> resp_value reading" where
  "readBulkString inp =
     (case readLine inp of
        Read line rest \<Rightarrow>
          (case ParseInt line of
             None \<Rightarrow> ReadErr (ErrInvalidResp ''invalid bulk string length'') rest
           | Some len \<Rightarrow>
               (if len = -1 then Read null_bulk rest
                else let n = wrap64 (len + 2)
                     in if \<not> make_ok 1 n then ReadPanic
                        else (case read_full (nat n) rest of
                                Read data rest' \<Rightarrow>
                                  (case (go_index data len, go_index data (len + 1)) of
                                     (Some c, Some d) \<Rightarrow>
                                       (if c \<noteq> CHR 0x0D \<or> d \<noteq> CHR 0x0A
                                        then ReadErr (ErrInvalidResp '''') rest'
                                        else Read (bulk_string (take (nat len) data)) rest')
                                   | _ \<Rightarrow> ReadPanic)
                              | ReadErr e rest' \<Rightarrow> ReadErr e rest'
                              | ReadPanic \<Rightarrow> ReadPanic)))
      | ReadErr e rest \<Rightarrow> ReadErr e rest
      | ReadPanic \<Rightarrow> ReadPanic)"

text \<open>The header of an array: the count, or the null array (\<open>None\<close>).\<close>

definition array_count :: "string \<Rightarrow> int option reading" where
  "array_count inp =
     (case readLine inp of
        Read line rest \<Rightarrow>
          (case ParseInt line of
             None \<Rightarrow> ReadErr (ErrInvalidResp ''invalid array count'') rest
           | Some n \<Rightarrow>
               (if n = -1 then Read None rest
                else if \<not> make_ok 64 n then ReadPanic
                else Read (Some n) rest))
      | ReadErr e rest \<Rightarrow> ReadErr e rest
      | ReadPanic \<Rightarrow> ReadPanic)"

lemma split_line_append:
  "split_line inp = Some (line, rest) \<Longrightarrow> inp = line @ rest \<and> line \<noteq> [] \<and> last line = CHR 0x0A"
  by (induction inp arbitrary: line rest) (auto split: if_splits option.splits)

lemma readLine_rest:
  assumes "readLine inp = Read line rest"
  shows "inp = line @ crlf @ rest"
proof -
  from assms obtain l where l: "split_line inp = Some (l, rest)" "\<not> length l < 2"
      "l ! (length l - 2) = CHR 0x0D" "line = take (length l - 2) l"
    by (auto simp: readLine_def split: option.splits if_splits)
  note parts = split_line_append [OF l(1)]
  from l(2) parts obtain p a b where p: "l = p @ [a, b]"
    by (cases l rule: rev_cases; cases "butlast l" rule: rev_cases) auto
  with l parts have "l = line @ crlf"
    by (simp add: nth_append)
  with parts show ?thesis by simp
qed

lemma array_count_shorter: "array_count inp = Read k rest \<Longrightarrow> length rest < length inp"
  using readLine_rest
  by (fastforce simp: array_count_def split: reading.splits option.splits if_splits)

function (sequential) ReadValue :: "string \<Rightarrow> resp_value reading"
    and read_elements :: "nat \<Rightarrow> string \<Rightarrow> resp_value list reading" where
  "ReadValue inp =
     (case inp of
        [] \<Rightarrow> ReadErr EOF []
      | c # inp' \<Rightarrow>
          if c = t_SimpleString then readSimpleString inp'
          else if c = t_Error then readError inp'
          else if c = t_Integer then readInteger inp'
          else if c = t_BulkString then readBulkString inp'
          else if c = t_Array then
            (case array_count inp' of
               Read None rest \<Rightarrow> Read null_array rest
             | Read (Some n) rest \<Rightarrow>
                 (case read_elements (nat n) rest of
                    Read vs rest' \<Rightarrow> Read (array_value vs) rest'
                  | ReadErr e rest' \<Rightarrow> ReadErr e rest'
                  | ReadPanic \<Rightarrow> ReadPanic)
             | ReadErr e rest \<Rightarrow> ReadErr e rest
             | ReadPanic \<Rightarrow> ReadPanic)
          else ReadErr (ErrInvalidResp ''unknown type byte'') inp')"
| "read_elements n inp =
     (if n = 0 then Read [] inp
      else
        (case ReadValue inp of
           Read v rest \<Rightarrow>
             (if length rest < length inp then
                (case read_elements (n - 1) rest of
                   Read vs rest' \<Rightarrow> Read (v # vs) rest'
                 | ReadErr e rest' \<Rightarrow> ReadErr e rest'
                 | ReadPanic \<Rightarrow> ReadPanic)
              else ReadPanic)
         | ReadErr e rest \<Rightarrow> ReadErr e rest
         | ReadPanic \<Rightarrow> ReadPanic))"
  by pat_completeness auto
termination
  by (relation "measure (\<lambda>x. case x of Inl inp \<Rightarrow> 2 * length inp | Inr (n, inp) \<Rightarrow> 2 * length inp + 1)")
    (auto dest: array_count_shorter)

declare ReadValue.simps [simp del] read_elements.simps [simp del]

section \<open>Framing\<close>

text \<open>
  A reader is framed when what it returns is decided by the bytes it takes: they are a prefix of
  the input, and any other continuation gives the same value and that continuation as the rest.
\<close>

definition takes :: "(string \<Rightarrow> 'a reading) \<Rightarrow> string \<Rightarrow> 'a \<Rightarrow> bool" where
  "takes f used v \<longleftrightarrow> (\<forall>more. f (used @ more) = Read v more)"

definition framed :: "(string \<Rightarrow> 'a reading) \<Rightarrow> bool" where
  "framed f \<longleftrightarrow>
     (\<forall>inp v rest. f inp = Read v rest \<longrightarrow> (\<exists>used. inp = used @ rest \<and> takes f used v))"

lemma framedD: "framed f \<Longrightarrow> f inp = Read v rest \<Longrightarrow> \<exists>used. inp = used @ rest \<and> takes f used v"
  by (simp add: framed_def)

lemma takesD: "takes f used v \<Longrightarrow> f (used @ more) = Read v more"
  by (simp add: takes_def)

lemma split_line_LF: "CHR 0x0A \<notin> set l \<Longrightarrow> split_line (l @ CHR 0x0A # rest) = Some (l @ [CHR 0x0A], rest)"
  by (induction l) auto

lemma readLine_crlf: "CHR 0x0A \<notin> set line \<Longrightarrow> readLine (line @ crlf @ rest) = Read line rest"
  using split_line_LF [of "line @ [CHR 0x0D]" rest] by (simp add: readLine_def nth_append)

lemma readLine_no_panic [simp]: "readLine inp \<noteq> ReadPanic"
  by (auto simp: readLine_def split: option.splits)

lemma split_line_no_LF: "split_line inp = Some (line, rest) \<Longrightarrow> CHR 0x0A \<notin> set (butlast line)"
  using split_line_append by (induction inp arbitrary: line rest) (fastforce split: if_splits option.splits)+

lemma readLine_takes:
  assumes "readLine inp = Read line rest"
  shows "inp = (line @ crlf) @ rest \<and> takes readLine (line @ crlf) line"
proof -
  from assms obtain l where l: "split_line inp = Some (l, rest)" "line = take (length l - 2) l"
    by (auto simp: readLine_def split: option.splits if_splits)
  have "set line \<subseteq> set (butlast l)"
    unfolding l(2) butlast_conv_take by (rule set_take_subset_set_take) simp
  with split_line_no_LF [OF l(1)] have "CHR 0x0A \<notin> set line" by blast
  with readLine_rest [OF assms] readLine_crlf [of line] show ?thesis by (simp add: takes_def)
qed

text \<open>Reading a line and then something framed is framed.\<close>

lemma framed_line:
  assumes f: "\<And>inp. f inp = (case readLine inp of Read line rest \<Rightarrow> g line rest
      | ReadErr e rest \<Rightarrow> ReadErr e rest | ReadPanic \<Rightarrow> ReadPanic)"
    and g: "\<And>line. framed (g line)"
  shows "framed f"
  unfolding framed_def
proof (intro allI impI)
  fix inp v rest assume "f inp = Read v rest"
  then obtain line mid where line: "readLine inp = Read line mid" "g line mid = Read v rest"
    by (auto simp: f split: reading.splits)
  from framedD [OF g line(2)] obtain used where used: "mid = used @ rest" "takes (g line) used v"
    by blast
  have "takes f ((line @ crlf) @ used) v"
    using readLine_takes [OF line(1)] used(2) by (auto simp: takes_def f)
  with readLine_takes [OF line(1)] used(1)
  show "\<exists>used. inp = used @ rest \<and> takes f used v" by (metis append_assoc)
qed

lemma framed_const: "framed (Read v)" "framed (ReadErr e)" "framed (\<lambda>inp. ReadPanic)"
  by (auto simp: framed_def takes_def)

lemma framed_simple: "framed readSimpleString" "framed readError"
  by (rule framed_line [where g = "\<lambda>line. Read (simple_string line)"],
      simp add: readSimpleString_def, rule framed_const)
    (rule framed_line [where g = "\<lambda>line. Read (error_value line)"],
      simp add: readError_def, rule framed_const)

lemma framed_integer: "framed readInteger"
  by (rule framed_line [where g = "\<lambda>line. (case ParseInt line of
        None \<Rightarrow> ReadErr (ErrInvalidResp ''invalid integer'')
      | Some n \<Rightarrow> Read (integer_value n))"])
    (auto simp: readInteger_def framed_const split: reading.split option.split)

lemma framed_count: "framed array_count"
  by (rule framed_line [where g = "\<lambda>line. (case ParseInt line of
        None \<Rightarrow> ReadErr (ErrInvalidResp ''invalid array count'')
      | Some n \<Rightarrow> (if n = -1 then Read None else if \<not> make_ok 64 n then (\<lambda>_. ReadPanic)
          else Read (Some n)))"])
    (auto simp: array_count_def framed_const split: reading.split option.split)

lemma framed_full:
  assumes "\<And>data. framed (g data)"
  shows "framed (\<lambda>inp. case read_full n inp of Read data rest \<Rightarrow> g data rest
      | ReadErr e rest \<Rightarrow> ReadErr e rest | ReadPanic \<Rightarrow> ReadPanic)"
  unfolding framed_def
proof (intro allI impI)
  fix inp v rest
  let ?f = "\<lambda>inp. case read_full n inp of Read data rest \<Rightarrow> g data rest
      | ReadErr e rest \<Rightarrow> ReadErr e rest | ReadPanic \<Rightarrow> ReadPanic"
  assume "?f inp = Read v rest"
  then have n: "n \<le> length inp" and gd: "g (take n inp) (drop n inp) = Read v rest"
    by (auto simp: read_full_def split: if_splits)
  from framedD [OF assms gd] obtain used where used: "drop n inp = used @ rest"
      "takes (g (take n inp)) used v"
    by blast
  have "inp = (take n inp @ used) @ rest"
    using used(1) by (metis append_assoc append_take_drop_id)
  moreover have "takes ?f (take n inp @ used) v"
    using n used(2) by (simp add: takes_def read_full_def)
  ultimately show "\<exists>used. inp = used @ rest \<and> takes ?f used v" by blast
qed

lemma framed_bulk: "framed readBulkString"
  by (rule framed_line [where g = "\<lambda>line. (case ParseInt line of
        None \<Rightarrow> ReadErr (ErrInvalidResp ''invalid bulk string length'')
      | Some len \<Rightarrow>
          (if len = -1 then Read null_bulk
           else if \<not> make_ok 1 (wrap64 (len + 2)) then (\<lambda>_. ReadPanic)
           else (\<lambda>rest. case read_full (nat (wrap64 (len + 2))) rest of
                Read data rest' \<Rightarrow>
                  (case (go_index data len, go_index data (len + 1)) of
                     (Some c, Some d) \<Rightarrow>
                       (if c \<noteq> CHR 0x0D \<or> d \<noteq> CHR 0x0A then ReadErr (ErrInvalidResp '''')
                        else Read (bulk_string (take (nat len) data)))
                   | _ \<Rightarrow> (\<lambda>_. ReadPanic)) rest'
              | ReadErr e rest' \<Rightarrow> ReadErr e rest' | ReadPanic \<Rightarrow> ReadPanic)))"])
    (auto simp: readBulkString_def Let_def framed_const split: reading.split option.split
      intro!: framed_full)

text \<open>The checked recursion is the recursion of the code.\<close>

lemma read_framed:
  "ReadValue inp = Read v rest \<Longrightarrow> \<exists>used. inp = used @ rest \<and> used \<noteq> [] \<and> takes ReadValue used v"
  "read_elements n inp = Read vs rest \<Longrightarrow> \<exists>used. inp = used @ rest \<and> takes (read_elements n) used vs"
proof (induction inp and n inp arbitrary: v rest and vs rest rule: ReadValue_read_elements.induct)
  case (1 inp)
  from "1.prems" obtain c inp' where inp: "inp = c # inp'"
    by (cases inp) (auto simp: ReadValue.simps [of "[]"])
  have step: "\<exists>used. inp = used @ rest \<and> used \<noteq> [] \<and> takes ReadValue used v"
    if "framed f" "f inp' = Read v rest" "\<And>more. ReadValue (c # more) = f more" for f
  proof -
    from framedD [OF that(1,2)] obtain used where "inp' = used @ rest" "takes f used v" by blast
    then show ?thesis
      using that(3) by (intro exI [of _ "c # used"]) (auto simp: inp takes_def)
  qed
  show ?case
  proof (cases "c = t_Array")
    case False
    consider "c = t_SimpleString" | "c = t_Error" | "c = t_Integer" | "c = t_BulkString"
      using "1.prems" False by (auto simp: ReadValue.simps [of "c # inp'"] inp split: if_splits)
    then show ?thesis
    proof cases
      case 1
      show ?thesis
        by (rule step [OF framed_simple(1)])
          (use 1 "1.prems" in \<open>simp_all add: ReadValue.simps inp type_bytes\<close>)
    next
      case 2
      show ?thesis
        by (rule step [OF framed_simple(2)])
          (use 2 "1.prems" in \<open>simp_all add: ReadValue.simps inp type_bytes\<close>)
    next
      case 3
      show ?thesis
        by (rule step [OF framed_integer])
          (use 3 "1.prems" in \<open>simp_all add: ReadValue.simps inp type_bytes\<close>)
    next
      case 4
      show ?thesis
        by (rule step [OF framed_bulk])
          (use 4 "1.prems" in \<open>simp_all add: ReadValue.simps inp type_bytes\<close>)
    qed
  next
    case True
    with "1.prems" obtain k mid where k: "array_count inp' = Read k mid"
      by (auto simp: ReadValue.simps inp type_bytes split: reading.splits)
    from framedD [OF framed_count k] obtain used1 where used1: "inp' = used1 @ mid"
        "takes array_count used1 k"
      by blast
    have eq: "ReadValue (c # used1 @ more) =
        (case k of
           None \<Rightarrow> Read null_array more
         | Some n \<Rightarrow>
             (case read_elements (nat n) more of
                Read vs rest' \<Rightarrow> Read (array_value vs) rest'
              | ReadErr e rest' \<Rightarrow> ReadErr e rest'
              | ReadPanic \<Rightarrow> ReadPanic))" for more
      using True takesD [OF used1(2)]
      by (simp add: ReadValue.simps type_bytes split: option.split)
    show ?thesis
    proof (cases k)
      case None
      with "1.prems" eq [of mid] used1(1) have "v = null_array" "rest = mid" by (auto simp: inp)
      with None eq used1(1) show ?thesis
        by (intro exI [of _ "c # used1"]) (auto simp: inp takes_def)
    next
      case (Some n)
      with "1.prems" eq [of mid] used1(1) obtain vs
        where vs: "read_elements (nat n) mid = Read vs rest" "v = array_value vs"
        by (auto simp: inp split: reading.splits)
      have "\<exists>used. mid = used @ rest \<and> takes (read_elements (nat n)) used vs"
        by (rule "1.IH" [OF inp]) (use True k Some vs in \<open>simp_all add: type_bytes\<close>)
      then obtain used2 where used2: "mid = used2 @ rest" "takes (read_elements (nat n)) used2 vs"
        by blast
      with Some eq vs(2) used1(1) show ?thesis
        by (intro exI [of _ "c # used1 @ used2"]) (auto simp: inp takes_def)
    qed
  qed
next
  case (2 n inp)
  show ?case
  proof (cases "n = 0")
    case True
    with "2.prems" show ?thesis
      by (auto simp: read_elements.simps takes_def)
  next
    case False
    with "2.prems" obtain v vs' mid where v: "ReadValue inp = Read v mid"
        "length mid < length inp" "read_elements (n - 1) mid = Read vs' rest" "vs = v # vs'"
      by (auto simp: read_elements.simps [of n inp] split: reading.splits if_splits)
    from "2.IH"(1) [OF False v(1)] obtain used1 where used1: "inp = used1 @ mid" "used1 \<noteq> []"
        "takes ReadValue used1 v"
      by blast
    from "2.IH"(2) [OF False v(1,2,3)] obtain used2 where used2: "mid = used2 @ rest"
        "takes (read_elements (n - 1)) used2 vs'"
      by blast
    have "takes (read_elements n) (used1 @ used2) vs"
      using used1(2) False takesD [OF used1(3)] takesD [OF used2(2)]
      by (simp add: takes_def read_elements.simps [of n] v(4))
    with used1(1) used2(1) show ?thesis by (metis append_assoc)
  qed
qed

lemma ReadValue_shorter: "ReadValue inp = Read v rest \<Longrightarrow> length rest < length inp"
  using read_framed(1) by fastforce

lemma read_elements_0 [simp]: "read_elements 0 inp = Read [] inp"
  by (simp add: read_elements.simps)

lemma read_elements_Suc:
  "read_elements (Suc n) inp =
     (case ReadValue inp of
        Read v rest \<Rightarrow>
          (case read_elements n rest of
             Read vs rest' \<Rightarrow> Read (v # vs) rest'
           | ReadErr e rest' \<Rightarrow> ReadErr e rest'
           | ReadPanic \<Rightarrow> ReadPanic)
      | ReadErr e rest \<Rightarrow> ReadErr e rest
      | ReadPanic \<Rightarrow> ReadPanic)"
  using ReadValue_shorter [of inp] by (simp add: read_elements.simps [of "Suc n"] split: reading.split)

section \<open>Round trips\<close>

text \<open>The encoding of a reply, the reference the reader is compared with.\<close>

fun encode_reply :: "resp_value \<Rightarrow> string" where
  "encode_reply (Value t s n arr null err) =
     (if t = t_SimpleString \<or> t = t_Error then t # s @ crlf
      else if t = t_Integer then t # FormatInt n @ crlf
      else if null then t # ''-1'' @ crlf
      else if t = t_BulkString then t # FormatInt (int (length s)) @ crlf @ s @ crlf
      else t # FormatInt (int (length arr)) @ crlf @ concat (map encode_reply arr))"

text \<open>The values a server can send: single-line strings, 64-bit integers, strings and arrays the
  runtime can allocate, nested to any depth.\<close>

fun reply_ok :: "resp_value \<Rightarrow> bool" where
  "reply_ok (Value t s n arr null err) \<longleftrightarrow>
     (t = t_SimpleString \<or> t = t_Error) \<and> CHR 0x0A \<notin> set s \<and> n = 0 \<and> arr = [] \<and> \<not> null \<and>
       err = (t = t_Error) \<or>
     t = t_Integer \<and> s = [] \<and> in_int64 n \<and> arr = [] \<and> \<not> null \<and> \<not> err \<or>
     t = t_BulkString \<and> int (length s) + 2 \<le> max_alloc \<and> (null \<longrightarrow> s = []) \<and> n = 0 \<and> arr = [] \<and> \<not> err \<or>
     t = t_Array \<and> int (length arr) * 64 \<le> max_alloc \<and> (null \<longrightarrow> arr = []) \<and> s = [] \<and> n = 0 \<and> \<not> err \<and>
       list_all reply_ok arr"

lemma FormatInt_m1: "FormatInt (- 1) = ''-1''"
  by (simp add: FormatInt_def nat_digits.simps digit_char_def)

lemma max_alloc_int64: "0 \<le> n \<Longrightarrow> n * k \<le> max_alloc \<Longrightarrow> 0 < k \<Longrightarrow> in_int64 n"
proof -
  assume n: "0 \<le> n" "n * k \<le> max_alloc" "0 < k"
  then have "n * 1 \<le> n * k" by (intro mult_left_mono) auto
  with n show ?thesis by (simp add: in_int64_def max_alloc_def min_int64_def max_int64_def)
qed

lemma readLine_number: "readLine (FormatInt n @ crlf @ rest) = Read (FormatInt n) rest"
  by (rule readLine_crlf) (rule FormatInt_no_newline)

lemma read_bulk:
  assumes "int (length s) + 2 \<le> max_alloc"
  shows "readBulkString (FormatInt (int (length s)) @ crlf @ s @ crlf @ rest) = Read (bulk_string s) rest"
proof -
  let ?n = "int (length s)"
  have "in_int64 ?n" "in_int64 (?n + 2)"
    using assms max_alloc_int64 [of ?n 1] max_alloc_int64 [of "?n + 2" 1] by simp_all
  then have num: "ParseInt (FormatInt ?n) = Some ?n" and w: "wrap64 (?n + 2) = ?n + 2"
    by (simp_all add: wrap64_id)
  have full: "read_full (nat (?n + 2)) (s @ crlf @ rest) = Read (s @ crlf) rest"
    by (simp add: read_full_def nat_add_distrib)
  have "go_index (s @ crlf) ?n = Some (CHR 0x0D)" "go_index (s @ crlf) (?n + 1) = Some (CHR 0x0A)"
    using go_index_Some [of "length s" "s @ crlf"] go_index_Some [of "Suc (length s)" "s @ crlf"]
    by (simp_all add: nth_append add.commute)
  then show ?thesis
    using assms full
    by (simp add: readBulkString_def readLine_number [simplified] num w make_ok_def)
qed

lemma read_count:
  assumes "int n * 64 \<le> max_alloc"
  shows "array_count (FormatInt (int n) @ crlf @ rest) = Read (Some (int n)) rest"
proof -
  have "in_int64 (int n)" using assms max_alloc_int64 [of "int n" 64] by simp
  then show ?thesis
    using assms by (simp add: array_count_def readLine_number [simplified] make_ok_def)
qed

lemma ReadValue_Cons:
  "ReadValue (t_SimpleString # inp) = readSimpleString inp"
  "ReadValue (t_Error # inp) = readError inp"
  "ReadValue (t_Integer # inp) = readInteger inp"
  "ReadValue (t_BulkString # inp) = readBulkString inp"
  "ReadValue (t_Array # inp) =
     (case array_count inp of
        Read None rest \<Rightarrow> Read null_array rest
      | Read (Some n) rest \<Rightarrow>
          (case read_elements (nat n) rest of
             Read vs rest' \<Rightarrow> Read (array_value vs) rest'
           | ReadErr e rest' \<Rightarrow> ReadErr e rest'
           | ReadPanic \<Rightarrow> ReadPanic)
      | ReadErr e rest \<Rightarrow> ReadErr e rest
      | ReadPanic \<Rightarrow> ReadPanic)"
  by (simp_all add: ReadValue.simps type_bytes)

lemma read_elements_encode:
  "(\<And>v rest. v \<in> set arr \<Longrightarrow> ReadValue (encode_reply v @ rest) = Read v rest) \<Longrightarrow>
   read_elements (length arr) (concat (map encode_reply arr) @ rest) = Read arr rest"
  by (induction arr) (simp_all add: read_elements_Suc)

lemma read_null:
  "readBulkString (''-1'' @ crlf @ rest) = Read null_bulk rest"
  "array_count (''-1'' @ crlf @ rest) = Read None rest"
proof -
  have "readLine (''-1'' @ crlf @ rest) = Read ''-1'' rest" by (rule readLine_crlf) simp
  moreover have "ParseInt ''-1'' = Some (- 1)"
    using ParseInt_FormatInt [of "- 1"] by (simp add: FormatInt_m1 in_int64_def min_int64_def max_int64_def)
  ultimately show "readBulkString (''-1'' @ crlf @ rest) = Read null_bulk rest"
    "array_count (''-1'' @ crlf @ rest) = Read None rest"
    by (simp_all add: readBulkString_def array_count_def)
qed

lemma ReadValue_encode: "reply_ok v \<Longrightarrow> ReadValue (encode_reply v @ rest) = Read v rest"
proof (induction v arbitrary: rest)
  case (Value t s n arr null err)
  from Value.prems consider
      (line) "t = t_SimpleString \<or> t = t_Error" "CHR 0x0A \<notin> set s" "n = 0" "arr = []" "\<not> null"
        "err = (t = t_Error)"
    | (num) "t = t_Integer" "s = []" "in_int64 n" "arr = []" "\<not> null" "\<not> err"
    | (bulk) "t = t_BulkString" "int (length s) + 2 \<le> max_alloc" "null \<longrightarrow> s = []" "n = 0" "arr = []" "\<not> err"
    | (arr) "t = t_Array" "int (length arr) * 64 \<le> max_alloc" "null \<longrightarrow> arr = []" "s = []" "n = 0" "\<not> err"
        "list_all reply_ok arr"
    by auto
  then show ?case
  proof cases
    case line
    then show ?thesis
      using readLine_crlf [of s rest]
      by (auto simp: ReadValue.simps readSimpleString_def readError_def simple_string_def
          error_value_def type_bytes)
  next
    case num
    then show ?thesis
      using readLine_number [of n rest]
      by (simp add: ReadValue_Cons readInteger_def integer_value_def) (simp add: type_bytes
          ReadValue.simps readInteger_def integer_value_def)
  next
    case bulk
    show ?thesis
    proof (cases null)
      case True
      with bulk read_null(1) [of rest] show ?thesis
        by (simp add: type_bytes ReadValue.simps null_bulk_def)
    next
      case False
      with bulk read_bulk [of s rest] show ?thesis
        by (simp add: type_bytes ReadValue.simps bulk_string_def)
    qed
  next
    case arr
    show ?thesis
    proof (cases null)
      case True
      with arr read_null(2) [of rest] show ?thesis
        by (simp add: type_bytes ReadValue.simps null_array_def)
    next
      case False
      have "read_elements (length arr) (concat (map encode_reply arr) @ rest) = Read arr rest"
        using Value.IH arr(7) by (intro read_elements_encode) (auto simp: list_all_iff)
      with False arr read_count [of "length arr"] show ?thesis
        by (simp add: type_bytes ReadValue.simps array_value_def)
    qed
  qed
qed

section \<open>Commands\<close>

text \<open>A command as the server reads it: an array of bulk strings.\<close>

definition command_value :: "string list \<Rightarrow> resp_value" where
  "command_value args = array_value (map bulk_string args)"

definition command_ok :: "string list \<Rightarrow> bool" where
  "command_ok args \<longleftrightarrow>
     int (length args) * 64 \<le> max_alloc \<and> (\<forall>arg \<in> set args. int (length arg) + 2 \<le> max_alloc)"

lemma encode_command: "encode_reply (command_value args) = WriteCommand args"
proof -
  have "concat (map (encode_reply \<circ> bulk_string) args) = bulk_args args"
    by (induction args) (simp_all add: bulk_string_def type_bytes)
  then show ?thesis
    by (simp add: command_value_def array_value_def WriteCommand_def) (simp add: type_bytes)
qed

lemma command_reply_ok: "command_ok args \<Longrightarrow> reply_ok (command_value args)"
  by (auto simp: command_ok_def command_value_def array_value_def list_all_iff bulk_string_def)

lemma strings_loop_bulk: "strings_loop (map bulk_string args) = Inr args"
  by (induction args) (simp_all add: AsString_def bulk_string_def type_bytes)

lemma command_strings: "AsStringSlice (command_value args) = Inr args"
  by (simp add: AsStringSlice_def AsArray_def command_value_def array_value_def strings_loop_bulk)

text \<open>Reading a command back: a value whose elements are strings.\<close>

definition read_command :: "string \<Rightarrow> (string list \<times> string) option" where
  "read_command inp =
     (case ReadValue inp of
        Read v rest \<Rightarrow> (case AsStringSlice v of Inr args \<Rightarrow> Some (args, rest) | Inl _ \<Rightarrow> None)
      | _ \<Rightarrow> None)"

interpretation commands: codec WriteCommand read_command command_ok
proof
  fix args rest assume "command_ok args"
  then show "read_command (WriteCommand args @ rest) = Some (args, rest)"
    using ReadValue_encode [OF command_reply_ok, of args rest]
    by (simp add: encode_command read_command_def command_strings)
qed

interpretation replies: codec encode_reply
  "\<lambda>inp. case ReadValue inp of Read v rest \<Rightarrow> Some (v, rest) | _ \<Rightarrow> None" reply_ok
  by unfold_locales (simp add: ReadValue_encode)

lemma map_loop_app:
  "map_loop (concat (map (\<lambda>(k, v). [bulk_string k, bulk_string v]) kvs)) m = Inr (foldl (\<lambda>m (k, v). m(k \<mapsto> v)) m kvs)"
  by (induction kvs arbitrary: m) (auto simp: AsString_def bulk_string_def type_bytes)

section \<open>Properties\<close>

text \<open>
  C17: Every reply a server may send is read back: simple strings, errors, integers of 64 bits,
  bulk strings with any bytes (CR and LF included), null replies and arrays nested to any depth,
  and the reader stops exactly at the end of the reply.
\<close>

theorem reply_roundtrip:
  assumes "reply_ok v"
  shows "ReadValue (encode_reply v @ rest) = Read v rest"
  using assms by (rule ReadValue_encode)

theorem reply_roundtrip_witness:
  "ReadValue (encode_reply (array_value [bulk_string [CHR 0x0D, CHR 0x0A], null_bulk,
       array_value [integer_value (- 5), simple_string ''OK'']]) @ ''+'')
     = Read (array_value [bulk_string [CHR 0x0D, CHR 0x0A], null_bulk,
       array_value [integer_value (- 5), simple_string ''OK'']]) ''+''"
  by (rule reply_roundtrip)
    (simp add: reply_values type_bytes max_alloc_def in_int64_def min_int64_def max_int64_def)

text \<open>
  What the reader returns depends on the bytes it takes only: they are a non-empty prefix of
  the stream, and whatever follows them is neither looked at nor lost, so replies are told apart
  on a pipelined connection.
\<close>

theorem read_value_framing:
  assumes "ReadValue inp = Read v rest"
  shows "\<exists>used. inp = used @ rest \<and> used \<noteq> [] \<and> (\<forall>more. ReadValue (used @ more) = Read v more)"
  using read_framed(1) [OF assms] by (simp add: takes_def)

theorem read_value_framing_witness:
  "\<exists>used. ''+a'' @ crlf @ ''xyz'' = used @ ''xyz'' \<and> used \<noteq> [] \<and>
     (\<forall>more. ReadValue (used @ more) = Read (simple_string ''a'') more)"
proof (rule read_value_framing)
  show "ReadValue (''+a'' @ crlf @ ''xyz'') = Read (simple_string ''a'') ''xyz''"
    by (simp add: ReadValue.simps type_bytes readSimpleString_def readLine_def)
qed

text \<open>
  Commands are self-delimiting: a sequence of commands written one after the other is read
  back command by command, for arguments with any bytes, and two different commands are never the
  same bytes, so no argument can pass for a further command.
\<close>

theorem commands_decode:
  assumes "\<forall>c \<in> set cmds. command_ok c"
  shows "dec_seq read_command (length cmds) (concat (map WriteCommand cmds) @ rest) = Some (cmds, rest) \<and>
    inj_on WriteCommand (set cmds)"
  using commands.dec_seq_enc [OF assms] commands.enc_inject assms by (auto intro: inj_onI)

theorem commands_decode_witness:
  "dec_seq read_command 2 (concat (map WriteCommand [[''GET'', crlf @ ''DEL''], [''PING'']]) @ [])
     = Some ([[''GET'', crlf @ ''DEL''], [''PING'']], [])"
proof -
  have "\<forall>c \<in> set [[''GET'', crlf @ ''DEL''], [''PING'']]. command_ok c"
    by (simp add: command_ok_def max_alloc_def)
  from commands_decode [OF this, of "[]"] show ?thesis
    by (simp only: list.size numeral_2_eq_2 add_Suc_right add_0_right)
qed

text \<open>
  The reader does not validate the lengths it is sent: a bulk string length below -1, or one
  the runtime cannot allocate, and a negative array count other than -1 make it panic instead of
  returning \<open>ErrInvalidResp\<close>.
\<close>

theorem reader_panics_on_lengths:
  assumes "in_int64 n" and "n < - 1 \<or> max_alloc < n"
  shows "ReadValue (t_BulkString # FormatInt n @ crlf @ rest) = ReadPanic \<and>
    ReadValue (t_Array # FormatInt n @ crlf @ rest) = ReadPanic"
proof -
  have num: "ParseInt (FormatInt n) = Some n" "n \<noteq> - 1"
    using assms by (simp_all add: max_alloc_def) auto
  have arr: "\<not> make_ok 64 n" using assms(2) by (auto simp: make_ok_def max_alloc_def)
  have bulk: "readBulkString (FormatInt n @ crlf @ rest) = ReadPanic"
  proof (cases "make_ok 1 (wrap64 (n + 2))")
    case True
    have "n = - 2"
    proof (rule ccontr)
      assume "n \<noteq> - 2"
      with assms(2) consider "n < - 2" | "max_alloc < n" "n + 2 \<le> max_int64" | "max_int64 < n + 2"
        by linarith
      then show False
      proof cases
        case 1
        with assms(1) have "wrap64 (n + 2) = n + 2" by (intro wrap64_id) (simp add: in_int64_def max_int64_def)
        with 1 True show False by (simp add: make_ok_def)
      next
        case 2
        with assms(1) have "wrap64 (n + 2) = n + 2" by (intro wrap64_id) (simp add: in_int64_def)
        with 2 True show False by (simp add: make_ok_def)
      next
        case 3
        with assms(1) have "n = max_int64 - 1 \<or> n = max_int64" by (auto simp: in_int64_def)
        with True show False by (auto simp: make_ok_def wrap64_def max_int64_def)
      qed
    qed
    then show ?thesis
      using readLine_number [of n rest] num
      by (simp add: readBulkString_def make_ok_def wrap64_def max_alloc_def read_full_def go_index_def)
  next
    case False
    with readLine_number [of n rest] num show ?thesis by (simp add: readBulkString_def)
  qed
  have "array_count (FormatInt n @ crlf @ rest) = ReadPanic"
    using readLine_number [of n rest] num arr by (simp add: array_count_def)
  with bulk show ?thesis by (simp add: ReadValue_Cons)
qed

theorem reader_panics_on_lengths_witness:
  "ReadValue (''$-2'' @ crlf) = ReadPanic \<and> ReadValue (''*-2'' @ crlf) = ReadPanic"
proof -
  have "in_int64 (- 2)" "(- 2 :: int) < - 1 \<or> max_alloc < (- 2 :: int)"
    by (simp_all add: in_int64_def min_int64_def max_int64_def)
  from reader_panics_on_lengths [OF this, of "[]"] show ?thesis
    by (simp add: type_bytes FormatInt_def nat_digits.simps digit_char_def)
qed

end
