(* ===== verification/Pool.thy ===== *)
theory Pool
  imports Resp "HOL-Library.Multiset"
begin

text \<open>
  The Redis client of \<open>redis/client.go\<close>: connections, the bounded pool and the client on top.
  A connection is an index into a heap, because the pool and its callers share it; its state is
  what was sent and the bytes the server still delivers before it closes.  The network is the
  parameter \<open>dial\<close>: the connection the n-th dial gives, or its failure.  The channel of idle
  connections is a queue.  A \<open>Get\<close> that would wait takes whether its context is done.
\<close>

section \<open>Configuration\<close>

record redis_config =
  rd_Addr :: string
  rd_Password :: string
  rd_DB :: int
  rd_DialTimeout :: duration
  rd_ReadTimeout :: duration
  rd_WriteTimeout :: duration
  rd_PoolSize :: int
  rd_MinIdleConns :: int

definition redis_DefaultConfig :: redis_config where
  "redis_DefaultConfig =
     \<lparr>rd_Addr = ''localhost:6379'', rd_Password = '''', rd_DB = 0,
      rd_DialTimeout = 5 * second, rd_ReadTimeout = 3 * second, rd_WriteTimeout = 3 * second,
      rd_PoolSize = 10, rd_MinIdleConns = 2\<rparr>"

datatype client_error =
    ErrClosed
  | ErrAuthFailed string
  | SelectFailed string
  | DialFailed
  | WriteFailed
  | ReadFailed resp_error
  | ContextDone
  | InitialConnFailed client_error
  | PingFailed string
  | BadReply resp_error
  | InvalidPubSub
  | CommandFailed string string
  | BadFormat string

section \<open>Connections\<close>

record redis_conn =
  cn_input :: string
  cn_sent :: string
  cn_broken :: bool
  cn_closed :: bool

definition conn_Do ::
    "string list \<Rightarrow> redis_conn \<Rightarrow> (client_error, resp_value) outcome \<times> redis_conn" where
  "conn_Do args c =
     (if cn_closed c then (Fails ErrClosed, c)
      else if cn_broken c then (Fails WriteFailed, c)
      else
        let c' = c\<lparr>cn_sent := cn_sent c @ WriteCommand args\<rparr>
        in case ReadValue (cn_input c') of
             Read v rest \<Rightarrow> (Returns v, c'\<lparr>cn_input := rest\<rparr>)
           | ReadErr e rest \<Rightarrow> (Fails (ReadFailed e), c'\<lparr>cn_input := rest\<rparr>)
           | ReadPanic \<Rightarrow> (Panics, c'))"

definition conn_Close :: "redis_conn \<Rightarrow> redis_conn" where
  "conn_Close c = c\<lparr>cn_closed := True\<rparr>"

definition conn_auth :: "string \<Rightarrow> redis_conn \<Rightarrow> (client_error, unit) outcome \<times> redis_conn" where
  "conn_auth password c =
     (case conn_Do [''AUTH'', password] c of
        (Returns resp, c') \<Rightarrow>
          (if v_IsError resp then Fails (ErrAuthFailed (v_Str resp)) else Returns (), c')
      | (Fails e, c') \<Rightarrow> (Fails e, c')
      | (Panics, c') \<Rightarrow> (Panics, c')
      | (Blocks, c') \<Rightarrow> (Blocks, c'))"

definition conn_selectDB :: "int \<Rightarrow> redis_conn \<Rightarrow> (client_error, unit) outcome \<times> redis_conn" where
  "conn_selectDB db c =
     (case conn_Do [''SELECT'', FormatInt db] c of
        (Returns resp, c') \<Rightarrow>
          (if v_IsError resp then Fails (SelectFailed (v_Str resp)) else Returns (), c')
      | (Fails e, c') \<Rightarrow> (Fails e, c')
      | (Panics, c') \<Rightarrow> (Panics, c')
      | (Blocks, c') \<Rightarrow> (Blocks, c'))"

text \<open>What \<open>newConn\<close> does after the dial: authenticate, select, and close on an error.\<close>

definition conn_setup :: "redis_config \<Rightarrow> redis_conn \<Rightarrow> (client_error, unit) outcome \<times> redis_conn" where
  "conn_setup cfg c =
     (case (if rd_Password cfg \<noteq> '''' then conn_auth (rd_Password cfg) c else (Returns (), c)) of
        (Returns _, c1) \<Rightarrow>
          (case (if rd_DB cfg \<noteq> 0 then conn_selectDB (rd_DB cfg) c1 else (Returns (), c1)) of
             (Fails e, c2) \<Rightarrow> (Fails e, conn_Close c2)
           | r \<Rightarrow> r)
      | (Fails e, c1) \<Rightarrow> (Fails e, conn_Close c1)
      | r \<Rightarrow> r)"

section \<open>The pool\<close>

record pool =
  po_cfg :: redis_config
  po_conns :: "nat list"
  po_closed :: bool
  po_created :: int
  po_heap :: "nat \<Rightarrow> redis_conn"
  po_dials :: nat

type_synonym network = "nat \<Rightarrow> redis_conn option"

definition newConn :: "network \<Rightarrow> pool \<Rightarrow> (client_error, nat) outcome \<times> pool" where
  "newConn dial p =
     (let n = po_dials p; p' = p\<lparr>po_dials := Suc n\<rparr>
      in case dial n of
           None \<Rightarrow> (Fails DialFailed, p')
         | Some c \<Rightarrow>
             (case conn_setup (po_cfg p) c of
                (Returns _, c') \<Rightarrow> (Returns n, p'\<lparr>po_heap := (po_heap p)(n := c')\<rparr>)
              | (Fails e, c') \<Rightarrow> (Fails e, p'\<lparr>po_heap := (po_heap p)(n := c')\<rparr>)
              | (Panics, c') \<Rightarrow> (Panics, p'\<lparr>po_heap := (po_heap p)(n := c')\<rparr>)
              | (Blocks, c') \<Rightarrow> (Blocks, p'\<lparr>po_heap := (po_heap p)(n := c')\<rparr>)))"

fun close_conns :: "nat list \<Rightarrow> (nat \<Rightarrow> redis_conn) \<Rightarrow> nat \<Rightarrow> redis_conn" where
  "close_conns [] h = h"
| "close_conns (i # is) h = close_conns is (h(i := conn_Close (h i)))"

definition pool_Close :: "pool \<Rightarrow> pool" where
  "pool_Close p =
     (if po_closed p then p
      else p\<lparr>po_closed := True, po_conns := [], po_heap := close_conns (po_conns p) (po_heap p)\<rparr>)"

fun idle_loop :: "network \<Rightarrow> nat \<Rightarrow> pool \<Rightarrow> (client_error, unit) outcome \<times> pool" where
  "idle_loop dial 0 p = (Returns (), p)"
| "idle_loop dial (Suc k) p =
     (case newConn dial p of
        (Returns i, p') \<Rightarrow>
          idle_loop dial k (p'\<lparr>po_conns := po_conns p' @ [i], po_created := po_created p' + 1\<rparr>)
      | (Fails e, p') \<Rightarrow> (Fails (InitialConnFailed e), pool_Close p')
      | (Panics, p') \<Rightarrow> (Panics, p')
      | (Blocks, p') \<Rightarrow> (Blocks, p'))"

definition no_conn :: redis_conn where
  "no_conn = \<lparr>cn_input = [], cn_sent = [], cn_broken = True, cn_closed = True\<rparr>"

definition NewPool :: "network \<Rightarrow> redis_config \<Rightarrow> (client_error, unit) outcome \<times> pool" where
  "NewPool dial cfg0 =
     (let cfg = (if rd_PoolSize cfg0 \<le> 0 then cfg0\<lparr>rd_PoolSize := 10\<rparr> else cfg0)
      in idle_loop dial (nat (min (rd_MinIdleConns cfg) (rd_PoolSize cfg)))
           \<lparr>po_cfg = cfg, po_conns = [], po_closed = False, po_created = 0,
            po_heap = (\<lambda>_. no_conn), po_dials = 0\<rparr>)"

definition pool_Get :: "network \<Rightarrow> bool \<Rightarrow> pool \<Rightarrow> (client_error, nat) outcome \<times> pool" where
  "pool_Get dial ctx_done p =
     (if po_closed p then (Fails ErrClosed, p)
      else
        (case po_conns p of
           i # rest \<Rightarrow>
             (let p' = p\<lparr>po_conns := rest\<rparr>
              in if cn_closed (po_heap p i) then newConn dial p' else (Returns i, p'))
         | [] \<Rightarrow>
             (if po_created p < rd_PoolSize (po_cfg p)
              then newConn dial (p\<lparr>po_created := po_created p + 1\<rparr>)
              else if ctx_done then (Fails ContextDone, p)
              else (Blocks, p))))"

definition pool_Put :: "nat \<Rightarrow> pool \<Rightarrow> pool" where
  "pool_Put i p =
     (if cn_closed (po_heap p i) then p
      else if po_closed p then p\<lparr>po_heap := (po_heap p)(i := conn_Close (po_heap p i))\<rparr>
      else if int (length (po_conns p)) < rd_PoolSize (po_cfg p)
      then p\<lparr>po_conns := po_conns p @ [i]\<rparr>
      else p\<lparr>po_heap := (po_heap p)(i := conn_Close (po_heap p i)),
             po_created := po_created p - 1\<rparr>)"

section \<open>The client\<close>

definition client_Do ::
    "network \<Rightarrow> bool \<Rightarrow> string list \<Rightarrow> pool \<Rightarrow> (client_error, resp_value) outcome \<times> pool" where
  "client_Do dial ctx_done args p =
     (case pool_Get dial ctx_done p of
        (Returns i, p1) \<Rightarrow>
          (let (r, c) = conn_Do args (po_heap p1 i)
           in (r, pool_Put i (p1\<lparr>po_heap := (po_heap p1)(i := c)\<rparr>)))
      | (Fails e, p1) \<Rightarrow> (Fails e, p1)
      | (Panics, p1) \<Rightarrow> (Panics, p1)
      | (Blocks, p1) \<Rightarrow> (Blocks, p1))"

definition client_Ping :: "network \<Rightarrow> bool \<Rightarrow> pool \<Rightarrow> (client_error, unit) outcome \<times> pool" where
  "client_Ping dial ctx_done p =
     (case client_Do dial ctx_done [''PING''] p of
        (Returns resp, p1) \<Rightarrow>
          (if v_IsError resp then Fails (PingFailed (v_Str resp)) else Returns (), p1)
      | (Fails e, p1) \<Rightarrow> (Fails e, p1)
      | (Panics, p1) \<Rightarrow> (Panics, p1)
      | (Blocks, p1) \<Rightarrow> (Blocks, p1))"

record pubsub_message =
  ps_Type :: string
  ps_Pattern :: string
  ps_Channel :: string
  ps_Data :: string

text \<open>The string of an element, the empty string when \<open>AsString\<close> gives an error that is dropped.\<close>

definition string_or_empty :: "resp_value \<Rightarrow> string" where
  "string_or_empty v = (case AsString v of Inr s \<Rightarrow> s | Inl _ \<Rightarrow> '''')"

definition pubsub_of_array :: "resp_value list \<Rightarrow> (client_error, pubsub_message) outcome" where
  "pubsub_of_array arr =
     (if length arr < 3 then Fails InvalidPubSub
      else
        let msgType = string_or_empty (arr ! 0);
            msg = \<lparr>ps_Type = msgType, ps_Pattern = '''', ps_Channel = '''', ps_Data = ''''\<rparr>
        in Returns
             (if msgType = ''message''
              then msg\<lparr>ps_Channel := string_or_empty (arr ! 1), ps_Data := string_or_empty (arr ! 2)\<rparr>
              else if msgType = ''pmessage''
              then (if length arr \<ge> 4
                    then msg\<lparr>ps_Pattern := string_or_empty (arr ! 1),
                             ps_Channel := string_or_empty (arr ! 2),
                             ps_Data := string_or_empty (arr ! 3)\<rparr>
                    else msg)
              else if msgType \<in> {''subscribe'', ''psubscribe'', ''unsubscribe'', ''punsubscribe''}
              then msg\<lparr>ps_Channel := string_or_empty (arr ! 1)\<rparr>
              else msg))"

text \<open>The connection it took is never given back, whatever it read.\<close>

definition ReadPubSubMessage ::
    "network \<Rightarrow> bool \<Rightarrow> pool \<Rightarrow> (client_error, pubsub_message) outcome \<times> pool" where
  "ReadPubSubMessage dial ctx_done p =
     (case pool_Get dial ctx_done p of
        (Returns i, p1) \<Rightarrow>
          (let c = po_heap p1 i
           in case ReadValue (cn_input c) of
                Read resp rest \<Rightarrow>
                  (let p2 = p1\<lparr>po_heap := (po_heap p1)(i := c\<lparr>cn_input := rest\<rparr>)\<rparr>
                   in case AsArray resp of
                        Inl e \<Rightarrow> (Fails (BadReply e), p2)
                      | Inr arr \<Rightarrow> (pubsub_of_array arr, p2))
              | ReadErr e rest \<Rightarrow>
                  (Fails (ReadFailed e),
                   p1\<lparr>po_heap := (po_heap p1)(i := conn_Close (c\<lparr>cn_input := rest\<rparr>))\<rparr>)
              | ReadPanic \<Rightarrow> (Panics, p1))
      | (Fails e, p1) \<Rightarrow> (Fails e, p1)
      | (Panics, p1) \<Rightarrow> (Panics, p1)
      | (Blocks, p1) \<Rightarrow> (Blocks, p1))"

definition GetDedicatedConn :: "network \<Rightarrow> bool \<Rightarrow> pool \<Rightarrow> (client_error, nat) outcome \<times> pool" where
  "GetDedicatedConn dial ctx_done p = pool_Get dial ctx_done p"

section \<open>Ownership\<close>

text \<open>
  \<open>owns p out\<close>: the idle queue and the connections \<open>out\<close> outside it are pairwise different, no
  open connection is anywhere else, and their number is covered by \<open>created\<close>, which never
  exceeds the pool size.  \<open>spare\<close> allows one connection less.
\<close>

definition owns :: "pool \<Rightarrow> nat list \<Rightarrow> bool" where
  "owns p out \<longleftrightarrow>
     distinct (po_conns p @ out) \<and> (\<forall>i \<in> set (po_conns p @ out). i < po_dials p) \<and>
     (\<forall>i. \<not> cn_closed (po_heap p i) \<longrightarrow> i \<in> set (po_conns p @ out)) \<and>
     int (length (po_conns p @ out)) \<le> po_created p \<and>
     po_created p \<le> rd_PoolSize (po_cfg p) \<and> 0 < rd_PoolSize (po_cfg p)"

definition spare :: "pool \<Rightarrow> nat list \<Rightarrow> bool" where
  "spare p out \<longleftrightarrow> owns p out \<and> int (length (po_conns p @ out)) < po_created p"

lemma owns_perm: "mset out = mset out' \<Longrightarrow> owns p out \<longleftrightarrow> owns p out'"
proof -
  assume m: "mset out = mset out'"
  then have "set out = set out'" "length out = length out'" "distinct out = distinct out'"
    by (auto dest: mset_eq_setD mset_eq_length mset_eq_imp_distinct_iff)
  then show ?thesis by (simp add: owns_def)
qed

lemma conn_Do_no_block [simp]: "fst (conn_Do args c) \<noteq> Blocks"
  by (auto simp: conn_Do_def Let_def split: reading.split)

lemma conn_Do_closed [simp]: "cn_closed (snd (conn_Do args c)) = cn_closed c"
  by (auto simp: conn_Do_def Let_def split: reading.split)

lemma conn_setup_closed: "conn_setup cfg c = (Fails e, c') \<Longrightarrow> cn_closed c'"
  by (auto simp: conn_setup_def conn_Close_def split: prod.splits outcome.splits if_splits)

lemma conn_login_no_block:
  "conn_auth pw c \<noteq> (Blocks, c')" "conn_selectDB db c \<noteq> (Blocks, c')"
  using conn_Do_no_block [of "[''AUTH'', pw]" c] conn_Do_no_block [of "[''SELECT'', FormatInt db]" c]
  by (auto simp: conn_auth_def conn_selectDB_def simp del: conn_Do_no_block
      split: prod.splits outcome.splits)

lemma conn_setup_no_block: "conn_setup cfg c \<noteq> (Blocks, c')"
  by (auto simp: conn_setup_def conn_login_no_block split: prod.splits outcome.splits if_splits)

text \<open>The connections that leave a call: the result of a return, the abandoned one of a panic.\<close>

fun given :: "('e, nat) outcome \<Rightarrow> nat \<Rightarrow> nat list" where
  "given (Returns i) n = [i]"
| "given Panics n = [n]"
| "given _ n = []"

lemma newConn_owns:
  assumes "spare p out"
  shows "owns (snd (newConn dial p)) (given (fst (newConn dial p)) (po_dials p) @ out) \<and>
    po_conns (snd (newConn dial p)) = po_conns p \<and> po_cfg (snd (newConn dial p)) = po_cfg p \<and>
    po_created (snd (newConn dial p)) = po_created p \<and> po_closed (snd (newConn dial p)) = po_closed p"
proof (cases "dial (po_dials p)")
  case None
  with assms show ?thesis
    by (auto simp: newConn_def spare_def owns_def Let_def less_Suc_eq)
next
  case (Some c)
  have fresh: "po_dials p \<notin> set (po_conns p @ out)" using assms by (auto simp: spare_def owns_def)
  obtain r c' where su: "conn_setup (po_cfg p) c = (r, c')" by (cases "conn_setup (po_cfg p) c")
  show ?thesis
  proof (cases r)
    case (Fails e)
    with su conn_setup_closed [of "po_cfg p" c e c'] fresh assms show ?thesis
      by (auto simp: newConn_def Some spare_def owns_def Let_def less_Suc_eq)
  next
    case Blocks
    with su conn_setup_no_block show ?thesis by blast
  qed (use su fresh assms in \<open>auto simp: newConn_def Some spare_def owns_def Let_def less_Suc_eq\<close>)
qed

lemma pool_Get_owns:
  assumes "owns p out"
  shows "owns (snd (pool_Get dial ctx p)) (given (fst (pool_Get dial ctx p)) (po_dials p) @ out) \<and>
    po_cfg (snd (pool_Get dial ctx p)) = po_cfg p"
proof (cases "po_closed p")
  case True
  with assms show ?thesis by (simp add: pool_Get_def)
next
  case open_pool: False
  show ?thesis
  proof (cases "po_conns p")
    case Nil
    show ?thesis
    proof (cases "po_created p < rd_PoolSize (po_cfg p)")
      case True
      with assms have "spare (p\<lparr>po_created := po_created p + 1\<rparr>) out"
        by (auto simp: spare_def owns_def)
      from newConn_owns [OF this, of dial] open_pool Nil True show ?thesis
        by (simp add: pool_Get_def)
    next
      case False
      with assms open_pool Nil show ?thesis by (simp add: pool_Get_def)
    qed
  next
    case (Cons i rest)
    show ?thesis
    proof (cases "cn_closed (po_heap p i)")
      case True
      have "spare (p\<lparr>po_conns := rest\<rparr>) out"
        using assms Cons True by (auto simp: spare_def owns_def)
      from newConn_owns [OF this, of dial] open_pool Cons True show ?thesis
        by (simp add: pool_Get_def)
    next
      case False
      with assms open_pool Cons show ?thesis
        by (auto simp: pool_Get_def owns_def)
    qed
  qed
qed

lemma pool_Put_owns:
  assumes "owns p (i # out)"
  shows "owns (pool_Put i p) out \<and> po_cfg (pool_Put i p) = po_cfg p \<and> po_dials (pool_Put i p) = po_dials p"
proof -
  have "int (length (po_conns p)) < rd_PoolSize (po_cfg p)"
    using assms by (auto simp: owns_def)
  with assms show ?thesis
    by (auto simp: pool_Put_def owns_def conn_Close_def)
qed

lemma heap_update_owns:
  assumes "owns p out" and "i \<in> set (po_conns p @ out)"
  shows "owns (p\<lparr>po_heap := (po_heap p)(i := c)\<rparr>) out"
  using assms by (auto simp: owns_def)

lemma close_conns_closed: "cn_closed (close_conns is h j) \<longleftrightarrow> j \<in> set is \<or> cn_closed (h j)"
  by (induction "is" arbitrary: h) (auto simp: conn_Close_def)

lemma pool_Close_owns: "owns p out \<Longrightarrow> owns (pool_Close p) out \<and> po_cfg (pool_Close p) = po_cfg p"
  by (auto simp: pool_Close_def owns_def close_conns_closed)

lemma newConn_created:
  "po_created (snd (newConn dial p)) = po_created p \<and> po_cfg (snd (newConn dial p)) = po_cfg p"
  by (auto simp: newConn_def Let_def split: option.split prod.split outcome.split)

lemma newConn_created_update:
  "newConn dial (p\<lparr>po_created := n\<rparr>) = (fst (newConn dial p), (snd (newConn dial p))\<lparr>po_created := n\<rparr>)"
  by (auto simp: newConn_def Let_def split: option.split prod.split outcome.split)

lemma idle_loop_owns:
  "owns p [] \<Longrightarrow> po_created p + int k \<le> rd_PoolSize (po_cfg p) \<Longrightarrow>
   idle_loop dial k p = (Returns (), p') \<Longrightarrow> owns p' [] \<and> po_cfg p' = po_cfg p"
proof (induction k arbitrary: p)
  case 0
  then show ?case by auto
next
  case (Suc k)
  let ?q = "p\<lparr>po_created := po_created p + 1\<rparr>"
  have "spare ?q []" using Suc.prems by (auto simp: spare_def owns_def)
  note new = newConn_owns [OF this, of dial]
  from Suc.prems(3) obtain i p1 where p1: "newConn dial p = (Returns i, p1)"
      "idle_loop dial k (p1\<lparr>po_conns := po_conns p1 @ [i], po_created := po_created p1 + 1\<rparr>) =
        (Returns (), p')"
    by (auto split: prod.splits outcome.splits)
  have cr: "po_created p1 = po_created p" "po_cfg p1 = po_cfg p"
    using newConn_created [of dial p] by (simp_all add: p1)
  have "owns (p1\<lparr>po_created := po_created p + 1\<rparr>) [i]"
    using new by (simp add: newConn_created_update p1)
  then have "owns (p1\<lparr>po_conns := po_conns p1 @ [i], po_created := po_created p1 + 1\<rparr>) []"
    using cr by (auto simp: owns_def)
  from Suc.IH [OF this _ p1(2)] Suc.prems(2) cr show ?case by simp
qed

lemma NewPool_owns:
  assumes "NewPool dial cfg = (Returns (), p)"
  shows "owns p [] \<and> rd_PoolSize (po_cfg p) = (if rd_PoolSize cfg \<le> 0 then 10 else rd_PoolSize cfg)"
proof -
  let ?cfg = "if rd_PoolSize cfg \<le> 0 then cfg\<lparr>rd_PoolSize := 10\<rparr> else cfg"
  let ?p0 = "\<lparr>po_cfg = ?cfg, po_conns = [], po_closed = False, po_created = 0,
            po_heap = (\<lambda>_. no_conn), po_dials = 0\<rparr>"
  have "owns ?p0 []" by (auto simp: owns_def no_conn_def)
  from idle_loop_owns [OF this, of "nat (min (rd_MinIdleConns ?cfg) (rd_PoolSize ?cfg))" dial p] assms
  show ?thesis by (auto simp: NewPool_def Let_def split: if_splits)
qed

section \<open>The pool and its callers as a machine\<close>

text \<open>
  The state: the pool, the connections callers hold, and the ones nobody can give back any more.
  A caller only puts back, uses or closes a connection it holds.
\<close>

datatype pool_event =
    EvGet bool
  | EvPut nat
  | EvDo bool "string list"
  | EvUse nat "string list"
  | EvReadPubSub bool
  | EvConnClose nat
  | EvPoolClose

type_synonym pool_state = "pool \<times> nat list \<times> nat list"

text \<open>The connection \<open>pool_Get\<close> took, when the call that contains it does not give it back.\<close>

definition abandoned :: "network \<Rightarrow> bool \<Rightarrow> pool \<Rightarrow> nat list" where
  "abandoned dial ctx p = given (fst (pool_Get dial ctx p)) (po_dials p)"

fun pool_step :: "network \<Rightarrow> pool_state \<Rightarrow> pool_event \<Rightarrow> pool_state" where
  "pool_step dial (p, held, lost) (EvGet ctx) =
     (case pool_Get dial ctx p of
        (Returns i, p') \<Rightarrow> (p', i # held, lost)
      | (r, p') \<Rightarrow> (p', held, given r (po_dials p) @ lost))"
| "pool_step dial (p, held, lost) (EvPut i) =
     (if i \<in> set held then (pool_Put i p, remove1 i held, lost) else (p, held, lost))"
| "pool_step dial (p, held, lost) (EvDo ctx args) =
     (case pool_Get dial ctx p of
        (Returns _, _) \<Rightarrow> (snd (client_Do dial ctx args p), held, lost)
      | (r, p') \<Rightarrow> (snd (client_Do dial ctx args p), held, given r (po_dials p) @ lost))"
| "pool_step dial (p, held, lost) (EvUse i args) =
     (if i \<in> set held
      then (p\<lparr>po_heap := (po_heap p)(i := snd (conn_Do args (po_heap p i)))\<rparr>, held, lost)
      else (p, held, lost))"
| "pool_step dial (p, held, lost) (EvReadPubSub ctx) =
     (snd (ReadPubSubMessage dial ctx p), held, abandoned dial ctx p @ lost)"
| "pool_step dial (p, held, lost) (EvConnClose i) =
     (if i \<in> set held
      then (p\<lparr>po_heap := (po_heap p)(i := conn_Close (po_heap p i))\<rparr>, held, lost)
      else (p, held, lost))"
| "pool_step dial (p, held, lost) EvPoolClose = (pool_Close p, held, lost)"

definition pool_inv :: "redis_config \<Rightarrow> pool_state \<Rightarrow> bool" where
  "pool_inv cfg = (\<lambda>(p, held, lost). owns p (held @ lost) \<and> po_cfg p = cfg)"

lemma owns_Cons_mid: "owns p (i # held @ lost) \<longleftrightarrow> owns p (held @ i # lost)"
  by (rule owns_perm) simp

lemma owns_take: "i \<in> set held \<Longrightarrow> owns p (held @ lost) \<longleftrightarrow> owns p (i # remove1 i held @ lost)"
  by (rule owns_perm) simp

lemma client_Do_owns:
  assumes "owns p out" and "pool_Get dial ctx p = (Returns i, p1)"
  shows "owns (snd (client_Do dial ctx args p)) out \<and> po_cfg (snd (client_Do dial ctx args p)) = po_cfg p"
proof -
  have p1: "owns p1 (i # out)" "po_cfg p1 = po_cfg p"
    using pool_Get_owns [OF assms(1), of dial ctx] by (simp_all add: assms(2))
  then have "owns (p1\<lparr>po_heap := (po_heap p1)(i := c)\<rparr>) (i # out)" for c
    by (intro heap_update_owns) auto
  from pool_Put_owns [OF this] show ?thesis
    by (simp add: client_Do_def assms(2) p1 split: prod.split)
qed

lemma ReadPubSub_owns:
  assumes "owns p out"
  shows "owns (snd (ReadPubSubMessage dial ctx p)) (abandoned dial ctx p @ out) \<and>
    po_cfg (snd (ReadPubSubMessage dial ctx p)) = po_cfg p"
proof (cases "pool_Get dial ctx p")
  case (Pair r p1)
  have p1: "owns p1 (abandoned dial ctx p @ out)" "po_cfg p1 = po_cfg p"
    using pool_Get_owns [OF assms, of dial ctx] by (simp_all add: Pair abandoned_def)
  show ?thesis
  proof (cases r)
    case (Returns i)
    have "owns (p1\<lparr>po_heap := (po_heap p1)(i := c)\<rparr>) (abandoned dial ctx p @ out)" for c
      by (rule heap_update_owns [OF p1(1)]) (simp add: abandoned_def Pair Returns)
    with p1 show ?thesis
      by (simp add: ReadPubSubMessage_def Pair Returns Let_def split: reading.split sum.split)
  qed (use p1 in \<open>simp_all add: ReadPubSubMessage_def Pair\<close>)
qed

lemma pool_step_inv: "pool_inv cfg s \<Longrightarrow> pool_inv cfg (pool_step dial s ev)"
proof -
  obtain p held lost where s: "s = (p, held, lost)" by (cases s)
  assume "pool_inv cfg s"
  then have inv: "owns p (held @ lost)" "po_cfg p = cfg" by (simp_all add: pool_inv_def s)
  have get: "owns p1 (given r (po_dials p) @ held @ lost) \<and> po_cfg p1 = cfg"
    if "pool_Get dial ctx p = (r, p1)" for ctx r p1
    using pool_Get_owns [OF inv(1), of dial ctx] inv(2) that by simp
  have fail: "snd (client_Do dial ctx args p) = p1"
    if "pool_Get dial ctx p = (r, p1)" "\<nexists>i. r = Returns i" for ctx args r p1
    using that by (cases r) (simp_all add: client_Do_def)
  show ?thesis
  proof (cases ev)
    case (EvGet ctx)
    obtain r p1 where r: "pool_Get dial ctx p = (r, p1)" by (cases "pool_Get dial ctx p")
    from get [OF r] show ?thesis
      by (cases r) (simp_all add: EvGet s pool_inv_def r owns_Cons_mid [symmetric])
  next
    case (EvPut i)
    with inv pool_Put_owns [of p i "remove1 i held @ lost"] show ?thesis
      by (auto simp: s pool_inv_def owns_take [of i held])
  next
    case (EvDo ctx args)
    obtain r p1 where r: "pool_Get dial ctx p = (r, p1)" by (cases "pool_Get dial ctx p")
    show ?thesis
    proof (cases r)
      case (Returns i)
      with client_Do_owns [OF inv(1), of dial ctx i p1 args] r inv(2) show ?thesis
        by (simp add: EvDo s pool_inv_def)
    qed (use get [OF r] fail [OF r, of args] r in
        \<open>simp_all add: EvDo s pool_inv_def owns_Cons_mid [symmetric]\<close>)
  next
    case (EvUse i args)
    with inv show ?thesis by (auto simp: s pool_inv_def intro!: heap_update_owns)
  next
    case (EvReadPubSub ctx)
    have "owns q (abandoned dial ctx p @ held @ lost) \<longleftrightarrow> owns q (held @ abandoned dial ctx p @ lost)" for q
      by (rule owns_perm) simp
    with ReadPubSub_owns [OF inv(1), of dial ctx] inv(2) show ?thesis
      by (simp add: EvReadPubSub s pool_inv_def)
  next
    case (EvConnClose i)
    with inv show ?thesis by (auto simp: s pool_inv_def intro!: heap_update_owns)
  next
    case EvPoolClose
    with inv pool_Close_owns [OF inv(1)] show ?thesis by (simp add: s pool_inv_def)
  qed
qed

interpretation pool: step_machine "pool_step dial" "pool_inv cfg" for dial cfg
  by unfold_locales (rule pool_step_inv)

lemma owns_open_bound: "owns p out \<Longrightarrow> int (card {i. \<not> cn_closed (po_heap p i)}) \<le> rd_PoolSize (po_cfg p)"
proof -
  assume p: "owns p out"
  then have "{i. \<not> cn_closed (po_heap p i)} \<subseteq> set (po_conns p @ out)" by (auto simp: owns_def)
  then have "card {i. \<not> cn_closed (po_heap p i)} \<le> length (po_conns p @ out)"
    by (meson List.finite_set card_length card_mono order_trans)
  also have "int (length (po_conns p @ out)) \<le> rd_PoolSize (po_cfg p)"
    using p by (auto simp: owns_def)
  finally show ?thesis by simp
qed

section \<open>Properties\<close>

text \<open>
  C11: Whatever callers do with a new pool (get, put back, use, close connections, run commands,
  read subscriptions, close the pool), no connection is idle twice or both idle and held, so two
  callers never share one, and at most \<open>PoolSize\<close> connections to the server are open.
\<close>

theorem pool_safety:
  assumes "NewPool dial cfg = (Returns (), p0)"
    and "foldl (pool_step dial) (p0, [], []) es = (p, held, lost)"
  shows "distinct (po_conns p @ held) \<and>
    int (card {i. \<not> cn_closed (po_heap p i)}) \<le>
      (if rd_PoolSize cfg \<le> 0 then 10 else rd_PoolSize cfg)"
proof -
  have "pool_inv (po_cfg p0) (p0, [], [])"
    using NewPool_owns [OF assms(1)] by (simp add: pool_inv_def)
  from pool.run_from_inv [OF this, of dial es] have "owns p (held @ lost)" "po_cfg p = po_cfg p0"
    by (simp_all add: assms(2) pool_inv_def)
  with owns_open_bound [of p "held @ lost"] NewPool_owns [OF assms(1)] show ?thesis
    by (auto simp: owns_def)
qed

definition fresh_conn :: "string \<Rightarrow> redis_conn" where
  "fresh_conn inp = \<lparr>cn_input = inp, cn_sent = [], cn_broken = False, cn_closed = False\<rparr>"

theorem pool_safety_witness:
  "\<exists>p held lost. foldl (pool_step (\<lambda>_. Some (fresh_conn [])))
       (snd (NewPool (\<lambda>_. Some (fresh_conn [])) (redis_DefaultConfig\<lparr>rd_PoolSize := 1, rd_MinIdleConns := 0\<rparr>)),
        [], []) [EvGet True, EvGet True] = (p, held, lost) \<and>
     held = [0] \<and> distinct (po_conns p @ held) \<and> int (card {i. \<not> cn_closed (po_heap p i)}) \<le> 1"
proof -
  let ?dial = "\<lambda>_. Some (fresh_conn [])" and ?cfg = "redis_DefaultConfig\<lparr>rd_PoolSize := 1, rd_MinIdleConns := 0\<rparr>"
  have new: "NewPool ?dial ?cfg = (Returns (), snd (NewPool ?dial ?cfg))"
    by (simp add: NewPool_def redis_DefaultConfig_def)
  obtain p held lost where run: "foldl (pool_step ?dial) (snd (NewPool ?dial ?cfg), [], [])
      [EvGet True, EvGet True] = (p, held, lost)"
    by (metis prod.exhaust)
  have "held = [0]"
    using run by (auto simp: NewPool_def redis_DefaultConfig_def pool_Get_def newConn_def Let_def
        conn_setup_def)
  with pool_safety [OF new run] run show ?thesis by (auto simp: redis_DefaultConfig_def)
qed

text \<open>
  C23: A command gets its own reply: on a connection whose next bytes are the encoded reply,
  \<open>Client.Do\<close> sends exactly the encoded command, returns exactly that reply, and puts the
  connection back positioned at the byte after it.
\<close>

theorem do_returns_reply:
  assumes "pool_Get dial ctx p = (Returns i, p1)"
    and "\<not> cn_closed (po_heap p1 i)" and "\<not> cn_broken (po_heap p1 i)"
    and "cn_input (po_heap p1 i) = encode_reply v @ rest" and "reply_ok v"
  shows "client_Do dial ctx args p =
    (Returns v, pool_Put i (p1\<lparr>po_heap := (po_heap p1)
       (i := (po_heap p1 i)\<lparr>cn_sent := cn_sent (po_heap p1 i) @ WriteCommand args, cn_input := rest\<rparr>)\<rparr>))"
  using assms ReadValue_encode [OF assms(5), of rest]
  by (simp add: client_Do_def conn_Do_def Let_def)

definition sample_pool :: "nat list \<Rightarrow> (nat \<Rightarrow> redis_conn) \<Rightarrow> pool" where
  "sample_pool q h = \<lparr>po_cfg = redis_DefaultConfig, po_conns = q, po_closed = False,
     po_created = int (length q), po_heap = h, po_dials = length q\<rparr>"

theorem do_returns_reply_witness:
  "fst (client_Do (\<lambda>_. None) False [''GET'', ''k'']
      (sample_pool [0] (\<lambda>_. fresh_conn (encode_reply (bulk_string ''v'') @ ''+'')))) = Returns (bulk_string ''v'')"
proof -
  let ?p = "sample_pool [0] (\<lambda>_. fresh_conn (encode_reply (bulk_string ''v'') @ ''+''))"
  have "pool_Get (\<lambda>_. None) False ?p = (Returns 0, ?p\<lparr>po_conns := []\<rparr>)"
    by (simp add: pool_Get_def sample_pool_def fresh_conn_def)
  from do_returns_reply [OF this, of "bulk_string ''v''" "''+''" "[''GET'', ''k'']"] show ?thesis
    by (simp add: sample_pool_def fresh_conn_def bulk_string_def type_bytes max_alloc_def)
qed

text \<open>The pool after the server has gone away: idle connections that deliver nothing more.\<close>

definition dead_pool :: "pool \<Rightarrow> bool" where
  "dead_pool p \<longleftrightarrow>
     \<not> po_closed p \<and> po_conns p \<noteq> [] \<and> int (length (po_conns p)) \<le> rd_PoolSize (po_cfg p) \<and>
     (\<forall>i \<in> set (po_conns p). \<not> cn_closed (po_heap p i) \<and> cn_input (po_heap p i) = [])"

lemma dead_conn_Do:
  "cn_input c = [] \<Longrightarrow> \<not> cn_closed c \<Longrightarrow>
   \<exists>e c'. conn_Do args c = (Fails e, c') \<and> cn_input c' = [] \<and> \<not> cn_closed c'"
  by (simp add: conn_Do_def ReadValue.simps)

lemma dead_pool_Do:
  assumes "dead_pool p"
  shows "\<exists>e p'. client_Do dial ctx args p = (Fails e, p') \<and> dead_pool p' \<and> po_dials p' = po_dials p"
proof -
  obtain i q where q: "po_conns p = i # q" using assms by (cases "po_conns p") (auto simp: dead_pool_def)
  with assms have i: "\<not> cn_closed (po_heap p i)" "cn_input (po_heap p i) = []"
    by (auto simp: dead_pool_def)
  then obtain e c' where c: "conn_Do args (po_heap p i) = (Fails e, c')" "cn_input c' = []" "\<not> cn_closed c'"
    using dead_conn_Do by blast
  have "pool_Get dial ctx p = (Returns i, p\<lparr>po_conns := q\<rparr>)"
    using assms q i by (simp add: pool_Get_def dead_pool_def)
  with c assms q show ?thesis
    by (auto simp: client_Do_def pool_Put_def dead_pool_def)
qed

text \<open>
  A connection whose server has gone away is never replaced: \<open>Conn.Do\<close> does not close it on
  a read or write error, so \<open>Client.Do\<close> puts it back, and once every idle connection is dead,
  every further command fails, however often it is retried and although the server may be back:
  no new connection is ever dialled.
\<close>

theorem dead_connections_are_reused:
  assumes "dead_pool p"
  shows "let p' = foldl (\<lambda>p args. snd (client_Do dial ctx args p)) p cmds
    in (\<exists>e. fst (client_Do dial ctx args p') = Fails e) \<and> po_dials p' = po_dials p"
proof -
  have "dead_pool (foldl (\<lambda>p args. snd (client_Do dial ctx args p)) p cmds) \<and>
      po_dials (foldl (\<lambda>p args. snd (client_Do dial ctx args p)) p cmds) = po_dials p"
  proof (induction cmds rule: rev_induct)
    case Nil
    then show ?case using assms by simp
  next
    case (snoc c cmds)
    then show ?case
      using dead_pool_Do [of "foldl (\<lambda>p args. snd (client_Do dial ctx args p)) p cmds" dial ctx c] by auto
  qed
  then show ?thesis
    using dead_pool_Do [of "foldl (\<lambda>p args. snd (client_Do dial ctx args p)) p cmds" dial ctx args]
    by (auto simp: Let_def)
qed

theorem dead_connections_are_reused_witness:
  "let p = sample_pool [0, 1] (\<lambda>_. fresh_conn []);
       p' = foldl (\<lambda>p args. snd (client_Do (\<lambda>_. Some (fresh_conn (''+OK'' @ crlf))) True args p)) p [[''PING'']]
   in \<exists>e. fst (client_Do (\<lambda>_. Some (fresh_conn (''+OK'' @ crlf))) True [''PING''] p') = Fails e"
proof -
  have "dead_pool (sample_pool [0, 1] (\<lambda>_. fresh_conn []))"
    by (simp add: dead_pool_def sample_pool_def fresh_conn_def redis_DefaultConfig_def)
  from dead_connections_are_reused [OF this, of "\<lambda>_. Some (fresh_conn (''+OK'' @ crlf))" True
      "[[''PING'']]" "[''PING'']"]
  show ?thesis by (simp add: Let_def)
qed

lemma failed_gets:
  assumes "po_conns p = []" and "\<not> po_closed p" and "po_created p + int k \<le> rd_PoolSize (po_cfg p)"
  shows "\<exists>n. ((\<lambda>p. snd (pool_Get (\<lambda>_. None) ctx p)) ^^ k) p =
    p\<lparr>po_created := po_created p + int k, po_dials := n\<rparr>"
  using assms
proof (induction k)
  case 0
  show ?case by (rule exI [of _ "po_dials p"]) simp
next
  case (Suc k)
  then obtain n where "((\<lambda>p. snd (pool_Get (\<lambda>_. None) ctx p)) ^^ k) p =
      p\<lparr>po_created := po_created p + int k, po_dials := n\<rparr>"
    by auto
  with Suc.prems show ?case
    by (intro exI [of _ "Suc n"]) (simp add: pool_Get_def newConn_def Let_def add.assoc)
qed

text \<open>
  A failed dial is counted for ever: on a pool without idle connections, after as many failed
  \<open>Get\<close>s as the pool has places left, the pool is exhausted although it has no connection at all:
  every later \<open>Get\<close> waits until its context ends, even when the server answers again.
\<close>

theorem failed_dials_exhaust_pool:
  assumes "po_conns p = []" and "\<not> po_closed p" and "po_created p \<le> rd_PoolSize (po_cfg p)"
  shows "let k = nat (rd_PoolSize (po_cfg p) - po_created p);
             p' = ((\<lambda>p. snd (pool_Get (\<lambda>_. None) ctx0 p)) ^^ k) p
         in pool_Get dial ctx p' = (if ctx then Fails ContextDone else Blocks, p')"
proof -
  from failed_gets [OF assms(1,2), of "nat (rd_PoolSize (po_cfg p) - po_created p)" ctx0] assms(3)
  obtain n where "((\<lambda>p. snd (pool_Get (\<lambda>_. None) ctx0 p)) ^^ nat (rd_PoolSize (po_cfg p) - po_created p)) p =
      p\<lparr>po_created := rd_PoolSize (po_cfg p), po_dials := n\<rparr>"
    by auto
  with assms(1,2) show ?thesis by (simp add: Let_def pool_Get_def)
qed

theorem failed_dials_exhaust_pool_witness:
  "let p' = ((\<lambda>p. snd (pool_Get (\<lambda>_. None) True p)) ^^ 10) (sample_pool [] (\<lambda>_. no_conn))
   in pool_Get (\<lambda>_. Some (fresh_conn [])) False p' = (Blocks, p')"
  using failed_dials_exhaust_pool [of "sample_pool [] (\<lambda>_. no_conn)" True "\<lambda>_. Some (fresh_conn [])" False]
  by (simp add: sample_pool_def redis_DefaultConfig_def Let_def)

text \<open>
  A subscription is not read where it was made: with two idle connections, as the default
  configuration opens, the connection \<open>Client.Do\<close> sent PSUBSCRIBE on goes to the end of the
  queue, \<open>ReadPubSubMessage\<close> reads another one, and never gives that one back.
\<close>

theorem pubsub_reads_other_connection:
  assumes "\<not> po_closed p" and "po_conns p = i # j # q" and "distinct (po_conns p)"
    and "\<not> cn_closed (po_heap p i)" and "\<not> cn_closed (po_heap p j)"
    and "int (length (po_conns p)) \<le> rd_PoolSize (po_cfg p)"
  shows "let p1 = snd (client_Do dial ctx [''PSUBSCRIBE'', pattern] p);
             p2 = snd (ReadPubSubMessage dial ctx p1)
    in po_conns p1 = j # q @ [i] \<and> po_conns p2 = q @ [i] \<and>
       cn_input (po_heap p2 i) = cn_input (po_heap p1 i) \<and> po_heap p1 j = po_heap p j"
proof -
  obtain r c where c: "conn_Do [''PSUBSCRIBE'', pattern] (po_heap p i) = (r, c)"
    by (cases "conn_Do [''PSUBSCRIBE'', pattern] (po_heap p i)")
  have closed: "\<not> cn_closed c"
    using conn_Do_closed [of "[''PSUBSCRIBE'', pattern]" "po_heap p i"] assms(4) by (simp add: c)
  have ij: "j \<noteq> i" using assms(2,3) by auto
  let ?p1 = "p\<lparr>po_conns := j # q @ [i], po_heap := (po_heap p)(i := c)\<rparr>"
  have p1: "snd (client_Do dial ctx [''PSUBSCRIBE'', pattern] p) = ?p1"
    using assms closed c by (simp add: client_Do_def pool_Get_def pool_Put_def)
  have "pool_Get dial ctx ?p1 = (Returns j, ?p1\<lparr>po_conns := q @ [i]\<rparr>)"
    using assms ij by (simp add: pool_Get_def)
  with p1 ij show ?thesis
    by (auto simp: Let_def ReadPubSubMessage_def split: reading.split sum.split)
qed

theorem pubsub_reads_other_connection_witness:
  "let p1 = snd (client_Do (\<lambda>_. None) True [''PSUBSCRIBE'', ''*'']
              (sample_pool [0, 1] (\<lambda>_. fresh_conn [])));
       p2 = snd (ReadPubSubMessage (\<lambda>_. None) True p1)
   in po_conns p1 = [1, 0] \<and> po_conns p2 = [0]"
  using pubsub_reads_other_connection [of "sample_pool [0, 1] (\<lambda>_. fresh_conn [])" 0 1 "[]" "\<lambda>_. None" True "''*''"]
  by (simp add: sample_pool_def fresh_conn_def redis_DefaultConfig_def Let_def)

end
