(* ===== verification/Stream.thy ===== *)
theory Stream
  imports Pool
begin

text \<open>
  The Redis Streams commands of \<open>redis/stream.go\<close>: what each sends and how its reply is read.  The
  executor \<open>exec\<close> stands for \<open>client.Do\<close>; the commands are functions of it, so they run on the
  pooled client of \<open>Pool\<close> and on any other connection.  A Go map argument comes with the list in
  which the runtime enumerates it.  Results that the code drops with a blank identifier keep the
  value Go returns beside the error.
\<close>

section \<open>Data\<close>

record stream_entry =
  se_ID :: string
  se_Fields :: "string \<rightharpoonup> string"

record stream_result =
  sr_Stream :: string
  sr_Entries :: "stream_entry list"

record stream_info =
  si_Length :: int
  si_RadixTreeKeys :: int
  si_RadixTreeNodes :: int
  si_LastGeneratedID :: string
  si_FirstEntry :: "stream_entry option"
  si_LastEntry :: "stream_entry option"

definition empty_entry :: stream_entry where
  "empty_entry = \<lparr>se_ID = '''', se_Fields = Map.empty\<rparr>"

type_synonym 's executor = "string list \<Rightarrow> 's \<Rightarrow> (client_error, resp_value) outcome \<times> 's"

section \<open>Conversions\<close>

definition conv :: "resp_error + 'a \<Rightarrow> (client_error, 'a) outcome" where
  "conv x = (case x of Inl e \<Rightarrow> Fails (BadReply e) | Inr v \<Rightarrow> Returns v)"

text \<open>
  What \<open>ParseInt\<close> returns even when it fails: 0 for bad syntax, the nearest bound when out of
  range.  The scan stops at the digit that leaves the unsigned range, whatever follows.
\<close>

fun uint_value :: "nat \<Rightarrow> string \<Rightarrow> nat option" where
  "uint_value n [] = Some n"
| "uint_value n (c # cs) =
     (if \<not> is_digit c then None
      else if 2 ^ 64 \<le> 10 * n + digit_val c then Some (2 ^ 64 - 1)
      else uint_value (10 * n + digit_val c) cs)"

definition int_value :: "string \<Rightarrow> int" where
  "int_value s =
     (let (sgn, ds) = split_sign s
      in case (if ds = [] then None else uint_value 0 ds) of
           None \<Rightarrow> 0
         | Some un \<Rightarrow> (if sgn = ''-'' then - int (min un (2 ^ 63)) else int (min un (2 ^ 63 - 1))))"

definition int_or_partial :: "resp_value \<Rightarrow> int" where
  "int_or_partial v =
     (if v_IsNull v then 0
      else if v_Type v = t_Integer then v_Int v
      else if v_Type v = t_BulkString \<or> v_Type v = t_SimpleString then int_value (v_Str v)
      else 0)"

definition array_or_nil :: "resp_value \<Rightarrow> resp_value list" where
  "array_or_nil v = (case AsArray v of Inl _ \<Rightarrow> [] | Inr arr \<Rightarrow> arr)"

fun contains_str :: "string \<Rightarrow> string \<Rightarrow> bool" where
  "contains_str sub [] \<longleftrightarrow> sub = []"
| "contains_str sub (c # s) \<longleftrightarrow> take (length sub) (c # s) = sub \<or> contains_str sub s"

section \<open>Parsing replies\<close>

definition parseSingleEntry :: "resp_value \<Rightarrow> (client_error, stream_entry) outcome" where
  "parseSingleEntry resp =
     (case AsArray resp of
        Inl _ \<Rightarrow> Fails (BadFormat ''invalid entry format'')
      | Inr arr \<Rightarrow>
          (if length arr \<noteq> 2 then Fails (BadFormat ''invalid entry format'')
           else case AsString (arr ! 0) of
                  Inl e \<Rightarrow> Fails (BadReply e)
                | Inr i \<Rightarrow>
                    (case AsMap (arr ! 1) of
                       Inl e \<Rightarrow> Fails (BadReply e)
                     | Inr fs \<Rightarrow> Returns \<lparr>se_ID = i, se_Fields = fs\<rparr>)))"

fun entries_loop :: "resp_value list \<Rightarrow> (client_error, stream_entry list) outcome" where
  "entries_loop [] = Returns []"
| "entries_loop (entryResp # arr) =
     (case parseSingleEntry entryResp of
        Returns entry \<Rightarrow>
          (case entries_loop arr of
             Returns entries \<Rightarrow> Returns (entry # entries)
           | r \<Rightarrow> r)
      | Fails e \<Rightarrow> Fails e | Panics \<Rightarrow> Panics | Blocks \<Rightarrow> Blocks)"

definition parseEntries :: "resp_value \<Rightarrow> (client_error, stream_entry list) outcome" where
  "parseEntries resp =
     (case AsArray resp of Inl e \<Rightarrow> Fails (BadReply e) | Inr arr \<Rightarrow> entries_loop arr)"

fun results_loop :: "resp_value list \<Rightarrow> (client_error, stream_result list) outcome" where
  "results_loop [] = Returns []"
| "results_loop (streamResp # arr) =
     (case AsArray streamResp of
        Inl _ \<Rightarrow> Fails (BadFormat ''invalid stream result format'')
      | Inr streamArr \<Rightarrow>
          (if length streamArr \<noteq> 2 then Fails (BadFormat ''invalid stream result format'')
           else case AsString (streamArr ! 0) of
                  Inl e \<Rightarrow> Fails (BadReply e)
                | Inr streamName \<Rightarrow>
                    (case parseEntries (streamArr ! 1) of
                       Returns entries \<Rightarrow>
                         (case results_loop arr of
                            Returns results \<Rightarrow>
                              Returns (\<lparr>sr_Stream = streamName, sr_Entries = entries\<rparr> # results)
                          | r \<Rightarrow> r)
                     | Fails e \<Rightarrow> Fails e | Panics \<Rightarrow> Panics | Blocks \<Rightarrow> Blocks)))"

definition parseStreamResults :: "resp_value \<Rightarrow> (client_error, stream_result list) outcome" where
  "parseStreamResults resp =
     (case AsArray resp of Inl e \<Rightarrow> Fails (BadReply e) | Inr arr \<Rightarrow> results_loop arr)"

section \<open>Commands\<close>

text \<open>A command whose error reply becomes an error with the command's name.\<close>

definition command ::
    "'s executor \<Rightarrow> string \<Rightarrow> string list \<Rightarrow> (resp_value \<Rightarrow> (client_error, 'a) outcome) \<Rightarrow> 's \<Rightarrow>
     (client_error, 'a) outcome \<times> 's" where
  "command exec name args f s =
     after (exec args s)
       (\<lambda>resp s'. (if v_IsError resp then Fails (CommandFailed name (v_Str resp)) else f resp, s'))"

definition flat_fields :: "string list \<Rightarrow> (string \<rightharpoonup> string) \<Rightarrow> string list" where
  "flat_fields ord fs = concat (map (\<lambda>k. [k, the (fs k)]) ord)"

definition XAdd ::
    "'s executor \<Rightarrow> string list \<Rightarrow> string \<Rightarrow> string \<Rightarrow> (string \<rightharpoonup> string) \<Rightarrow> 's \<Rightarrow>
     (client_error, string) outcome \<times> 's" where
  "XAdd exec ord key i fs =
     command exec ''XADD'' ([''XADD'', key, i] @ flat_fields ord fs) (\<lambda>resp. conv (AsString resp))"

definition XAddWithMaxLen ::
    "'s executor \<Rightarrow> string list \<Rightarrow> string \<Rightarrow> int \<Rightarrow> bool \<Rightarrow> string \<Rightarrow> (string \<rightharpoonup> string) \<Rightarrow> 's \<Rightarrow>
     (client_error, string) outcome \<times> 's" where
  "XAddWithMaxLen exec ord key maxLen approximate i fs =
     command exec ''XADD''
       ([''XADD'', key, ''MAXLEN''] @ (if approximate then [''~''] else []) @
        [FormatInt maxLen, i] @ flat_fields ord fs)
       (\<lambda>resp. conv (AsString resp))"

definition count_args :: "int \<Rightarrow> string list" where
  "count_args n = (if 0 < n then [''COUNT'', FormatInt n] else [])"

text \<open>A negative duration means not to block; milliseconds are truncated.\<close>

definition block_args :: "duration \<Rightarrow> string list" where
  "block_args block = (if 0 \<le> block then [''BLOCK'', FormatInt (block div 1000000)] else [])"

definition streams_args :: "string list \<Rightarrow> (string \<rightharpoonup> string) \<Rightarrow> string list" where
  "streams_args ord streams = ''STREAMS'' # ord @ map (\<lambda>k. the (streams k)) ord"

text \<open>A null reply (the block timed out) is no result.\<close>

definition read_streams ::
    "'s executor \<Rightarrow> string \<Rightarrow> string list \<Rightarrow> 's \<Rightarrow> (client_error, stream_result list) outcome \<times> 's" where
  "read_streams exec name args s =
     after (exec args s)
       (\<lambda>resp s'.
          (if v_IsNull resp then Returns []
           else if v_IsError resp then Fails (CommandFailed name (v_Str resp))
           else parseStreamResults resp, s'))"

definition XRead ::
    "'s executor \<Rightarrow> string list \<Rightarrow> int \<Rightarrow> duration \<Rightarrow> (string \<rightharpoonup> string) \<Rightarrow> 's \<Rightarrow>
     (client_error, stream_result list) outcome \<times> 's" where
  "XRead exec ord n block streams =
     read_streams exec ''XREAD'' (''XREAD'' # count_args n @ block_args block @ streams_args ord streams)"

definition XReadGroup ::
    "'s executor \<Rightarrow> string list \<Rightarrow> string \<Rightarrow> string \<Rightarrow> int \<Rightarrow> duration \<Rightarrow> bool \<Rightarrow> (string \<rightharpoonup> string) \<Rightarrow> 's \<Rightarrow>
     (client_error, stream_result list) outcome \<times> 's" where
  "XReadGroup exec ord grp consumer n block noAck streams =
     read_streams exec ''XREADGROUP''
       ([''XREADGROUP'', ''GROUP'', grp, consumer] @ count_args n @ block_args block @
        (if noAck then [''NOACK''] else []) @ streams_args ord streams)"

definition XRange ::
    "'s executor \<Rightarrow> string \<Rightarrow> string \<Rightarrow> string \<Rightarrow> int \<Rightarrow> 's \<Rightarrow>
     (client_error, stream_entry list) outcome \<times> 's" where
  "XRange exec key start end n =
     command exec ''XRANGE'' ([''XRANGE'', key, start, end] @ count_args n) parseEntries"

definition XRevRange ::
    "'s executor \<Rightarrow> string \<Rightarrow> string \<Rightarrow> string \<Rightarrow> int \<Rightarrow> 's \<Rightarrow>
     (client_error, stream_entry list) outcome \<times> 's" where
  "XRevRange exec key end start n =
     command exec ''XREVRANGE'' ([''XREVRANGE'', key, end, start] @ count_args n) parseEntries"

abbreviation as_int :: "resp_value \<Rightarrow> (client_error, int) outcome" where
  "as_int resp \<equiv> conv (AsInt resp)"

definition XLen :: "'s executor \<Rightarrow> string \<Rightarrow> 's \<Rightarrow> (client_error, int) outcome \<times> 's" where
  "XLen exec key = command exec ''XLEN'' [''XLEN'', key] as_int"

definition XTrim ::
    "'s executor \<Rightarrow> string \<Rightarrow> int \<Rightarrow> bool \<Rightarrow> 's \<Rightarrow> (client_error, int) outcome \<times> 's" where
  "XTrim exec key maxLen approximate =
     command exec ''XTRIM''
       ([''XTRIM'', key, ''MAXLEN''] @ (if approximate then [''~''] else []) @ [FormatInt maxLen]) as_int"

definition XDel ::
    "'s executor \<Rightarrow> string \<Rightarrow> string list \<Rightarrow> 's \<Rightarrow> (client_error, int) outcome \<times> 's" where
  "XDel exec key ids = command exec ''XDEL'' ([''XDEL'', key] @ ids) as_int"

text \<open>An error that says the grp exists already is ignored.\<close>

definition XGroupCreate ::
    "'s executor \<Rightarrow> string \<Rightarrow> string \<Rightarrow> string \<Rightarrow> bool \<Rightarrow> 's \<Rightarrow> (client_error, unit) outcome \<times> 's" where
  "XGroupCreate exec key grp i mkStream s =
     after (exec ([''XGROUP'', ''CREATE'', key, grp, i] @ (if mkStream then [''MKSTREAM''] else [])) s)
       (\<lambda>resp s'.
          (if v_IsError resp then
             (if contains_str ''BUSYGROUP'' (v_Str resp) then Returns ()
              else Fails (CommandFailed ''XGROUP CREATE'' (v_Str resp)))
           else Returns (), s'))"

definition XGroupDestroy ::
    "'s executor \<Rightarrow> string \<Rightarrow> string \<Rightarrow> 's \<Rightarrow> (client_error, int) outcome \<times> 's" where
  "XGroupDestroy exec key grp =
     command exec ''XGROUP DESTROY'' [''XGROUP'', ''DESTROY'', key, grp] as_int"

definition XGroupSetID ::
    "'s executor \<Rightarrow> string \<Rightarrow> string \<Rightarrow> string \<Rightarrow> 's \<Rightarrow> (client_error, unit) outcome \<times> 's" where
  "XGroupSetID exec key grp i =
     command exec ''XGROUP SETID'' [''XGROUP'', ''SETID'', key, grp, i] (\<lambda>_. Returns ())"

definition XAck ::
    "'s executor \<Rightarrow> string \<Rightarrow> string \<Rightarrow> string list \<Rightarrow> 's \<Rightarrow> (client_error, int) outcome \<times> 's" where
  "XAck exec key grp ids = command exec ''XACK'' ([''XACK'', key, grp] @ ids) as_int"

fun consumers_loop :: "resp_value list \<Rightarrow> (string \<rightharpoonup> int) \<Rightarrow> (string \<rightharpoonup> int)" where
  "consumers_loop [] consumers = consumers"
| "consumers_loop (c # arr) consumers =
     (case array_or_nil c of
        [name, pending] \<Rightarrow> consumers_loop arr (consumers(string_or_empty name \<mapsto> int_or_partial pending))
      | _ \<Rightarrow> consumers_loop arr consumers)"

definition XPending ::
    "'s executor \<Rightarrow> string \<Rightarrow> string \<Rightarrow> 's \<Rightarrow>
     (client_error, int \<times> string \<times> string \<times> (string \<rightharpoonup> int)) outcome \<times> 's" where
  "XPending exec key grp =
     command exec ''XPENDING'' [''XPENDING'', key, grp]
       (\<lambda>resp.
          case AsArray resp of
            Inl e \<Rightarrow> Fails (BadReply e)
          | Inr arr \<Rightarrow>
              (if length arr \<noteq> 4 then Fails (BadFormat ''unexpected XPENDING response format'')
               else Returns
                 (int_or_partial (arr ! 0), string_or_empty (arr ! 1), string_or_empty (arr ! 2),
                  if v_IsNull (arr ! 3) then Map.empty
                  else consumers_loop (array_or_nil (arr ! 3)) Map.empty)))"

definition entry_pointer :: "resp_value \<Rightarrow> stream_entry option \<Rightarrow> stream_entry option" where
  "entry_pointer v old =
     (if v_IsNull v then old
      else case parseSingleEntry v of Returns entry \<Rightarrow> Some entry | _ \<Rightarrow> Some empty_entry)"

text \<open>The keys at even positions; a last key without a value is not looked at.\<close>

fun info_loop :: "resp_value list \<Rightarrow> stream_info \<Rightarrow> stream_info" where
  "info_loop (k # v # arr) info =
     (let key = string_or_empty k
      in info_loop arr
           (if key = ''length'' then info\<lparr>si_Length := int_or_partial v\<rparr>
            else if key = ''radix-tree-keys'' then info\<lparr>si_RadixTreeKeys := int_or_partial v\<rparr>
            else if key = ''radix-tree-nodes'' then info\<lparr>si_RadixTreeNodes := int_or_partial v\<rparr>
            else if key = ''last-generated-id'' then info\<lparr>si_LastGeneratedID := string_or_empty v\<rparr>
            else if key = ''first-entry'' then info\<lparr>si_FirstEntry := entry_pointer v (si_FirstEntry info)\<rparr>
            else if key = ''last-entry'' then info\<lparr>si_LastEntry := entry_pointer v (si_LastEntry info)\<rparr>
            else info))"
| "info_loop _ info = info"

definition XInfo :: "'s executor \<Rightarrow> string \<Rightarrow> 's \<Rightarrow> (client_error, stream_info) outcome \<times> 's" where
  "XInfo exec key =
     command exec ''XINFO STREAM'' [''XINFO'', ''STREAM'', key]
       (\<lambda>resp.
          case AsArray resp of
            Inl e \<Rightarrow> Fails (BadReply e)
          | Inr arr \<Rightarrow>
              Returns (info_loop arr
                \<lparr>si_Length = 0, si_RadixTreeKeys = 0, si_RadixTreeNodes = 0, si_LastGeneratedID = '''',
                 si_FirstEntry = None, si_LastEntry = None\<rparr>))"

section \<open>Lemmas\<close>

lemma command_returns:
  "exec args s = (Returns resp, s') \<Longrightarrow> \<not> v_IsError resp \<Longrightarrow> command exec name args f s = (f resp, s')"
  by (simp add: command_def)

lemma command_error_reply:
  "exec args s = (Returns resp, s') \<Longrightarrow> v_IsError resp \<Longrightarrow>
   command exec name args f s = (Fails (CommandFailed name (v_Str resp)), s')"
  by (simp add: command_def)

lemma command_fails:
  "exec args s = (Fails e, s') \<Longrightarrow> command exec name args f s = (Fails e, s')"
  by (simp add: command_def)

lemmas commands = XAdd_def XAddWithMaxLen_def XRange_def XRevRange_def XLen_def XTrim_def XDel_def
  XGroupDestroy_def XGroupSetID_def XAck_def XPending_def XInfo_def

text \<open>A successful \<open>ParseInt\<close> is what the code sees when it drops the error.\<close>

lemma digits_val_from: "foldl (\<lambda>acc c. 10 * acc + digit_val c) n s \<ge> n"
proof (induction s arbitrary: n)
  case Nil
  then show ?case by simp
next
  case (Cons c s)
  have "n \<le> 10 * n + digit_val c" by simp
  also have "\<dots> \<le> foldl (\<lambda>acc c. 10 * acc + digit_val c) (10 * n + digit_val c) s" by (rule Cons)
  finally show ?case by simp
qed

lemma uint_value_digits:
  "list_all is_digit s \<Longrightarrow> foldl (\<lambda>acc c. 10 * acc + digit_val c) n s < 2 ^ 64 \<Longrightarrow>
   uint_value n s = Some (foldl (\<lambda>acc c. 10 * acc + digit_val c) n s)"
proof (induction s arbitrary: n)
  case Nil
  then show ?case by simp
next
  case (Cons c s)
  then have "10 * n + digit_val c < 2 ^ 64"
    using digits_val_from [of "10 * n + digit_val c" s] by (simp del: power_numeral)
  with Cons show ?case by (simp del: power_numeral)
qed

lemma int_value_ParseInt:
  assumes "ParseInt s = Some n"
  shows "int_value s = n"
proof -
  obtain sg ds where sd: "split_sign s = (sg, ds)" by (cases "split_sign s")
  from assms sd obtain un where un: "parse_digits ds = Some un"
    by (auto simp: ParseInt_def Let_def split: option.splits)
  then have ds: "ds \<noteq> []" "list_all is_digit ds" "un = digits_val ds"
    by (auto simp: parse_digits_def split: if_splits)
  have bound: "un < 2 ^ 64" "sg = ''-'' \<Longrightarrow> un \<le> 2 ^ 63" "sg \<noteq> ''-'' \<Longrightarrow> un < 2 ^ 63"
    "n = (if sg = ''-'' then - int un else int un)"
    using assms by (auto simp: ParseInt_def sd un Let_def split: if_splits)
  have "uint_value 0 ds = Some un"
    using uint_value_digits [OF ds(2), of 0] bound(1) by (simp add: ds(3) digits_val_def)
  with ds(1) bound(2-) show ?thesis by (cases "sg = ''-''") (auto simp: int_value_def sd min_def)
qed

subsection \<open>Entries over the wire\<close>

text \<open>An entry as Redis replies it: the ID and the flat list of fields and values.\<close>

definition pairs_reply :: "(string \<times> string) list \<Rightarrow> resp_value" where
  "pairs_reply kvs = array_value (concat (map (\<lambda>(k, v). [bulk_string k, bulk_string v]) kvs))"

definition entry_reply :: "string \<times> (string \<times> string) list \<Rightarrow> resp_value" where
  "entry_reply e = array_value [bulk_string (fst e), pairs_reply (snd e)]"

definition entry_of :: "string \<times> (string \<times> string) list \<Rightarrow> stream_entry" where
  "entry_of e = \<lparr>se_ID = fst e, se_Fields = map_of (rev (snd e))\<rparr>"

definition entries_reply :: "(string \<times> (string \<times> string) list) list \<Rightarrow> resp_value" where
  "entries_reply es = array_value (map entry_reply es)"

lemma AsString_bulk [simp]: "AsString (bulk_string s) = Inr s"
  by (simp add: AsString_def bulk_string_def)

lemma AsArray_array [simp]: "AsArray (array_value vs) = Inr vs"
  by (simp add: AsArray_def array_value_def)

lemma array_no_error [simp]: "\<not> v_IsError (array_value vs)" "\<not> v_IsNull (array_value vs)"
  by (simp_all add: array_value_def)

lemma map_loop_pairs:
  "map_loop (concat (map (\<lambda>(k, v). [bulk_string k, bulk_string v]) kvs)) m = Inr (m ++ map_of (rev kvs))"
proof (induction kvs arbitrary: m)
  case Nil
  then show ?case by simp
next
  case (Cons kv kvs)
  then show ?case
    by (cases kv) (auto simp: map_add_def fun_eq_iff split: option.splits)
qed

lemma pairs_even: "even (length (concat (map (\<lambda>(k, v). [bulk_string k, bulk_string v]) kvs)))"
  by (induction kvs) auto

lemma AsMap_pairs [simp]: "AsMap (pairs_reply kvs) = Inr (map_of (rev kvs))"
  using pairs_even [of kvs]
  by (simp add: AsMap_def pairs_reply_def map_loop_pairs flip: even_iff_mod_2_eq_zero)

lemma parse_entry_reply: "parseSingleEntry (entry_reply e) = Returns (entry_of e)"
  by (simp add: parseSingleEntry_def entry_reply_def entry_of_def)

lemma parse_entries_reply: "parseEntries (entries_reply es) = Returns (map entry_of es)"
proof -
  have "entries_loop (map entry_reply es) = Returns (map entry_of es)"
    by (induction es) (simp_all add: parse_entry_reply)
  then show ?thesis by (simp add: parseEntries_def entries_reply_def)
qed

text \<open>The pairs \<open>XAdd\<close> sends; read back, they are the map.\<close>

definition field_pairs :: "string list \<Rightarrow> (string \<rightharpoonup> string) \<Rightarrow> (string \<times> string) list" where
  "field_pairs ord fs = map (\<lambda>k. (k, the (fs k))) ord"

lemma flat_fields_pairs: "flat_fields ord fs = concat (map (\<lambda>(k, v). [k, v]) (field_pairs ord fs))"
  by (simp add: flat_fields_def field_pairs_def comp_def)

lemma field_pairs_read_back:
  assumes "set ord = dom fs"
  shows "map_of (rev (field_pairs ord fs)) = fs"
proof -
  have m: "map_of (rev (field_pairs ord fs)) = map_of (map (\<lambda>k. (k, the (fs k))) (rev ord))"
    by (simp add: field_pairs_def rev_map)
  have "map_of (map (\<lambda>k. (k, the (fs k))) ks) k = (if k \<in> set ks then Some (the (fs k)) else None)" for ks k
    by (induction ks) auto
  with assms m show ?thesis by (force simp: fun_eq_iff dom_def)
qed

subsection \<open>Streams results\<close>

definition stream_reply :: "string \<times> (string \<times> (string \<times> string) list) list \<Rightarrow> resp_value" where
  "stream_reply r = array_value [bulk_string (fst r), entries_reply (snd r)]"

lemma parse_streams_reply:
  "parseStreamResults (array_value (map stream_reply rs)) =
     Returns (map (\<lambda>r. \<lparr>sr_Stream = fst r, sr_Entries = map entry_of (snd r)\<rparr>) rs)"
proof -
  have "results_loop (map stream_reply rs) =
      Returns (map (\<lambda>r. \<lparr>sr_Stream = fst r, sr_Entries = map entry_of (snd r)\<rparr>) rs)"
    by (induction rs) (simp_all add: stream_reply_def parse_entries_reply)
  then show ?thesis by (simp add: parseStreamResults_def)
qed

text \<open>
  \<open>XRange\<close> on the pooled client: when the connection it gets delivers a well-formed stream
  range, the caller receives exactly those entries, in order, with the last value of a field that
  occurs twice; the bytes sent are the encoded command, the count only when it is positive, and the
  connection is left at the byte after the reply.
\<close>

theorem xrange_over_the_wire:
  assumes "pool_Get dial ctx p = (Returns i, p1)"
    and "\<not> cn_closed (po_heap p1 i)" and "\<not> cn_broken (po_heap p1 i)"
    and "cn_input (po_heap p1 i) = encode_reply (entries_reply es) @ rest"
    and "reply_ok (entries_reply es)"
  shows "XRange (client_Do dial ctx) key start end n p =
    (Returns (map entry_of es),
     pool_Put i (p1\<lparr>po_heap := (po_heap p1)
       (i := (po_heap p1 i)
          \<lparr>cn_sent := cn_sent (po_heap p1 i) @
             WriteCommand ([''XRANGE'', key, start, end] @ (if 0 < n then [''COUNT'', FormatInt n] else [])),
           cn_input := rest\<rparr>)\<rparr>))"
  using assms ReadValue_encode [OF assms(5), of rest]
  by (simp add: XRange_def command_def after_def client_Do_def conn_Do_def Let_def count_args_def
      parse_entries_reply) (simp add: entries_reply_def)

theorem xrange_over_the_wire_witness:
  "fst (XRange (client_Do (\<lambda>_. None) False) ''k'' ''-'' ''+'' 10
      (sample_pool [0] (\<lambda>_. fresh_conn (encode_reply (entries_reply [(''1-0'', [(''f'', ''a''), (''f'', ''b'')])]) @ ''+'')))) =
   Returns [\<lparr>se_ID = ''1-0'', se_Fields = [''f'' \<mapsto> ''b'']\<rparr>]"
proof -
  let ?es = "[(''1-0'', [(''f'', ''a''), (''f'', ''b'')])]"
  let ?p = "sample_pool [0] (\<lambda>_. fresh_conn (encode_reply (entries_reply ?es) @ ''+''))"
  have g: "pool_Get (\<lambda>_. None) False ?p = (Returns 0, ?p\<lparr>po_conns := []\<rparr>)"
    by (simp add: pool_Get_def sample_pool_def fresh_conn_def)
  have ok: "reply_ok (entries_reply ?es)"
    by (simp add: entries_reply_def entry_reply_def pairs_reply_def bulk_string_def array_value_def
        type_bytes max_alloc_def)
  from xrange_over_the_wire [OF g _ _ _ ok, of "''+''" "''k''" "''-''" "''+''" 10] show ?thesis
    by (simp add: sample_pool_def fresh_conn_def entry_of_def)
qed

end
