(* ===== verification/Json.thy ===== *)
theory Json
  imports Strconv
begin

text \<open>
  The part of Go's \<open>encoding/json\<close> the program uses (as of Go 1.21, the version of \<open>go.mod\<close>): UTF-8
  decoding as \<open>unicode/utf8\<close> does it, string quoting with HTML escaping, the parser (the grammar of
  the scanner, nesting depth included), and maps from strings to strings.  A parsed value keeps
  the text it was read from, because a \<open>json.RawMessage\<close> is that text.
\<close>

section \<open>UTF-8\<close>

abbreviation byte_of :: "char \<Rightarrow> nat" where
  "byte_of c \<equiv> of_char c"

definition cont_byte :: "char \<Rightarrow> bool" where
  "cont_byte c \<longleftrightarrow> 0x80 \<le> byte_of c \<and> byte_of c \<le> 0xBF"

definition rune_error :: nat where
  "rune_error = 0xFFFD"

text \<open>The first code point and its size; an invalid byte is \<open>rune_error\<close> of size 1.\<close>

fun decode_rune :: "string \<Rightarrow> nat \<times> nat" where
  "decode_rune [] = (rune_error, 0)"
| "decode_rune (c0 # s) =
     (let b0 = byte_of c0; bad = (rune_error, 1)
      in if b0 < 0x80 then (b0, 1)
         else if b0 < 0xC2 \<or> 0xF4 < b0 then bad
         else if b0 < 0xE0 then
           (case s of
              c1 # _ \<Rightarrow> (if cont_byte c1 then ((b0 - 0xC0) * 64 + (byte_of c1 - 0x80), 2) else bad)
            | _ \<Rightarrow> bad)
         else if b0 < 0xF0 then
           (case s of
              c1 # c2 # _ \<Rightarrow>
                (if cont_byte c1 \<and> cont_byte c2 \<and> (b0 = 0xE0 \<longrightarrow> 0xA0 \<le> byte_of c1) \<and>
                    (b0 = 0xED \<longrightarrow> byte_of c1 \<le> 0x9F)
                 then ((b0 - 0xE0) * 4096 + (byte_of c1 - 0x80) * 64 + (byte_of c2 - 0x80), 3)
                 else bad)
            | _ \<Rightarrow> bad)
         else
           (case s of
              c1 # c2 # c3 # _ \<Rightarrow>
                (if cont_byte c1 \<and> cont_byte c2 \<and> cont_byte c3 \<and>
                    (b0 = 0xF0 \<longrightarrow> 0x90 \<le> byte_of c1) \<and> (b0 = 0xF4 \<longrightarrow> byte_of c1 \<le> 0x8F)
                 then ((b0 - 0xF0) * 262144 + (byte_of c1 - 0x80) * 4096 +
                       (byte_of c2 - 0x80) * 64 + (byte_of c3 - 0x80), 4)
                 else bad)
            | _ \<Rightarrow> bad))"

definition is_surrogate :: "nat \<Rightarrow> bool" where
  "is_surrogate r \<longleftrightarrow> 0xD800 \<le> r \<and> r \<le> 0xDFFF"

definition encode_rune :: "nat \<Rightarrow> string" where
  "encode_rune r0 =
     (let r = (if 0x10FFFF < r0 \<or> is_surrogate r0 then rune_error else r0)
      in if r < 0x80 then [char_of r]
         else if r < 0x800 then [char_of (0xC0 + r div 64), char_of (0x80 + r mod 64)]
         else if r < 0x10000 then
           [char_of (0xE0 + r div 4096), char_of (0x80 + r div 64 mod 64), char_of (0x80 + r mod 64)]
         else
           [char_of (0xF0 + r div 262144), char_of (0x80 + r div 4096 mod 64),
            char_of (0x80 + r div 64 mod 64), char_of (0x80 + r mod 64)])"

lemma byte_of_less: "byte_of c < 256"
  by (rule nat_of_char_less_256)

lemma decode_rune_size: "s \<noteq> [] \<Longrightarrow> 1 \<le> snd (decode_rune s) \<and> snd (decode_rune s) \<le> length s"
  by (cases s) (auto simp: Let_def split: list.splits)

lemma decode_rune_shorter: "s \<noteq> [] \<Longrightarrow> length (drop (snd (decode_rune s)) s) < length s"
  using decode_rune_size [of s] by (cases s) simp_all

text \<open>Well-formed text, and the text with every invalid byte replaced.\<close>

definition bad_rune :: "string \<Rightarrow> bool" where
  "bad_rune s \<longleftrightarrow> decode_rune s = (rune_error, 1)"

function valid_utf8 :: "string \<Rightarrow> bool" where
  "valid_utf8 [] \<longleftrightarrow> True"
| "valid_utf8 (c # s) \<longleftrightarrow>
     \<not> bad_rune (c # s) \<and> valid_utf8 (drop (snd (decode_rune (c # s))) (c # s))"
  by pat_completeness auto
termination
proof (relation "measure length")
  fix c s
  show "(drop (snd (decode_rune (c # s))) (c # s), c # s) \<in> measure length"
    using decode_rune_shorter [of "c # s"] by (simp del: decode_rune.simps length_drop list.size)
qed simp

function sanitize :: "string \<Rightarrow> string" where
  "sanitize [] = []"
| "sanitize (c # s) =
     encode_rune (fst (decode_rune (c # s))) @ sanitize (drop (snd (decode_rune (c # s))) (c # s))"
  by pat_completeness auto
termination
proof (relation "measure length")
  fix c s
  show "(drop (snd (decode_rune (c # s))) (c # s), c # s) \<in> measure length"
    using decode_rune_shorter [of "c # s"] by (simp del: decode_rune.simps length_drop list.size)
qed simp

declare valid_utf8.simps(2) [simp del] sanitize.simps(2) [simp del]

lemma digits64: "(n :: nat) div 4096 = n div 64 div 64" "(n :: nat) div 262144 = n div 64 div 64 div 64"
  by (simp_all flip: div_mult2_eq)

lemma base64: "y < 64 \<Longrightarrow> (x * 64 + y) div 64 = x" "y < 64 \<Longrightarrow> (x * 64 + y) mod 64 = (y :: nat)"
  by simp_all

lemma encode_rune_parts:
  "d1 < 64 \<Longrightarrow> 2 \<le> a \<Longrightarrow> a < 32 \<Longrightarrow>
     encode_rune (a * 64 + d1) = [char_of (0xC0 + a), char_of (0x80 + d1)]"
  "d1 < 64 \<Longrightarrow> d2 < 64 \<Longrightarrow> a < 16 \<Longrightarrow> (a = 0 \<longrightarrow> 32 \<le> d1) \<Longrightarrow> (a = 13 \<longrightarrow> d1 < 32) \<Longrightarrow>
     encode_rune (a * 4096 + d1 * 64 + d2) = [char_of (0xE0 + a), char_of (0x80 + d1), char_of (0x80 + d2)]"
  "d1 < 64 \<Longrightarrow> d2 < 64 \<Longrightarrow> d3 < 64 \<Longrightarrow> a < 5 \<Longrightarrow> (a = 0 \<longrightarrow> 16 \<le> d1) \<Longrightarrow> (a = 4 \<longrightarrow> d1 < 16) \<Longrightarrow>
     encode_rune (a * 262144 + d1 * 4096 + d2 * 64 + d3) =
       [char_of (0xF0 + a), char_of (0x80 + d1), char_of (0x80 + d2), char_of (0x80 + d3)]"
proof -
  assume "d1 < 64" "2 \<le> a" "a < 32"
  then have "\<not> a * 64 + d1 < 0x80" "a * 64 + d1 < 0x800" "(a * 64 + d1) div 64 = a" "(a * 64 + d1) mod 64 = d1"
    by simp_all
  then show "encode_rune (a * 64 + d1) = [char_of (0xC0 + a), char_of (0x80 + d1)]"
    by (simp add: encode_rune_def Let_def is_surrogate_def)
next
  let ?r = "a * 4096 + d1 * 64 + d2"
  assume *: "d1 < 64" "d2 < 64" "a < 16" "a = 0 \<longrightarrow> 32 \<le> d1" "a = 13 \<longrightarrow> d1 < 32"
  have "a = 13" if "0xD800 \<le> ?r" "?r \<le> 0xDFFF" using that * by linarith
  moreover have "?r \<le> 0xD7FF" if "a = 13" using * that by simp
  ultimately have "\<not> is_surrogate ?r" by (force simp: is_surrogate_def)
  moreover have "\<not> ?r < 0x800" "?r < 0x10000" using * by (cases "a = 0"; simp)+
  moreover have r: "?r = (a * 64 + d1) * 64 + d2" by simp
  have "?r div 4096 = a" "?r div 64 mod 64 = d1" "?r mod 64 = d2"
    unfolding r by (simp_all only: digits64 base64 *(1,2))
  ultimately show "encode_rune ?r = [char_of (0xE0 + a), char_of (0x80 + d1), char_of (0x80 + d2)]"
    by (simp add: encode_rune_def Let_def)
next
  let ?r = "a * 262144 + d1 * 4096 + d2 * 64 + d3"
  assume *: "d1 < 64" "d2 < 64" "d3 < 64" "a < 5" "a = 0 \<longrightarrow> 16 \<le> d1" "a = 4 \<longrightarrow> d1 < 16"
  have "\<not> ?r < 0x10000" "?r \<le> 0x10FFFF" using * by (cases "a = 0"; cases "a = 4"; simp)+
  moreover have r: "?r = ((a * 64 + d1) * 64 + d2) * 64 + d3" by simp
  have "?r div 262144 = a" "?r div 4096 mod 64 = d1" "?r div 64 mod 64 = d2" "?r mod 64 = d3"
    unfolding r by (simp_all only: digits64 base64 *(1-3))
  ultimately show "encode_rune ?r =
       [char_of (0xF0 + a), char_of (0x80 + d1), char_of (0x80 + d2), char_of (0x80 + d3)]"
    by (simp add: encode_rune_def Let_def is_surrogate_def)
qed

lemma decode_rune_cases:
  assumes "s \<noteq> []" and "\<not> bad_rune s"
  obtains (one) c t where "s = c # t" "byte_of c < 0x80" "decode_rune s = (byte_of c, 1)"
    | (two) c0 c1 t where "s = c0 # c1 # t" "cont_byte c1" "0xC2 \<le> byte_of c0" "byte_of c0 < 0xE0"
        "decode_rune s = ((byte_of c0 - 0xC0) * 64 + (byte_of c1 - 0x80), 2)"
    | (three) c0 c1 c2 t where "s = c0 # c1 # c2 # t" "cont_byte c1" "cont_byte c2"
        "0xE0 \<le> byte_of c0" "byte_of c0 < 0xF0"
        "byte_of c0 = 0xE0 \<longrightarrow> 0xA0 \<le> byte_of c1" "byte_of c0 = 0xED \<longrightarrow> byte_of c1 \<le> 0x9F"
        "decode_rune s = ((byte_of c0 - 0xE0) * 4096 + (byte_of c1 - 0x80) * 64 + (byte_of c2 - 0x80), 3)"
    | (four) c0 c1 c2 c3 t where "s = c0 # c1 # c2 # c3 # t" "cont_byte c1" "cont_byte c2" "cont_byte c3"
        "0xF0 \<le> byte_of c0" "byte_of c0 \<le> 0xF4"
        "byte_of c0 = 0xF0 \<longrightarrow> 0x90 \<le> byte_of c1" "byte_of c0 = 0xF4 \<longrightarrow> byte_of c1 \<le> 0x8F"
        "decode_rune s = ((byte_of c0 - 0xF0) * 262144 + (byte_of c1 - 0x80) * 4096 +
                       (byte_of c2 - 0x80) * 64 + (byte_of c3 - 0x80), 4)"
proof -
  obtain c0 s' where s: "s = c0 # s'" using assms(1) by (cases s) auto
  show thesis
  proof (cases "byte_of c0 < 0x80")
    case True
    with s one show ?thesis by (simp add: Let_def)
  next
    case b0: False
    with assms(2) have range: "0xC2 \<le> byte_of c0" "byte_of c0 \<le> 0xF4"
      by (auto simp: s bad_rune_def Let_def split: if_splits)
    show ?thesis
    proof (cases "byte_of c0 < 0xE0")
      case True
      with b0 range assms(2) obtain c1 t where "s' = c1 # t" "cont_byte c1"
        by (auto simp: s bad_rune_def Let_def split: if_splits list.splits)
      with True b0 range s two show ?thesis by (simp add: Let_def)
    next
      case e0: False
      show ?thesis
      proof (cases "byte_of c0 < 0xF0")
        case True
        with b0 e0 range assms(2) obtain c1 c2 t where "s' = c1 # c2 # t" "cont_byte c1" "cont_byte c2"
            "byte_of c0 = 0xE0 \<longrightarrow> 0xA0 \<le> byte_of c1" "byte_of c0 = 0xED \<longrightarrow> byte_of c1 \<le> 0x9F"
          by (auto simp: s bad_rune_def Let_def split: if_splits list.splits)
        with True b0 e0 range s three show ?thesis by (simp add: Let_def)
      next
        case False
        with b0 e0 range assms(2) obtain c1 c2 c3 t where "s' = c1 # c2 # c3 # t" "cont_byte c1"
            "cont_byte c2" "cont_byte c3"
            "byte_of c0 = 0xF0 \<longrightarrow> 0x90 \<le> byte_of c1" "byte_of c0 = 0xF4 \<longrightarrow> byte_of c1 \<le> 0x8F"
          by (auto simp: s bad_rune_def Let_def split: if_splits list.splits)
        with False b0 e0 range s four show ?thesis by (simp add: Let_def)
      qed
    qed
  qed
qed

lemma cont_byte_split:
  assumes "cont_byte c"
  obtains d where "d < 64" "byte_of c = 0x80 + d" "c = char_of (0x80 + d)"
proof
  show "byte_of c - 0x80 < 64" "byte_of c = 0x80 + (byte_of c - 0x80)"
    using assms by (auto simp: cont_byte_def)
  then show "c = char_of (0x80 + (byte_of c - 0x80))" by (metis char_of_char)
qed

lemma encode_decode_rune:
  assumes "s \<noteq> []" and "\<not> bad_rune s"
  shows "encode_rune (fst (decode_rune s)) = take (snd (decode_rune s)) s"
  using assms
proof (cases rule: decode_rune_cases)
  case (one c t)
  then show ?thesis by (simp add: encode_rune_def is_surrogate_def Let_def)
next
  case (two c0 c1 t)
  from two(2) obtain d1 where d1: "d1 < 64" "byte_of c1 = 0x80 + d1" "c1 = char_of (0x80 + d1)"
    by (rule cont_byte_split)
  have "encode_rune ((byte_of c0 - 0xC0) * 64 + d1) = [char_of (0xC0 + (byte_of c0 - 0xC0)), char_of (0x80 + d1)]"
    using two d1 by (intro encode_rune_parts) auto
  with two d1 show ?thesis by simp
next
  case (three c0 c1 c2 t)
  from three(2) obtain d1 where d1: "d1 < 64" "byte_of c1 = 0x80 + d1" "c1 = char_of (0x80 + d1)"
    by (rule cont_byte_split)
  from three(3) obtain d2 where d2: "d2 < 64" "byte_of c2 = 0x80 + d2" "c2 = char_of (0x80 + d2)"
    by (rule cont_byte_split)
  have "encode_rune ((byte_of c0 - 0xE0) * 4096 + d1 * 64 + d2) =
      [char_of (0xE0 + (byte_of c0 - 0xE0)), char_of (0x80 + d1), char_of (0x80 + d2)]"
    using three d1 d2 by (intro encode_rune_parts) auto
  with three d1 d2 show ?thesis by simp
next
  case (four c0 c1 c2 c3 t)
  from four(2) obtain d1 where d1: "d1 < 64" "byte_of c1 = 0x80 + d1" "c1 = char_of (0x80 + d1)"
    by (rule cont_byte_split)
  from four(3) obtain d2 where d2: "d2 < 64" "byte_of c2 = 0x80 + d2" "c2 = char_of (0x80 + d2)"
    by (rule cont_byte_split)
  from four(4) obtain d3 where d3: "d3 < 64" "byte_of c3 = 0x80 + d3" "c3 = char_of (0x80 + d3)"
    by (rule cont_byte_split)
  have "encode_rune ((byte_of c0 - 0xF0) * 262144 + d1 * 4096 + d2 * 64 + d3) =
      [char_of (0xF0 + (byte_of c0 - 0xF0)), char_of (0x80 + d1), char_of (0x80 + d2), char_of (0x80 + d3)]"
    using four d1 d2 d3 by (intro encode_rune_parts) auto
  with four d1 d2 d3 show ?thesis by simp
qed

text \<open>Decoding looks at the bytes it takes only.\<close>

lemma decode_rune_prefix:
  assumes "s \<noteq> []" and "\<not> bad_rune s"
  shows "decode_rune (take (snd (decode_rune s)) s @ t) = decode_rune s"
  using assms by (cases rule: decode_rune_cases) (simp_all add: Let_def)

lemma sanitize_valid: "valid_utf8 s \<Longrightarrow> sanitize s = s"
proof (induction s rule: valid_utf8.induct)
  case 1
  then show ?case by simp
next
  case (2 c s)
  then have "\<not> bad_rune (c # s)" and "sanitize (drop (snd (decode_rune (c # s))) (c # s)) =
      drop (snd (decode_rune (c # s))) (c # s)"
    by (simp_all add: valid_utf8.simps(2) del: decode_rune.simps)
  then show ?case
    using encode_decode_rune [of "c # s"] by (simp add: sanitize.simps(2) del: decode_rune.simps)
qed

section \<open>Strings\<close>

abbreviation dquote :: char where "dquote \<equiv> CHR 0x22"
abbreviation bslash :: char where "bslash \<equiv> CHR 0x5C"

definition hex_char :: "nat \<Rightarrow> char" where
  "hex_char n = ''0123456789abcdef'' ! n"

definition hex_val :: "char \<Rightarrow> nat option" where
  "hex_val c =
     (let b = byte_of c
      in if 48 \<le> b \<and> b \<le> 57 then Some (b - 48)
         else if 97 \<le> b \<and> b \<le> 102 then Some (b - 87)
         else if 65 \<le> b \<and> b \<le> 70 then Some (b - 55)
         else None)"

definition hex4 :: "nat \<Rightarrow> string" where
  "hex4 r = [hex_char (r div 4096 mod 16), hex_char (r div 256 mod 16), hex_char (r div 16 mod 16),
             hex_char (r mod 16)]"

fun read_hex4 :: "string \<Rightarrow> (nat \<times> string) option" where
  "read_hex4 (a # b # c # d # s) =
     (case (hex_val a, hex_val b, hex_val c, hex_val d) of
        (Some w, Some x, Some y, Some z) \<Rightarrow> Some (w * 4096 + x * 256 + y * 16 + z, s)
      | _ \<Rightarrow> None)"
| "read_hex4 _ = None"

definition u_escape :: "nat \<Rightarrow> string" where
  "u_escape r = bslash # CHR ''u'' # hex4 r"

text \<open>A byte below 128 in a quoted string, with HTML escaping.\<close>

definition quote_ascii :: "char \<Rightarrow> string" where
  "quote_ascii c =
     (if c = dquote \<or> c = bslash then [bslash, c]
      else if c = CHR 0x0A then [bslash, CHR ''n'']
      else if c = CHR 0x0D then [bslash, CHR ''r'']
      else if c = CHR 0x09 then [bslash, CHR ''t'']
      else if byte_of c < 0x20 \<or> c = CHR ''<'' \<or> c = CHR ''>'' \<or> c = CHR ''&'' then u_escape (byte_of c)
      else [c])"

function quote_body :: "string \<Rightarrow> string" where
  "quote_body [] = []"
| "quote_body (c # s) =
     (if byte_of c < 0x80 then quote_ascii c @ quote_body s
      else
        (if bad_rune (c # s) then u_escape rune_error
         else if fst (decode_rune (c # s)) \<in> {0x2028, 0x2029} then u_escape (fst (decode_rune (c # s)))
         else take (snd (decode_rune (c # s))) (c # s)) @
        quote_body (drop (snd (decode_rune (c # s))) (c # s)))"
  by pat_completeness auto
termination
proof (relation "measure length")
  fix c s
  show "(drop (snd (decode_rune (c # s))) (c # s), c # s) \<in> measure length"
    using decode_rune_shorter [of "c # s"] by (simp del: decode_rune.simps length_drop list.size)
qed simp_all

definition quote :: "string \<Rightarrow> string" where
  "quote s = dquote # quote_body s @ [dquote]"

definition simple_escape :: "char \<Rightarrow> char option" where
  "simple_escape e =
     (if e = dquote \<or> e = bslash \<or> e = CHR ''/'' then Some e
      else if e = CHR ''b'' then Some (CHR 0x08)
      else if e = CHR ''f'' then Some (CHR 0x0C)
      else if e = CHR ''n'' then Some (CHR 0x0A)
      else if e = CHR ''r'' then Some (CHR 0x0D)
      else if e = CHR ''t'' then Some (CHR 0x09)
      else None)"

text \<open>The low half of a surrogate pair, as a further escape.\<close>

definition read_low :: "nat \<Rightarrow> string \<Rightarrow> (nat \<times> string) option" where
  "read_low hi s =
     (case s of
        e # u # s' \<Rightarrow>
          (if e = bslash \<and> u = CHR ''u'' then
             (case read_hex4 s' of
                Some (lo, s2) \<Rightarrow>
                  (if hi < 0xDC00 \<and> 0xDC00 \<le> lo \<and> lo \<le> 0xDFFF
                   then Some ((hi - 0xD800) * 1024 + (lo - 0xDC00) + 0x10000, s2) else None)
              | None \<Rightarrow> None)
           else None)
      | _ \<Rightarrow> None)"

definition prepend :: "string \<Rightarrow> (string \<times> string) option \<Rightarrow> (string \<times> string) option" where
  "prepend x r = map_option (\<lambda>(y, rest). (x @ y, rest)) r"

lemma read_hex4_shorter: "read_hex4 s = Some (r, s') \<Longrightarrow> length s' < length s"
  by (induction s rule: read_hex4.induct) (auto split: option.splits)

lemma read_low_shorter: "read_low hi s = Some (r, s') \<Longrightarrow> length s' < length s"
  using read_hex4_shorter by (auto simp: read_low_def split: list.splits if_splits option.splits) force

text \<open>The text of a string up to its closing quote, unquoted.\<close>

function parse_string :: "string \<Rightarrow> (string \<times> string) option" where
  "parse_string [] = None"
| "parse_string (c # s) =
     (if c = dquote then Some ([], s)
      else if c = bslash then
        (case s of
           [] \<Rightarrow> None
         | e # s' \<Rightarrow>
             (if e = CHR ''u'' then
                (case read_hex4 s' of
                   None \<Rightarrow> None
                 | Some (r, s1) \<Rightarrow>
                     (if is_surrogate r then
                        (case read_low r s1 of
                           Some (r', s2) \<Rightarrow> prepend (encode_rune r') (parse_string s2)
                         | None \<Rightarrow> prepend (encode_rune rune_error) (parse_string s1))
                      else prepend (encode_rune r) (parse_string s1)))
              else
                (case simple_escape e of
                   None \<Rightarrow> None
                 | Some x \<Rightarrow> prepend [x] (parse_string s'))))
      else if byte_of c < 0x20 then None
      else prepend (encode_rune (fst (decode_rune (c # s))))
             (parse_string (drop (snd (decode_rune (c # s))) (c # s))))"
  by pat_completeness auto
termination
proof (relation "measure length")
  fix c s
  show "(drop (snd (decode_rune (c # s))) (c # s), c # s) \<in> measure length"
    using decode_rune_shorter [of "c # s"] by (simp del: decode_rune.simps length_drop list.size)
qed (auto dest!: read_hex4_shorter read_low_shorter)

declare quote_body.simps(2) [simp del] parse_string.simps(2) [simp del]

lemma prepend_Some: "prepend x r = Some (y, rest) \<longleftrightarrow> (\<exists>y'. r = Some (y', rest) \<and> y = x @ y')"
  by (auto simp: prepend_def)

text \<open>One step of the string parser: it is done, or goes on with a shorter input.\<close>

lemma parse_string_step:
  assumes "parse_string (c # s) = Some (x, rest)" and "c \<noteq> dquote"
  shows "\<exists>ys y. length ys < length (c # s) \<and> parse_string ys = Some (y, rest)"
proof (cases "c = bslash")
  case False
  with assms obtain y where "parse_string (drop (snd (decode_rune (c # s))) (c # s)) = Some (y, rest)"
    by (auto simp: parse_string.simps(2) [of c s] prepend_Some simp del: decode_rune.simps split: if_splits)
  with decode_rune_shorter [of "c # s"] show ?thesis by blast
next
  case esc: True
  with assms obtain e s' where s: "s = e # s'"
    by (cases s) (auto simp: parse_string.simps(2))
  show ?thesis
  proof (cases "e = CHR ''u''")
    case False
    with assms esc s obtain y where "parse_string s' = Some (y, rest)"
      by (auto simp: parse_string.simps(2) prepend_Some split: option.splits)
    with s show ?thesis by (intro exI [of _ s'] exI [of _ y]) simp
  next
    case u: True
    with assms esc s obtain r s1 where r: "read_hex4 s' = Some (r, s1)"
      by (auto simp: parse_string.simps(2) split: option.splits)
    show ?thesis
    proof (cases "\<exists>y. parse_string s1 = Some (y, rest)")
      case True
      then obtain y where "parse_string s1 = Some (y, rest)" by blast
      with read_hex4_shorter [OF r] s show ?thesis by (intro exI [of _ s1] exI [of _ y]) simp
    next
      case False
      with assms esc s u r obtain r' s2 y
        where "read_low r s1 = Some (r', s2)" and y: "parse_string s2 = Some (y, rest)"
        by (auto simp: parse_string.simps(2) prepend_Some split: option.splits if_splits)
      from read_low_shorter [OF this(1)] read_hex4_shorter [OF r] s y show ?thesis
        by (intro exI [of _ s2] exI [of _ y]) simp
    qed
  qed
qed

lemma parse_string_shorter: "parse_string s = Some (x, rest) \<Longrightarrow> length rest < length s"
proof (induction s arbitrary: x rule: length_induct)
  case (1 s)
  show ?case
  proof (cases s)
    case (Cons c t)
    show ?thesis
    proof (cases "c = dquote")
      case True
      with 1 Cons show ?thesis by (simp add: parse_string.simps(2))
    next
      case False
      with parse_string_step 1(2) Cons obtain ys y
        where "length ys < length s" "parse_string ys = Some (y, rest)" by blast
      with 1(1) show ?thesis by (meson less_trans)
    qed
  qed (use 1 in simp)
qed

section \<open>Reading back a quoted string\<close>

lemma hex_char_val: "n < 16 \<Longrightarrow> hex_val (hex_char n) = Some n"
proof -
  have "\<forall>n \<in> {..<16}. hex_val (hex_char n) = Some n" by code_simp
  then show "n < 16 \<Longrightarrow> hex_val (hex_char n) = Some n" by simp
qed

lemma read_hex4_hex4: "r < 0x10000 \<Longrightarrow> read_hex4 (hex4 r @ s) = Some (r, s)"
proof -
  assume "r < 0x10000"
  then have "r div 4096 < 16" by simp
  then have "r div 4096 mod 16 = r div 4096" by simp
  moreover have "r div 16 div 16 = r div 256" "r div 256 div 16 = r div 4096"
    by (simp_all flip: div_mult2_eq)
  ultimately have "r div 4096 * 4096 + r div 256 mod 16 * 256 + r div 16 mod 16 * 16 + r mod 16 = r"
    using div_mult_mod_eq [of r 16] div_mult_mod_eq [of "r div 16" 16] div_mult_mod_eq [of "r div 256" 16]
    by linarith
  with \<open>r div 4096 < 16\<close> show ?thesis by (simp add: hex4_def hex_char_val)
qed

lemma parse_u_escape:
  assumes "r < 0x10000" and "\<not> is_surrogate r"
  shows "parse_string (u_escape r @ s) = prepend (encode_rune r) (parse_string s)"
  using assms by (simp add: u_escape_def parse_string.simps(2) read_hex4_hex4)

lemma encode_ascii: "byte_of c < 0x80 \<Longrightarrow> encode_rune (byte_of c) = [c]"
  by (simp add: encode_rune_def is_surrogate_def Let_def)

lemma parse_quote_ascii:
  assumes "byte_of c < 0x80"
  shows "parse_string (quote_ascii c @ s) = prepend [c] (parse_string s)"
proof -
  have [simp]: "encode_rune (byte_of c) = [c]" using assms by (rule encode_ascii)
  have p: "parse_string (c # s) = prepend [c] (parse_string s)"
    if "c \<noteq> dquote" "c \<noteq> bslash" "\<not> byte_of c < 0x20"
    using that assms by (simp add: parse_string.simps(2))
  have e: "parse_string (bslash # x # s) = prepend [y] (parse_string s)"
    if "simple_escape x = Some y" for x y
  proof -
    have "x \<noteq> CHR ''u''" using that by (auto simp: simple_escape_def)
    with that show ?thesis by (simp add: parse_string.simps(2))
  qed
  have u: "parse_string (u_escape (byte_of c) @ s) = prepend [c] (parse_string s)"
    using assms parse_u_escape [of "byte_of c" s] by (simp add: is_surrogate_def)
  show ?thesis
    using p u e [of dquote dquote] e [of bslash bslash] e [of "CHR ''n''" "CHR 0x0A"]
      e [of "CHR ''r''" "CHR 0x0D"] e [of "CHR ''t''" "CHR 0x09"]
    by (auto simp: quote_ascii_def simple_escape_def simp del: of_char_of)
qed

lemma parse_rune:
  assumes "\<not> byte_of c < 0x80" and "\<not> bad_rune (c # s)"
  shows "parse_string (take (snd (decode_rune (c # s))) (c # s) @ t) =
    prepend (encode_rune (fst (decode_rune (c # s)))) (parse_string t)"
proof -
  let ?n = "snd (decode_rune (c # s))"
  have n: "0 < ?n" "?n \<le> length (c # s)" using decode_rune_size [of "c # s"] by auto
  define u where "u = take (?n - 1) s @ t"
  have u: "take ?n (c # s) @ t = c # u" using n by (cases ?n) (simp_all add: u_def del: decode_rune.simps)
  have d: "decode_rune (c # u) = decode_rune (c # s)"
    using decode_rune_prefix [OF _ assms(2), of t] by (simp add: u del: decode_rune.simps)
  have "drop ?n (c # u) = t" using n u by (metis append_eq_conv_conj length_take min.absorb2)
  moreover have "c \<noteq> dquote" "c \<noteq> bslash" using assms(1) by auto
  ultimately show ?thesis
    using assms(1) unfolding u by (simp add: parse_string.simps(2) [of c u] d del: decode_rune.simps)
qed

lemma parse_quote_body: "parse_string (quote_body s @ dquote # rest) = Some (sanitize s, rest)"
proof (induction s rule: quote_body.induct)
  case 1
  then show ?case by (simp add: parse_string.simps(2))
next
  case (2 c s)
  let ?d = "decode_rune (c # s)"
  show ?case
  proof (cases "byte_of c < 0x80")
    case True
    then have d: "?d = (byte_of c, 1)" by (simp add: Let_def)
    from 2(1) [OF True] show ?thesis
      by (simp add: quote_body.simps(2) sanitize.simps(2) True d parse_quote_ascii encode_ascii prepend_def
          del: decode_rune.simps)
  next
    case False
    from 2(2) [OF False] have IH: "parse_string (quote_body (drop (snd ?d) (c # s)) @ dquote # rest) =
        Some (sanitize (drop (snd ?d) (c # s)), rest)" .
    have "parse_string (quote_body (c # s) @ dquote # rest) =
        prepend (encode_rune (fst ?d)) (parse_string (quote_body (drop (snd ?d) (c # s)) @ dquote # rest))"
    proof (cases "bad_rune (c # s)")
      case True
      moreover from True have "fst ?d = rune_error" by (simp add: bad_rune_def del: decode_rune.simps)
      ultimately show ?thesis
        using False parse_u_escape [of rune_error]
        by (simp add: quote_body.simps(2) rune_error_def is_surrogate_def del: decode_rune.simps)
    next
      case good: False
      show ?thesis
      proof (cases "fst ?d \<in> {0x2028, 0x2029}")
        case True
        with False good parse_u_escape [of "fst ?d"] show ?thesis
          by (auto simp add: quote_body.simps(2) is_surrogate_def simp del: decode_rune.simps)
      next
        case plain: False
        with False good parse_rune [OF False good] show ?thesis
          by (simp add: quote_body.simps(2) del: decode_rune.simps)
      qed
    qed
    with IH show ?thesis by (simp add: sanitize.simps(2) prepend_def del: decode_rune.simps)
  qed
qed

section \<open>Values\<close>

text \<open>
  A parsed value.  An object keeps, with each key, the text of its value: what a
  \<open>json.RawMessage\<close> field receives.
\<close>

datatype jvalue =
    JNull
  | JBool bool
  | JNum string
  | JStr string
  | JArr "jvalue list"
  | JObj "(string \<times> string \<times> jvalue) list"

definition json_space :: "char \<Rightarrow> bool" where
  "json_space c \<longleftrightarrow> c = CHR 0x20 \<or> c = CHR 0x09 \<or> c = CHR 0x0A \<or> c = CHR 0x0D"

definition skip_ws :: "string \<Rightarrow> string" where
  "skip_ws = dropWhile json_space"

lemma skip_ws_length: "length (skip_ws s) \<le> length s"
  by (simp add: skip_ws_def length_dropWhile_le)

lemma skip_ws_Cons: "skip_ws s = c # t \<Longrightarrow> length t < length s"
  using skip_ws_length [of s] by simp

lemma skip_ws_next: "skip_ws s = c # t \<Longrightarrow> length t < length s \<and> length (skip_ws t) < length s"
  using skip_ws_length [of t] skip_ws_Cons [of s c t] by simp

lemma skip_ws_bound2: "2 * length (skip_ws t) \<le> 2 * length t" "2 * length (skip_ws t) < 2 + 2 * length t"
  using skip_ws_length [of t] by simp_all

definition all_digits :: "string \<Rightarrow> bool" where
  "all_digits s \<longleftrightarrow> s \<noteq> [] \<and> list_all is_digit s"

text \<open>A number is an optional sign, an integer part with no leading zero, a fraction and an exponent.\<close>

definition int_part :: "string \<Rightarrow> (string \<times> string) option" where
  "int_part s =
     (let ds = takeWhile is_digit s
      in if ds = [] then None
         else if hd ds = CHR ''0'' then Some (''0'', tl s)
         else Some (ds, drop (length ds) s))"

definition frac_part :: "string \<Rightarrow> (string \<times> string) option" where
  "frac_part s =
     (case s of
        c # t \<Rightarrow>
          (if c = CHR ''.'' then
             (let ds = takeWhile is_digit t
              in if ds = [] then None else Some (c # ds, drop (length ds) t))
           else Some ([], s))
      | [] \<Rightarrow> Some ([], s))"

definition exp_part :: "string \<Rightarrow> (string \<times> string) option" where
  "exp_part s =
     (case s of
        c # t \<Rightarrow>
          (if c = CHR ''e'' \<or> c = CHR ''E'' then
             (let (sgn, u) = split_sign t; ds = takeWhile is_digit u
              in if ds = [] then None else Some (c # sgn @ ds, drop (length ds) u))
           else Some ([], s))
      | [] \<Rightarrow> Some ([], s))"

definition parse_number :: "string \<Rightarrow> (string \<times> string) option" where
  "parse_number s =
     (let (sgn, s0) = (case s of c # t \<Rightarrow> if c = CHR ''-'' then ([c], t) else ([], s) | [] \<Rightarrow> ([], s))
      in case int_part s0 of None \<Rightarrow> None
         | Some (i, s1) \<Rightarrow>
             (case frac_part s1 of None \<Rightarrow> None
              | Some (f, s2) \<Rightarrow>
                  (case exp_part s2 of None \<Rightarrow> None
                   | Some (e, s3) \<Rightarrow> Some (sgn @ i @ f @ e, s3))))"

definition strip_prefix :: "string \<Rightarrow> string \<Rightarrow> string option" where
  "strip_prefix p s = (if take (length p) s = p then Some (drop (length p) s) else None)"

definition parse_literal :: "string \<Rightarrow> (jvalue \<times> string) option" where
  "parse_literal s =
     (case strip_prefix ''null'' s of Some r \<Rightarrow> Some (JNull, r)
      | None \<Rightarrow>
          (case strip_prefix ''true'' s of Some r \<Rightarrow> Some (JBool True, r)
           | None \<Rightarrow>
               (case strip_prefix ''false'' s of Some r \<Rightarrow> Some (JBool False, r)
                | None \<Rightarrow> map_option (\<lambda>(n, r). (JNum n, r)) (parse_number s))))"

lemma int_part_shorter: "int_part s = Some (x, r) \<Longrightarrow> length r < length s"
  by (cases s) (auto simp: int_part_def Let_def split: if_splits)

lemma frac_part_shorter: "frac_part s = Some (x, r) \<Longrightarrow> length r \<le> length s"
  by (auto simp: frac_part_def Let_def split: list.splits if_splits)

lemma exp_part_shorter: "exp_part s = Some (x, r) \<Longrightarrow> length r \<le> length s"
  by (auto simp: exp_part_def split_sign_def Let_def split: list.splits if_splits prod.splits)

lemma parse_number_shorter: "parse_number s = Some (x, r) \<Longrightarrow> length r < length s"
  by (force simp: parse_number_def Let_def dest!: int_part_shorter frac_part_shorter exp_part_shorter
      split: list.splits if_splits prod.splits option.splits)

lemma strip_prefix_Some: "strip_prefix p s = Some r \<longleftrightarrow> s = p @ r"
  by (auto simp: strip_prefix_def append_eq_conv_conj) (metis append_take_drop_id)

lemma parse_literal_shorter: "parse_literal s = Some (x, r) \<Longrightarrow> length r < length s"
  by (auto simp: parse_literal_def strip_prefix_Some dest: parse_number_shorter split: option.splits)

text \<open>
  One value, the elements of an array after its bracket, and the members of an object after its
  brace; \<open>d\<close> is the nesting that is left.  The recursive calls are guarded by the length of what
  is left, which is shown below to be shorter always.
\<close>

function parse_value :: "nat \<Rightarrow> string \<Rightarrow> (jvalue \<times> string) option"
  and parse_elems :: "nat \<Rightarrow> string \<Rightarrow> (jvalue list \<times> string) option"
  and parse_members :: "nat \<Rightarrow> string \<Rightarrow> ((string \<times> string \<times> jvalue) list \<times> string) option"
where
  "parse_value d s =
     (case s of
        [] \<Rightarrow> None
      | c # t \<Rightarrow>
          (if c = dquote then map_option (\<lambda>(x, r). (JStr x, r)) (parse_string t)
           else if c = CHR ''{'' then
             (if d = 0 then None
              else case skip_ws t of
                     [] \<Rightarrow> None
                   | e # r \<Rightarrow>
                       (if e = CHR ''}'' then Some (JObj [], r)
                        else map_option (\<lambda>(ms, r). (JObj ms, r)) (parse_members (d - 1) (skip_ws t))))
           else if c = CHR ''['' then
             (if d = 0 then None
              else case skip_ws t of
                     [] \<Rightarrow> None
                   | e # r \<Rightarrow>
                       (if e = CHR '']'' then Some (JArr [], r)
                        else map_option (\<lambda>(vs, r). (JArr vs, r)) (parse_elems (d - 1) (skip_ws t))))
           else parse_literal s))"
| "parse_elems d s =
     (case parse_value d s of
        None \<Rightarrow> None
      | Some (v, s1) \<Rightarrow>
          (if \<not> length s1 < length s then None
           else case skip_ws s1 of
                  [] \<Rightarrow> None
                | c # s2 \<Rightarrow>
                    (if c = CHR '']'' then Some ([v], s2)
                     else if c = CHR '','' then
                       map_option (\<lambda>(vs, r). (v # vs, r)) (parse_elems d (skip_ws s2))
                     else None)))"
| "parse_members d s =
     (case s of
        [] \<Rightarrow> None
      | q # t \<Rightarrow>
          (if q \<noteq> dquote then None
           else case parse_string t of
                  None \<Rightarrow> None
                | Some (k, s1) \<Rightarrow>
                    (case skip_ws s1 of
                       [] \<Rightarrow> None
                     | c # s2 \<Rightarrow>
                         (if c \<noteq> CHR '':'' then None
                          else case parse_value d (skip_ws s2) of
                                 None \<Rightarrow> None
                               | Some (v, s3) \<Rightarrow>
                                   (if \<not> length s3 < length (skip_ws s2) then None
                                    else
                                      let raw = take (length (skip_ws s2) - length s3) (skip_ws s2)
                                      in case skip_ws s3 of
                                           [] \<Rightarrow> None
                                         | e # s4 \<Rightarrow>
                                             (if e = CHR ''}'' then Some ([(k, raw, v)], s4)
                                              else if e = CHR '','' then
                                                map_option (\<lambda>(ms, r). ((k, raw, v) # ms, r))
                                                  (parse_members d (skip_ws s4))
                                              else None))))))"
  by pat_completeness auto
termination
  by (relation "measure (case_sum (\<lambda>(_, s). 2 * length s)
        (case_sum (\<lambda>(_, s). 2 * length s + 1) (\<lambda>(_, s). 2 * length s + 1)))")
    (auto dest!: parse_string_shorter skip_ws_next simp: skip_ws_bound2 less_Suc_eq_le)

declare parse_value.simps [simp del] parse_elems.simps [simp del] parse_members.simps [simp del]

text \<open>Every parser leaves less than it was given, so none of the guards above is ever taken.\<close>

lemma parse_shorter:
  "parse_value d s = Some (v, r) \<Longrightarrow> length r < length s"
  "parse_elems d s = Some (vs, r) \<Longrightarrow> length r < length s"
  "parse_members d s = Some (ms, r) \<Longrightarrow> length r < length s"
proof (induction d s and d s and d s arbitrary: v r and vs r and ms r
    rule: parse_value_parse_elems_parse_members.induct)
  case (1 d s)
  show ?case
  proof (cases s)
    case Nil
    with 1(3) show ?thesis by (simp add: parse_value.simps)
  next
    case (Cons c t)
    have "length r < length (skip_ws t)" if "parse_elems (d - 1) (skip_ws t) = Some (vs, r)"
        "c = CHR ''[''" "0 < d" "skip_ws t = e # u" "e \<noteq> CHR '']''" for e u vs
      using 1(2) [OF Cons, of e u vs r] that by simp
    moreover have "length r < length (skip_ws t)" if "parse_members (d - 1) (skip_ws t) = Some (ms, r)"
        "c = CHR ''{''" "0 < d" "skip_ws t = e # u" "e \<noteq> CHR ''}''" for e u ms
      using 1(1) [OF Cons, of e u ms r] that by simp
    ultimately show ?thesis
      using 1(3) skip_ws_length [of t] unfolding Cons
      by (subst (asm) parse_value.simps)
        (fastforce dest: parse_string_shorter parse_literal_shorter skip_ws_next
          split: if_splits list.splits)
  qed
next
  case (2 d s)
  from 2(3) obtain v s1 where v: "parse_value d s = Some (v, s1)" "length s1 < length s"
    by (subst (asm) parse_elems.simps) (auto split: option.splits if_splits)
  from 2(3) v obtain c s2 where s2: "skip_ws s1 = c # s2"
    by (subst (asm) parse_elems.simps) (auto split: list.splits)
  have "length r < length (skip_ws s2)" if "c \<noteq> CHR '']''" "c = CHR '',''" "parse_elems d (skip_ws s2) = Some (us, r)"
    for us
    using 2(2) [OF v(1) _ _ s2] v(2) that by auto
  with 2(3) v s2 skip_ws_next [OF s2] show ?case
    by (subst (asm) parse_elems.simps) (fastforce split: if_splits)
next
  case (3 d s)
  from 3(3) obtain t k s1 where t: "s = dquote # t" "parse_string t = Some (k, s1)"
    by (subst (asm) parse_members.simps) (auto split: option.splits if_splits list.splits)
  from 3(3) t obtain s2 where s2: "skip_ws s1 = CHR '':'' # s2"
    by (subst (asm) parse_members.simps) (auto split: if_splits list.splits)
  from 3(3) t s2 obtain v s3 where v: "parse_value d (skip_ws s2) = Some (v, s3)" "length s3 < length (skip_ws s2)"
    by (subst (asm) parse_members.simps) (auto split: option.splits if_splits)
  from 3(3) t s2 v obtain e s4 where s4: "skip_ws s3 = e # s4"
    by (subst (asm) parse_members.simps) (auto simp: Let_def split: list.splits)
  have "length r < length (skip_ws s4)" if "e \<noteq> CHR ''}''" "e = CHR '',''" "parse_members d (skip_ws s4) = Some (us, r)"
    for us
    using 3(2) [OF t(1) _ t(2) _ s2 _ v(1)] v(2) s4 that by auto
  with 3(3) t s2 v s4 skip_ws_next [OF s2] skip_ws_next [OF s4] parse_string_shorter [OF t(2)] show ?case
    by (subst (asm) parse_members.simps) (fastforce simp: Let_def split: if_splits)
qed

section \<open>Documents and maps of strings\<close>

definition max_depth :: nat where
  "max_depth = 10000"

definition json_parse :: "string \<Rightarrow> jvalue option" where
  "json_parse s =
     (case parse_value max_depth (skip_ws s) of
        None \<Rightarrow> None
      | Some (v, r) \<Rightarrow> (if skip_ws r = [] then Some v else None))"

text \<open>\<open>json.Marshal\<close> of a map from strings to strings: the keys in order.\<close>

definition marshal_member :: "string \<Rightarrow> string \<Rightarrow> string" where
  "marshal_member k v = quote k @ '':'' @ quote v"

definition marshal_map :: "(string \<rightharpoonup> string) \<Rightarrow> string" where
  "marshal_map m =
     ''{'' @ join_with '','' (map (\<lambda>k. marshal_member k (the (m k))) (sorted_list_of_set (dom m))) @ ''}''"

text \<open>
  \<open>json.Unmarshal\<close> into such a map, errors ignored: a member whose value is not a string is
  stored with the empty string, and a document that does not parse or is no object leaves the map alone.
\<close>

definition string_member :: "jvalue \<Rightarrow> string" where
  "string_member v = (case v of JStr s \<Rightarrow> s | _ \<Rightarrow> '''')"

definition store_members ::
    "(string \<times> string \<times> jvalue) list \<Rightarrow> (string \<rightharpoonup> string) \<Rightarrow> (string \<rightharpoonup> string)" where
  "store_members ms m = foldl (\<lambda>m (k, _, v). m(k \<mapsto> string_member v)) m ms"

definition unmarshal_map :: "string \<Rightarrow> (string \<rightharpoonup> string) \<Rightarrow> (string \<rightharpoonup> string)" where
  "unmarshal_map s m =
     (case json_parse s of
        Some (JObj ms) \<Rightarrow> store_members ms m
      | Some JNull \<Rightarrow> Map.empty
      | _ \<Rightarrow> m)"

text \<open>What a marshalled map reads back as, for any strings.\<close>

definition member_of :: "string \<Rightarrow> string \<Rightarrow> string \<times> string \<times> jvalue" where
  "member_of k v = (sanitize k, quote v, JStr (sanitize v))"

lemma skip_ws_no_space: "\<not> json_space c \<Longrightarrow> skip_ws (c # s) = c # s"
  by (simp add: skip_ws_def)

lemma parse_quoted: "parse_value d (quote v @ r) = Some (JStr (sanitize v), r)"
  by (simp add: quote_def parse_value.simps parse_quote_body)

lemma skip_quote: "skip_ws (quote v @ r) = quote v @ r"
  by (simp add: quote_def skip_ws_no_space json_space_def)

lemma quote_not_Nil [simp]: "quote v \<noteq> []"
  by (simp add: quote_def)

lemma parse_members_step:
  shows "parse_members d (marshal_member k v @ CHR ''}'' # r) = Some ([member_of k v], r)"
    and "parse_members d (marshal_member k v @ CHR '','' # r) =
      map_option (\<lambda>(ms, r). (member_of k v # ms, r)) (parse_members d (skip_ws r))"
proof -
  have p: "parse_string (quote_body k @ dquote # CHR '':'' # quote v @ c # r) =
      Some (sanitize k, CHR '':'' # quote v @ c # r)" for c
    by (rule parse_quote_body)
  have shape: "marshal_member k v @ c # r = dquote # quote_body k @ dquote # CHR '':'' # quote v @ c # r" for c
    by (simp add: marshal_member_def quote_def)
  show "parse_members d (marshal_member k v @ CHR ''}'' # r) = Some ([member_of k v], r)"
    unfolding shape
    by (simp add: parse_members.simps p skip_ws_no_space json_space_def skip_quote parse_quoted
        member_of_def Let_def)
  show "parse_members d (marshal_member k v @ CHR '','' # r) =
      map_option (\<lambda>(ms, r). (member_of k v # ms, r)) (parse_members d (skip_ws r))"
    unfolding shape
    by (subst parse_members.simps)
      (simp add: p skip_ws_no_space json_space_def skip_quote parse_quoted member_of_def Let_def)
qed

lemma parse_members_marshalled:
  "ks \<noteq> [] \<Longrightarrow>
   parse_members d (join_with '','' (map (\<lambda>k. marshal_member k (f k)) ks) @ CHR ''}'' # r) =
     Some (map (\<lambda>k. member_of k (f k)) ks, r)"
proof (induction ks rule: list_nonempty_induct)
  case (single k)
  show ?case by (simp add: parse_members_step)
next
  case (cons k ks)
  then obtain k' ks' where ks: "ks = k' # ks'" by (cases ks) auto
  let ?rest = "join_with '','' (map (\<lambda>k. marshal_member k (f k)) ks) @ CHR ''}'' # r"
  have "skip_ws ?rest = ?rest"
    by (cases ks') (simp_all add: ks marshal_member_def skip_quote)
  with cons.IH show ?case
    by (simp add: ks parse_members_step)
qed

lemma json_parse_marshal_map:
  assumes "finite (dom m)"
  shows "json_parse (marshal_map m) =
    Some (JObj (map (\<lambda>k. member_of k (the (m k))) (sorted_list_of_set (dom m))))"
proof -
  let ?ks = "sorted_list_of_set (dom m)"
  have "parse_value max_depth (marshal_map m) = Some (JObj (map (\<lambda>k. member_of k (the (m k))) ?ks), [])"
  proof (cases "?ks = []")
    case True
    then show ?thesis
      by (simp add: marshal_map_def parse_value.simps max_depth_def skip_ws_no_space json_space_def
          del: sorted_list_of_set_eq_Nil_iff)
  next
    case False
    let ?body = "join_with '','' (map (\<lambda>k. marshal_member k (the (m k))) ?ks) @ CHR ''}'' # []"
    from False obtain k ks where "?ks = k # ks" by (cases ?ks) auto
    then obtain u where u: "?body = dquote # u"
      by (cases ks) (simp_all add: marshal_member_def quote_def)
    have "parse_members (max_depth - 1) ?body = Some (map (\<lambda>k. member_of k (the (m k))) ?ks, [])"
      by (rule parse_members_marshalled [OF False])
    moreover have "marshal_map m = CHR ''{'' # ?body" by (simp add: marshal_map_def)
    ultimately show ?thesis
      by (simp add: parse_value.simps u skip_ws_no_space json_space_def max_depth_def)
  qed
  moreover have "skip_ws (marshal_map m) = marshal_map m"
    by (simp add: marshal_map_def skip_ws_no_space json_space_def)
  ultimately show ?thesis by (simp add: json_parse_def skip_ws_def)
qed

lemma unmarshal_marshal_map:
  assumes "finite (dom m)"
  shows "unmarshal_map (marshal_map m) m0 =
    foldl (\<lambda>acc k. acc(sanitize k \<mapsto> sanitize (the (m k)))) m0 (sorted_list_of_set (dom m))"
proof -
  have "store_members (map (\<lambda>k. member_of k (f k)) ks) m0 =
      foldl (\<lambda>acc k. acc(sanitize k \<mapsto> sanitize (f k))) m0 ks" for f ks
    unfolding store_members_def by (induction ks arbitrary: m0) (simp_all add: member_of_def string_member_def)
  then show ?thesis by (simp add: unmarshal_map_def json_parse_marshal_map [OF assms])
qed

definition valid_map :: "(string \<rightharpoonup> string) \<Rightarrow> bool" where
  "valid_map m \<longleftrightarrow> finite (dom m) \<and> (\<forall>k \<in> dom m. valid_utf8 k \<and> valid_utf8 (the (m k)))"

lemma foldl_collect:
  "set ks \<subseteq> dom m \<Longrightarrow>
   foldl (\<lambda>acc k. acc(k \<mapsto> the (m k))) m0 ks = (\<lambda>k. if k \<in> set ks then m k else m0 k)"
proof (induction ks rule: rev_induct)
  case Nil
  then show ?case by simp
next
  case (snoc k ks)
  then show ?case by (auto simp: fun_eq_iff)
qed

lemma unmarshal_marshal_valid:
  assumes "valid_map m"
  shows "unmarshal_map (marshal_map m) Map.empty = m"
proof -
  let ?ks = "sorted_list_of_set (dom m)"
  have fin: "finite (dom m)" using assms by (simp add: valid_map_def)
  have sub: "set ?ks \<subseteq> dom m" by (simp add: fin)
  have "foldl (\<lambda>acc k. acc(sanitize k \<mapsto> sanitize (the (m k)))) Map.empty ?ks =
      foldl (\<lambda>acc k. acc(k \<mapsto> the (m k))) Map.empty ?ks"
    using assms by (intro foldl_cong) (auto simp: valid_map_def fin sanitize_valid)
  also have "\<dots> = m" by (simp add: foldl_collect [OF sub] fin fun_eq_iff) (auto simp: dom_def)
  finally show ?thesis by (simp add: unmarshal_marshal_map [OF fin])
qed

end
