(* ===== verification/Entries.thy ===== *)
theory Entries
  imports Stream Json Delivery
begin

text \<open>
  Messages as stream entries: the part of \<open>engine/relay.go\<close> that names the Redis keys of a room,
  writes a message as the fields of an entry and reads entries back.  The functions take the key
  prefix and the executor of the relay they are methods of.
\<close>

section \<open>Keys\<close>

definition streamKey :: "string \<Rightarrow> string \<Rightarrow> string" where
  "streamKey prefix roomID = prefix @ ''stream:'' @ roomID"

definition offsetKey :: "string \<Rightarrow> string \<Rightarrow> string \<Rightarrow> string" where
  "offsetKey prefix roomID userID = prefix @ ''offset:'' @ roomID @ '':'' @ userID"

section \<open>Writing\<close>

definition message_fields :: "message \<Rightarrow> (string \<rightharpoonup> string)" where
  "message_fields msg =
     (let metadataStr = (if msg_Metadata msg = Map.empty then '''' else marshal_map (msg_Metadata msg))
      in [''sender_id'' \<mapsto> msg_SenderID msg, ''type'' \<mapsto> msg_Type msg, ''content'' \<mapsto> content_text (msg_Content msg),
          ''metadata'' \<mapsto> metadataStr,
          ''timestamp'' \<mapsto> FormatInt (time_to_milli (msg_Timestamp msg))])"

definition publishToStream ::
    "'s executor \<Rightarrow> string list \<Rightarrow> string \<Rightarrow> string \<Rightarrow> message \<Rightarrow> 's \<Rightarrow>
     (client_error, string) outcome \<times> 's" where
  "publishToStream exec ord prefix roomID msg =
     XAdd exec ord (streamKey prefix roomID) ''*'' (message_fields msg)"

section \<open>Reading\<close>

definition parseStreamEntry :: "string \<Rightarrow> stream_entry \<Rightarrow> message" where
  "parseStreamEntry roomID entry =
     (let fs = se_Fields entry;
          str = (\<lambda>k. case fs k of Some v \<Rightarrow> v | None \<Rightarrow> '''')
      in \<lparr>msg_ID = se_ID entry, msg_RoomID = roomID, msg_SenderID = str ''sender_id'',
          msg_Type = str ''type'', msg_Content = fs ''content'',
          msg_Metadata =
            (case fs ''metadata'' of
               Some v \<Rightarrow> (if v \<noteq> '''' then unmarshal_map v Map.empty else Map.empty)
             | None \<Rightarrow> Map.empty),
          msg_Timestamp =
            (case fs ''timestamp'' of
               Some v \<Rightarrow> (case ParseInt v of Some ts \<Rightarrow> time_of_milli ts | None \<Rightarrow> zero_time)
             | None \<Rightarrow> zero_time)\<rparr>)"

definition readFromStream ::
    "'s executor \<Rightarrow> string \<Rightarrow> string \<Rightarrow> string \<Rightarrow> int \<Rightarrow> duration \<Rightarrow> 's \<Rightarrow>
     (client_error, message list) outcome \<times> 's" where
  "readFromStream exec prefix roomID lastID n block s =
     (let key = streamKey prefix roomID
      in after (XRead exec [key] n block [key \<mapsto> lastID] s)
           (\<lambda>results s'.
              (Returns (concat (map (\<lambda>result. map (parseStreamEntry roomID) (sr_Entries result)) results)), s')))"

section \<open>Round trip\<close>

text \<open>What a message is after a trip through the stream: the time stamp is cut to milliseconds and
  nil content is empty content.\<close>

definition stored_message :: "string \<Rightarrow> string \<Rightarrow> message \<Rightarrow> message" where
  "stored_message roomID i msg =
     msg\<lparr>msg_ID := i, msg_RoomID := roomID, msg_Content := Some (content_text (msg_Content msg)),
         msg_Timestamp := time_of_milli (time_to_milli (msg_Timestamp msg))\<rparr>"

definition storable :: "message \<Rightarrow> bool" where
  "storable msg \<longleftrightarrow> valid_map (msg_Metadata msg) \<and> in_int64 (time_to_milli (msg_Timestamp msg))"

lemma marshal_map_not_Nil [simp]: "marshal_map m \<noteq> []"
  by (simp add: marshal_map_def)

lemma dom_message_fields:
  "dom (message_fields msg) = {''sender_id'', ''type'', ''content'', ''metadata'', ''timestamp''}"
  by (auto simp: message_fields_def Let_def)

lemma parse_message_fields:
  assumes "storable msg"
  shows "parseStreamEntry roomID \<lparr>se_ID = i, se_Fields = message_fields msg\<rparr> = stored_message roomID i msg"
  using assms
  by (simp add: parseStreamEntry_def message_fields_def stored_message_def storable_def Let_def
      unmarshal_marshal_valid)

lemma message_entry_read_back:
  assumes "storable msg" and "set ord = dom (message_fields msg)"
  shows "parseStreamEntry roomID (entry_of (i, field_pairs ord (message_fields msg))) =
    stored_message roomID i msg"
  using parse_message_fields [OF assms(1), of roomID i] field_pairs_read_back [OF assms(2)]
  by (simp add: entry_of_def)

end
