(* ===== verification/Room.thy ===== *)
theory Room
  imports Entries
begin

text \<open>
  The rooms of \<open>engine/room.go\<close>: members, subscribers and presence, the broadcast, and the
  goroutine that listens to the room's Redis stream.  The stop channel is replaced by every
  \<open>Start\<close> and read again by every round of every listener, so a room keeps whether its current
  channel is closed and how many listeners are running.  \<open>hh\<close> tells whether the relay has an event
  handler, \<open>clk k\<close> is the k-th reading of the clock within a call and a list \<open>ord\<close> the order in
  which a map is enumerated.
\<close>

section \<open>State and operations\<close>

record room =
  rm_config :: room_config
  rm_subscribers :: "string \<rightharpoonup> subscriber"
  rm_presence :: "string \<rightharpoonup> presence_info"
  rm_stopClosed :: bool
  rm_listeners :: nat
  rm_running :: bool
  rm_lastActive :: gotime

definition newRoom :: "room_config \<Rightarrow> gotime \<Rightarrow> room" where
  "newRoom config now =
     \<lparr>rm_config = config, rm_subscribers = Map.empty, rm_presence = Map.empty, rm_stopClosed = False,
      rm_listeners = 0, rm_running = False, rm_lastActive = now\<rparr>"

definition Room_Subscribe ::
    "(nat \<Rightarrow> gotime) \<Rightarrow> bool \<Rightarrow> subscriber \<Rightarrow> presence_info option \<Rightarrow> room \<Rightarrow> room \<times> effect list" where
  "Room_Subscribe clk hh sub info r =
     (let userID = sub_ID sub
      in (r\<lparr>rm_subscribers := (rm_subscribers r)(userID \<mapsto> sub),
            rm_lastActive := clk 0,
            rm_presence := (rm_presence r)(userID \<mapsto> default_presence userID (clk 1) info)\<rparr>,
          map SubClose (opt_list (rm_subscribers r userID)) @
          emit hh (room_event EventTypeSubscribe (rc_ID (rm_config r)) userID (clk 2))))"

definition Room_Unsubscribe :: "(nat \<Rightarrow> gotime) \<Rightarrow> bool \<Rightarrow> string \<Rightarrow> room \<Rightarrow> room \<times> effect list" where
  "Room_Unsubscribe clk hh userID r =
     (case rm_subscribers r userID of
        Some sub \<Rightarrow>
          (r\<lparr>rm_subscribers := (rm_subscribers r)(userID := None),
             rm_presence := (rm_presence r)(userID := None),
             rm_lastActive := clk 0\<rparr>,
           SubClose sub #
           emit hh (room_event EventTypeUnsubscribe (rc_ID (rm_config r)) userID (clk 1)))
      | None \<Rightarrow> (r, []))"

definition Room_GetSubscriber :: "room \<Rightarrow> string \<Rightarrow> subscriber option" where
  "Room_GetSubscriber r userID = rm_subscribers r userID"

definition Room_GetSubscribers :: "string list \<Rightarrow> room \<Rightarrow> subscriber list" where
  "Room_GetSubscribers ord r = List.map_filter (rm_subscribers r) ord"

definition Room_GetSubscriberIDs :: "string list \<Rightarrow> room \<Rightarrow> string list" where
  "Room_GetSubscriberIDs ord r = filter (\<lambda>i. rm_subscribers r i \<noteq> None) ord"

definition Room_SubscriberCount :: "room \<Rightarrow> int" where
  "Room_SubscriberCount r = int (card (dom (rm_subscribers r)))"

definition Room_IsSubscribed :: "room \<Rightarrow> string \<Rightarrow> bool" where
  "Room_IsSubscribed r userID \<longleftrightarrow> rm_subscribers r userID \<noteq> None"

definition Room_IsMember :: "room \<Rightarrow> string \<Rightarrow> bool" where
  "Room_IsMember r userID \<longleftrightarrow> userID \<in> set (rc_Members (rm_config r))"

definition Room_AddMember :: "string \<Rightarrow> room \<Rightarrow> room" where
  "Room_AddMember userID r =
     (if userID \<in> set (rc_Members (rm_config r)) then r
      else r\<lparr>rm_config := (rm_config r)\<lparr>rc_Members := rc_Members (rm_config r) @ [userID]\<rparr>\<rparr>)"

definition Room_RemoveMember :: "string \<Rightarrow> room \<Rightarrow> room \<times> effect list" where
  "Room_RemoveMember userID r =
     (let members = filter (\<lambda>m. m \<noteq> userID) (rc_Members (rm_config r));
          r1 = r\<lparr>rm_config := (rm_config r)\<lparr>rc_Members := members\<rparr>\<rparr>
      in case rm_subscribers r userID of
           Some sub \<Rightarrow>
             (r1\<lparr>rm_subscribers := (rm_subscribers r)(userID := None),
                 rm_presence := (rm_presence r)(userID := None)\<rparr>, [SubClose sub])
         | None \<Rightarrow> (r1, []))"

definition Room_GetPresence :: "string list \<Rightarrow> room \<Rightarrow> presence_info list" where
  "Room_GetPresence ord r = List.map_filter (rm_presence r) ord"

definition Room_Broadcast ::
    "gotime \<Rightarrow> bool \<Rightarrow> (subscriber \<Rightarrow> nat \<Rightarrow> receive_result) \<Rightarrow> string list \<Rightarrow> room \<Rightarrow> message \<Rightarrow>
     publish_options option \<Rightarrow> delivery_result list \<times> effect list" where
  "Room_Broadcast now hh rx fin r msg opts =
     broadcast (\<lambda>u s. Room_safeDeliver now hh (rc_ID (rm_config r)) (msg_ID msg) u s (rx s)) fin
       (rm_subscribers r) (rc_Members (rm_config r)) (msg_SenderID msg) opts"

definition Room_Start :: "room \<Rightarrow> room" where
  "Room_Start r =
     (if rm_running r then r
      else r\<lparr>rm_running := True, rm_stopClosed := False, rm_listeners := Suc (rm_listeners r)\<rparr>)"

definition Room_Stop :: "room \<Rightarrow> room" where
  "Room_Stop r = (if rm_running r then r\<lparr>rm_stopClosed := True, rm_running := False\<rparr> else r)"

definition Room_Close :: "string list \<Rightarrow> room \<Rightarrow> room \<times> effect list" where
  "Room_Close ord r =
     ((Room_Stop r)\<lparr>rm_subscribers := Map.empty, rm_presence := Map.empty\<rparr>,
      map SubClose (List.map_filter (rm_subscribers r) ord))"

section \<open>The listener\<close>

record listener =
  ln_lastID :: string
  ln_errors :: nat

definition new_listener :: listener where
  "new_listener = \<lparr>ln_lastID = ''$'', ln_errors = 0\<rparr>"

definition listen_backoff :: "nat \<Rightarrow> duration" where
  "listen_backoff consecutiveErrors = min (int consecutiveErrors * second) (30 * second)"

definition maxConsecutiveErrors :: nat where
  "maxConsecutiveErrors = 10"

definition skip_sender_only :: publish_options where
  "skip_sender_only = \<lparr>po_SkipSender = True, po_Priority = 0, po_TTL = 0, po_Persist = False\<rparr>"

text \<open>
  The messages of one read, broadcast in order; \<open>dv j\<close> says, for the j-th of them, what the
  subscribers do, who is done in time, and what the clock reads.
\<close>

type_synonym delivery_env = "(subscriber \<Rightarrow> nat \<Rightarrow> receive_result) \<times> string list \<times> gotime"

fun listen_messages ::
    "(nat \<Rightarrow> delivery_env) \<Rightarrow> bool \<Rightarrow> nat \<Rightarrow> message list \<Rightarrow> listener \<Rightarrow> room \<Rightarrow> listener \<times> room \<times> effect list" where
  "listen_messages dv hh j [] l r = (l, r, [])"
| "listen_messages dv hh j (msg # messages) l r =
     (let (rx, fin, now) = dv j;
          es = snd (Room_Broadcast now hh rx fin r msg (Some skip_sender_only));
          (l', r', es') =
            listen_messages dv hh (Suc j) messages (l\<lparr>ln_lastID := msg_ID msg\<rparr>) (r\<lparr>rm_lastActive := now\<rparr>)
      in (l', r', es @ es'))"

datatype round_end = Goes_on | Sleeps duration | Ended | Dies | Waits

text \<open>
  One round: it ends when the context is done or the stop channel closed; otherwise it reads and
  delivers, or counts the error and backs off.  \<open>errtxt\<close> is the text of an error.
\<close>

definition listen_round ::
    "'s executor \<Rightarrow> string \<Rightarrow> (client_error \<Rightarrow> string) \<Rightarrow> (nat \<Rightarrow> delivery_env) \<Rightarrow> gotime \<Rightarrow> bool \<Rightarrow> bool \<Rightarrow>
     listener \<Rightarrow> room \<Rightarrow> 's \<Rightarrow> round_end \<times> listener \<times> room \<times> 's \<times> effect list" where
  "listen_round exec prefix errtxt dv now hh ctx_done l r s =
     (if ctx_done \<or> rm_stopClosed r then (Ended, l, r\<lparr>rm_listeners := rm_listeners r - 1\<rparr>, s, [])
      else
        case readFromStream exec prefix (rc_ID (rm_config r)) (ln_lastID l) 100 (5 * second) s of
          (Returns messages, s') \<Rightarrow>
            (let (l', r', es) = listen_messages dv hh 0 messages (l\<lparr>ln_errors := 0\<rparr>) r
             in (Goes_on, l', r', s', es))
        | (Fails e, s') \<Rightarrow>
            (let n = Suc (ln_errors l)
             in (Sleeps (listen_backoff n), l\<lparr>ln_errors := n\<rparr>, r, s',
                 (if maxConsecutiveErrors \<le> n
                  then emit hh
                    \<lparr>ev_Type = EventTypeError, ev_RoomID = rc_ID (rm_config r), ev_UserID = '''',
                     ev_Timestamp = now, ev_Data = StreamErrorsData n (errtxt e)\<rparr>
                  else [])))
        | (Panics, s') \<Rightarrow> (Dies, l, r\<lparr>rm_listeners := rm_listeners r - 1\<rparr>, s', [])
        | (Blocks, s') \<Rightarrow> (Waits, l, r, s', []))"

text \<open>
  The loop, for at most \<open>n\<close> rounds: it sleeps on after an error and stops for every other end.
  \<open>env k\<close> is what the environment does in the round before which \<open>k\<close> rounds are left.
\<close>

type_synonym round_env = "(nat \<Rightarrow> delivery_env) \<times> gotime \<times> bool"

fun listen_loop ::
    "'s executor \<Rightarrow> string \<Rightarrow> (client_error \<Rightarrow> string) \<Rightarrow> bool \<Rightarrow> (nat \<Rightarrow> round_env) \<Rightarrow> nat \<Rightarrow>
     listener \<Rightarrow> room \<Rightarrow> 's \<Rightarrow> round_end \<times> listener \<times> room \<times> 's \<times> effect list" where
  "listen_loop exec prefix errtxt hh env 0 l r s = (Goes_on, l, r, s, [])"
| "listen_loop exec prefix errtxt hh env (Suc n) l r s =
     (let (dv, now, ctx_done) = env n;
          (e, l1, r1, s1, es) = listen_round exec prefix errtxt dv now hh ctx_done l r s
      in case e of
           Ended \<Rightarrow> (Ended, l1, r1, s1, es)
         | Dies \<Rightarrow> (Dies, l1, r1, s1, es)
         | Waits \<Rightarrow> (Waits, l1, r1, s1, es)
         | _ \<Rightarrow>
             (let (e', l2, r2, s2, es') = listen_loop exec prefix errtxt hh env n l1 r1 s1
              in (e', l2, r2, s2, es @ es')))"

text \<open>The deferred function after a panic: it reports, and restarts a listener from scratch.\<close>

definition listen_recover ::
    "gotime \<Rightarrow> bool \<Rightarrow> string \<Rightarrow> room \<Rightarrow> listener option \<times> room \<times> effect list" where
  "listen_recover now hh recovered r =
     (let es = emit hh
        \<lparr>ev_Type = EventTypeError, ev_RoomID = rc_ID (rm_config r), ev_UserID = '''',
         ev_Timestamp = now, ev_Data = ListenPanicData recovered\<rparr>
      in if rm_running r then (Some new_listener, r\<lparr>rm_listeners := Suc (rm_listeners r)\<rparr>, es)
         else (None, r, es))"

section \<open>The subscriber table\<close>

definition room_step :: "(nat \<Rightarrow> gotime) \<Rightarrow> bool \<Rightarrow> room \<Rightarrow> room_op \<Rightarrow> room \<times> effect list" where
  "room_step clk hh r ev =
     (case ev of
        Join sub info \<Rightarrow> Room_Subscribe clk hh sub info r
      | Leave u \<Rightarrow> Room_Unsubscribe clk hh u r
      | CloseAll ord \<Rightarrow> Room_Close ord r)"

lemma Room_Stop_frame [simp]:
  "rm_subscribers (Room_Stop r) = rm_subscribers r" "rm_presence (Room_Stop r) = rm_presence r"
  "rm_config (Room_Stop r) = rm_config r" "rm_listeners (Room_Stop r) = rm_listeners r"
  by (simp_all add: Room_Stop_def)

interpretation redis_room: subscriber_room rm_subscribers rm_presence "room_step clk hh"
  for clk hh
  by unfold_locales
    (auto simp: room_step_def Room_Subscribe_def Room_Unsubscribe_def Room_Close_def Let_def
      fun_upd_idem_iff split: option.split)

text \<open>All operations of a room, and what they keep: the tables agree, a running room's stop channel
  is open and the listeners are counted.\<close>

datatype room_act =
    TableOp "nat \<Rightarrow> gotime" room_op
  | AddMember string
  | RemoveMember string
  | StartRoom
  | StopRoom
  | Touch gotime

fun room_act_step :: "bool \<Rightarrow> room \<Rightarrow> room_act \<Rightarrow> room" where
  "room_act_step hh r (TableOp clk ev) = fst (room_step clk hh r ev)"
| "room_act_step hh r (AddMember u) = Room_AddMember u r"
| "room_act_step hh r (RemoveMember u) = fst (Room_RemoveMember u r)"
| "room_act_step hh r StartRoom = Room_Start r"
| "room_act_step hh r StopRoom = Room_Stop r"
| "room_act_step hh r (Touch now) = r\<lparr>rm_lastActive := now\<rparr>"

definition room_inv :: "room \<Rightarrow> bool" where
  "room_inv r \<longleftrightarrow>
     table_ok (rm_subscribers r) (rm_presence r) \<and> distinct (rc_Members (rm_config r)) \<and>
     (rm_running r \<longrightarrow> \<not> rm_stopClosed r \<and> 0 < rm_listeners r)"

lemma room_step_frame:
  "rm_config (fst (room_step clk hh r ev)) = rm_config r"
  "rm_listeners (fst (room_step clk hh r ev)) = rm_listeners r"
  "rm_running (fst (room_step clk hh r ev)) \<Longrightarrow> rm_running r"
  "rm_running (fst (room_step clk hh r ev)) \<Longrightarrow> rm_stopClosed (fst (room_step clk hh r ev)) = rm_stopClosed r"
  by (auto simp: room_step_def Room_Subscribe_def Room_Unsubscribe_def Room_Close_def Room_Stop_def Let_def
      split: room_op.splits option.splits if_splits)

lemma room_inv_step: "room_inv r \<Longrightarrow> room_inv (room_act_step hh r a)"
proof (cases a)
  case (TableOp clk ev)
  assume "room_inv r"
  then show ?thesis
    using redis_room.ok_step [of r clk hh ev] room_step_frame [of clk hh r ev]
    by (auto simp: room_inv_def TableOp)
next
  case (RemoveMember u)
  assume "room_inv r"
  then show ?thesis
    by (auto simp: room_inv_def RemoveMember Room_RemoveMember_def table_ok_def Let_def split: option.split)
qed (auto simp: room_inv_def Room_AddMember_def Room_Start_def Room_Stop_def)

interpretation room_life: step_machine "room_act_step hh" room_inv for hh
  by unfold_locales (rule room_inv_step)

lemma room_inv_new: "distinct (rc_Members config) \<Longrightarrow> room_inv (newRoom config now)"
  by (simp add: room_inv_def newRoom_def table_ok_def)

text \<open>
  Whatever sequence of joins, leaves, membership changes, starts, stops and closes a new room goes
  through, the users with a presence are exactly those with a subscriber, every subscriber is
  filed under its own ID, no member is listed twice, and a running room has a listener whose stop
  channel is open.
\<close>

theorem room_tables_agree:
  assumes "distinct (rc_Members config)"
  shows "let r = foldl (room_act_step hh) (newRoom config now) acts in
    dom (rm_presence r) = dom (rm_subscribers r) \<and>
    (\<forall>u s. rm_subscribers r u = Some s \<longrightarrow> sub_ID s = u) \<and>
    distinct (rc_Members (rm_config r)) \<and>
    (rm_running r \<longrightarrow> \<not> rm_stopClosed r \<and> 0 < rm_listeners r)"
  using room_life.run_from_inv [OF room_inv_new [OF assms]]
  by (simp add: room_inv_def table_ok_def Let_def)

definition sample_sub :: "nat \<Rightarrow> string \<Rightarrow> subscriber" where
  "sample_sub h u = \<lparr>sub_handle = h, sub_ID = u\<rparr>"

theorem room_tables_agree_witness:
  "let r = foldl (room_act_step False) (newRoom (NewRoomConfig ''r'' [WithRoomMembers [''a'', ''b'']]) 0)
       [StartRoom, TableOp (\<lambda>_. 0) (Join (sample_sub 1 ''a'') None), RemoveMember ''a''] in
    dom (rm_presence r) = dom (rm_subscribers r) \<and> rc_Members (rm_config r) = [''b''] \<and>
    rm_running r \<and> rm_listeners r = 1"
  using room_tables_agree [of "NewRoomConfig ''r'' [WithRoomMembers [''a'', ''b'']]" False 0
      "[StartRoom, TableOp (\<lambda>_. 0) (Join (sample_sub 1 ''a'') None), RemoveMember ''a'']"]
  by (simp add: NewRoomConfig_def WithRoomMembers_def newRoom_def Room_Start_def room_step_def
      Room_Subscribe_def sample_sub_def Room_RemoveMember_def Let_def)

lemma listen_round_goes_on:
  assumes "\<not> rm_stopClosed r"
  shows "fst (listen_round exec prefix errtxt dv now hh False l r s) \<noteq> Ended"
proof (cases "readFromStream exec prefix (rc_ID (rm_config r)) (ln_lastID l) 100 (5 * second) s")
  case (Pair res s')
  with assms show ?thesis
    by (cases res) (simp_all add: listen_round_def Let_def case_prod_unfold)
qed

text \<open>
  A stop and a start between two rounds leave the old listener running: after \<open>k\<close> of them
  \<open>k + 1\<close> listeners read the stream, and none of them is told to end.
\<close>

theorem restart_adds_listener:
  "let r = ((\<lambda>r. Room_Start (Room_Stop r)) ^^ k) (Room_Start (newRoom config now)) in
    rm_listeners r = Suc k \<and> rm_running r \<and>
    (\<forall>l s. fst (listen_round exec prefix errtxt dv now' hh False l r s) \<noteq> Ended)"
proof -
  define f where "f r = Room_Start (Room_Stop r)" for r
  have f: "rm_listeners (f r) = Suc (rm_listeners r) \<and> rm_running (f r) \<and> \<not> rm_stopClosed (f r)"
    if "rm_running r" for r
    using that by (simp add: f_def Room_Start_def Room_Stop_def)
  have "rm_listeners ((f ^^ k) r) = rm_listeners r + k \<and> rm_running ((f ^^ k) r) \<and>
      \<not> rm_stopClosed ((f ^^ k) r)" if "rm_running r" "\<not> rm_stopClosed r" for r
  proof (induction k)
    case (Suc k)
    then show ?case using f [of "(f ^^ k) r"] by simp
  qed (use that in simp)
  from this [of "Room_Start (newRoom config now)"]
  have "rm_listeners ((f ^^ k) (Room_Start (newRoom config now))) = Suc k \<and>
      rm_running ((f ^^ k) (Room_Start (newRoom config now))) \<and>
      \<not> rm_stopClosed ((f ^^ k) (Room_Start (newRoom config now)))"
    by (simp add: Room_Start_def newRoom_def)
  moreover have "f = (\<lambda>r. Room_Start (Room_Stop r))" by (simp add: f_def fun_eq_iff)
  ultimately show ?thesis by (simp add: Let_def listen_round_goes_on del: funpow.simps)
qed

section \<open>What the listener delivers\<close>

lemma receives_safeDeliver:
  "receives s (snd (Room_safeDeliver now hh rid mid u t (rx t))) =
     (if t = s then snd (attempts (rx s)) else 0)"
  by (auto simp: Room_safeDeliver_def receives_def emit_def split: prod.split attempt_result.split)

lemma Room_Broadcast_receives:
  assumes "table_ok (rm_subscribers r) (rm_presence r)" and "rm_subscribers r (sub_ID s) = Some s"
    and "sub_ID s \<in> set fin" and "rx s 0 = RecvOk"
  shows "receives s (snd (Room_Broadcast now hh rx fin r msg opts)) =
    (if skipped opts (msg_SenderID msg) (sub_ID s) then 0 else 1)"
proof -
  have "snd (attempts (rx s)) = 1" using assms(4) by (simp add: attempts_cases)
  then have one: "receives s (snd (Room_safeDeliver now hh rid mid u t (rx t))) = (if t = s then 1 else 0)"
    for rid mid u t
    by (simp only: receives_safeDeliver)
  have ids: "sub_ID t = u" if "rm_subscribers r u = Some t" for u t
    using assms(1) that unfolding table_ok_def by blast
  show ?thesis
    unfolding Room_Broadcast_def by (rule broadcast_receives) (fact ids one assms(2,3))+
qed

definition prompt :: "(nat \<Rightarrow> delivery_env) \<Rightarrow> subscriber \<Rightarrow> bool" where
  "prompt dv s \<longleftrightarrow> (\<forall>j. case dv j of (rx, fin, _) \<Rightarrow> sub_ID s \<in> set fin \<and> rx s 0 = RecvOk)"

definition wanted :: "subscriber \<Rightarrow> message list \<Rightarrow> nat" where
  "wanted s messages = length (filter (\<lambda>m. msg_SenderID m \<noteq> sub_ID s) messages)"

lemma listen_messages_receives:
  assumes "prompt dv s"
  shows "table_ok (rm_subscribers r) (rm_presence r) \<Longrightarrow> rm_subscribers r (sub_ID s) = Some s \<Longrightarrow>
    case listen_messages dv hh j messages l r of (l', r', es) \<Rightarrow>
      receives s es = wanted s messages \<and>
      ln_lastID l' = (if messages = [] then ln_lastID l else msg_ID (last messages)) \<and>
      ln_errors l' = ln_errors l \<and>
      rm_subscribers r' = rm_subscribers r \<and> rm_presence r' = rm_presence r"
proof (induction messages arbitrary: j l r)
  case Nil
  then show ?case by (simp add: wanted_def)
next
  case (Cons msg messages)
  obtain rx fin now where d: "dv j = (rx, fin, now)" by (cases "dv j") auto
  with assms have "sub_ID s \<in> set fin" "rx s 0 = RecvOk" by (auto simp: prompt_def split: prod.splits)
  then have b: "receives s (snd (Room_Broadcast now hh rx fin r msg (Some skip_sender_only))) =
      (if msg_SenderID msg = sub_ID s then 0 else 1)"
    using Room_Broadcast_receives [OF Cons.prems, of fin rx now hh msg "Some skip_sender_only"]
    by (auto simp: skipped_def skip_sender_only_def)
  from Cons.IH [of "r\<lparr>rm_lastActive := now\<rparr>" "l\<lparr>ln_lastID := msg_ID msg\<rparr>" "Suc j"] Cons.prems b
  show ?case
    by (auto simp: d wanted_def split: prod.splits)
qed

definition read_request :: "string \<Rightarrow> string \<Rightarrow> string \<Rightarrow> string list" where
  "read_request prefix roomID lastID =
     [''XREAD'', ''COUNT'', ''100'', ''BLOCK'', ''5000'', ''STREAMS'', streamKey prefix roomID, lastID]"

lemma readFromStream_eq:
  "readFromStream exec prefix roomID lastID 100 (5 * second) s =
    after (read_streams exec ''XREAD'' (read_request prefix roomID lastID) s)
      (\<lambda>results s'.
         (Returns (concat (map (\<lambda>result. map (parseStreamEntry roomID) (sr_Entries result)) results)), s'))"
proof -
  have "FormatInt 100 = ''100''" "FormatInt (5 * second div 1000000) = ''5000''"
    by (simp_all add: FormatInt_def nat_digits.simps digit_char_def second_def)
  then show ?thesis
    by (simp add: readFromStream_def XRead_def read_request_def count_args_def block_args_def
        streams_args_def second_def Let_def)
qed

lemma readFromStream_entries:
  assumes "exec (read_request prefix roomID lastID) s =
      (Returns (array_value [stream_reply (streamKey prefix roomID, es)]), s')"
  shows "readFromStream exec prefix roomID lastID 100 (5 * second) s =
    (Returns (map (parseStreamEntry roomID \<circ> entry_of) es), s')"
proof -
  have "parseStreamResults (array_value [stream_reply (streamKey prefix roomID, es)]) =
      Returns [\<lparr>sr_Stream = streamKey prefix roomID, sr_Entries = map entry_of es\<rparr>]"
    using parse_streams_reply [of "[(streamKey prefix roomID, es)]"] by simp
  then show ?thesis by (simp add: readFromStream_eq read_streams_def assms)
qed

lemma listen_round_entries:
  assumes "room_inv r" and "\<not> rm_stopClosed r" and "rm_subscribers r (sub_ID s) = Some s"
    and "prompt dv s"
    and "exec (read_request prefix (rc_ID (rm_config r)) (ln_lastID l)) st =
      (Returns (array_value [stream_reply (streamKey prefix (rc_ID (rm_config r)), es)]), st')"
    and "es \<noteq> []"
  shows "\<exists>l' r' effs. listen_round exec prefix errtxt dv now hh False l r st = (Goes_on, l', r', st', effs) \<and>
    receives s effs =
      length (filter (\<lambda>e. (case map_of (rev (snd e)) ''sender_id'' of Some u \<Rightarrow> u | None \<Rightarrow> '''') \<noteq> sub_ID s) es) \<and>
    ln_lastID l' = fst (last es) \<and> ln_errors l' = 0"
proof -
  let ?id = "rc_ID (rm_config r)"
  let ?ms = "map (parseStreamEntry ?id \<circ> entry_of) es"
  have t: "table_ok (rm_subscribers r) (rm_presence r)" using assms(1) by (simp add: room_inv_def)
  have w: "wanted s ?ms = length (filter
      (\<lambda>e. (case map_of (rev (snd e)) ''sender_id'' of Some u \<Rightarrow> u | None \<Rightarrow> '''') \<noteq> sub_ID s) es)"
    by (simp add: wanted_def filter_map comp_def parseStreamEntry_def entry_of_def Let_def)
  have i: "?ms \<noteq> []" "msg_ID (last ?ms) = fst (last es)"
    using assms(6) by (simp_all add: last_map parseStreamEntry_def entry_of_def Let_def)
  obtain l' r' effs where m: "listen_messages dv hh 0 ?ms (l\<lparr>ln_errors := 0\<rparr>) r = (l', r', effs)"
    by (metis prod_cases3)
  have "receives s effs = wanted s ?ms" "ln_lastID l' = fst (last es)" "ln_errors l' = 0"
    using listen_messages_receives [OF assms(4) t assms(3), where hh = hh and j = 0 and messages = ?ms
        and l = "l\<lparr>ln_errors := 0\<rparr>"] i
    by (simp_all add: m)
  moreover have "listen_round exec prefix errtxt dv now hh False l r st = (Goes_on, l', r', st', effs)"
    using assms(2) m by (simp add: listen_round_def readFromStream_entries [where exec = exec, OF assms(5)])
  ultimately show ?thesis using w by simp
qed


definition bob :: subscriber where
  "bob = \<lparr>sub_handle = 1, sub_ID = ''bob''\<rparr>"

definition sample_room :: room where
  "sample_room = Room_Start (fst (Room_Subscribe (\<lambda>_. 0) False bob None
     (newRoom (NewRoomConfig ''r'' []) 0)))"

lemma sample_room_facts:
  "room_inv sample_room" "\<not> rm_stopClosed sample_room" "rc_ID (rm_config sample_room) = ''r''"
  "rm_subscribers sample_room = [''bob'' \<mapsto> bob]" "sub_ID bob = ''bob''"
  by (simp_all add: sample_room_def Room_Start_def Room_Subscribe_def newRoom_def NewRoomConfig_def
      room_inv_def table_ok_def bob_def Let_def)




text \<open>
  Errors in a row make the listener sleep one second longer each time, at most thirty, and it
  never gives up by itself; from the tenth on each one is reported when there is a handler.
\<close>

theorem listener_backs_off:
  assumes "fst (exec (read_request prefix (rc_ID (rm_config r)) (ln_lastID l)) s) = Fails e"
    and "\<not> rm_stopClosed r"
  shows "\<exists>s'. listen_round exec prefix errtxt dv now hh False l r s =
    (Sleeps (min (int (Suc (ln_errors l))) 30 * second), l\<lparr>ln_errors := Suc (ln_errors l)\<rparr>, r, s',
     if hh \<and> 10 \<le> Suc (ln_errors l)
     then [Emit \<lparr>ev_Type = EventTypeError, ev_RoomID = rc_ID (rm_config r), ev_UserID = '''',
                 ev_Timestamp = now, ev_Data = StreamErrorsData (Suc (ln_errors l)) (errtxt e)\<rparr>]
     else [])"
proof -
  let ?id = "rc_ID (rm_config r)"
  obtain s1 where "exec (read_request prefix ?id (ln_lastID l)) s = (Fails e, s1)"
    using assms(1) by (metis prod.collapse)
  then have "readFromStream exec prefix ?id (ln_lastID l) 100 (5 * second) s = (Fails e, s1)"
    by (simp add: readFromStream_eq read_streams_def)
  moreover have "listen_backoff k = min (int k) 30 * second" for k
    by (simp add: listen_backoff_def second_def min_def)
  ultimately show ?thesis
    using assms(2) by (auto simp: listen_round_def Let_def maxConsecutiveErrors_def emit_def)
qed

theorem listener_backs_off_witness:
  "\<exists>s'. listen_round (\<lambda>args n. (Fails WriteFailed, Suc n)) ''sr:'' (\<lambda>_. ''broken'') (\<lambda>_. (\<lambda>_ _. RecvOk, [], 0))
     0 True False \<lparr>ln_lastID = ''5-0'', ln_errors = 41\<rparr> sample_room 0 =
    (Sleeps (30 * second), \<lparr>ln_lastID = ''5-0'', ln_errors = 42\<rparr>, sample_room, s',
     [Emit \<lparr>ev_Type = EventTypeError, ev_RoomID = ''r'', ev_UserID = '''', ev_Timestamp = 0,
            ev_Data = StreamErrorsData 42 ''broken''\<rparr>])"
  using listener_backs_off [of "\<lambda>args n. (Fails WriteFailed, Suc n)" "''sr:''" sample_room
      "\<lparr>ln_lastID = ''5-0'', ln_errors = 41\<rparr>" 0 WriteFailed "\<lambda>_. ''broken''"
      "\<lambda>_. (\<lambda>_ _. RecvOk, [], 0)" 0 True]
  by (simp add: sample_room_facts)

end
