(* ===== verification/Relay.thy ===== *)
theory Relay
  imports Room
begin

text \<open>
  The Redis-backed relay of \<open>engine/relay.go\<close>.  Rooms and messages are shared by pointer, so the
  state holds a heap of each, as in the in-memory relay; \<open>rl_redis\<close> is the state behind the Redis
  client, on which the executor \<open>exec\<close> acts.  Messages read from a stream are new objects that
  nobody else holds and are passed as values.  Every operation runs without interleaving.
\<close>

section \<open>State\<close>

record relay_config =
  cf_Redis :: redis_config
  cf_Prefix :: string
  cf_DefaultHistorySize :: int
  cf_DefaultHistoryTTL :: duration
  cf_EventHandler :: bool

definition DefaultConfig :: relay_config where
  "DefaultConfig =
     \<lparr>cf_Redis = redis_DefaultConfig, cf_Prefix = ''sr:'', cf_DefaultHistorySize = 1000,
      cf_DefaultHistoryTTL = 24 * hour, cf_EventHandler = False\<rparr>"

datatype relay_error =
    EngineErr go_error
  | RedisErr client_error
  | Within string relay_error

record 's relay =
  rl_rooms :: "string \<rightharpoonup> nat"
  rl_heap :: "nat \<Rightarrow> room"
  rl_next :: nat
  rl_msgs :: "nat \<Rightarrow> message"
  rl_hasHandler :: bool
  rl_running :: bool
  rl_startTime :: gotime
  rl_prefix :: string
  rl_totalMessages :: int
  rl_redis :: 's

fun map_error :: "('e \<Rightarrow> 'f) \<Rightarrow> ('e, 'a) outcome \<Rightarrow> ('f, 'a) outcome" where
  "map_error f (Returns x) = Returns x"
| "map_error f (Fails e) = Fails (f e)"
| "map_error f Panics = Panics"
| "map_error f Blocks = Blocks"

definition on_redis ::
    "('s \<Rightarrow> (client_error, 'a) outcome \<times> 's) \<Rightarrow> (client_error \<Rightarrow> relay_error) \<Rightarrow> 's relay \<Rightarrow>
     (relay_error, 'a) outcome \<times> 's relay" where
  "on_redis f wrap r = (case f (rl_redis r) of (x, s) \<Rightarrow> (map_error wrap x, r\<lparr>rl_redis := s\<rparr>))"

text \<open>\<open>New\<close>, on the pooled client; \<open>msgs\<close> are the messages the callers will hand over, by address.\<close>

definition relay_over :: "relay_config \<Rightarrow> gotime \<Rightarrow> (nat \<Rightarrow> message) \<Rightarrow> 's \<Rightarrow> 's relay" where
  "relay_over cfg now msgs s =
     \<lparr>rl_rooms = Map.empty, rl_heap = (\<lambda>_. newRoom (NewRoomConfig '''' []) 0), rl_next = 0, rl_msgs = msgs,
      rl_hasHandler = cf_EventHandler cfg, rl_running = True, rl_startTime = now,
      rl_prefix = (if cf_Prefix cfg = '''' then ''sr:'' else cf_Prefix cfg),
      rl_totalMessages = 0, rl_redis = s\<rparr>"

definition NewRelay ::
    "network \<Rightarrow> bool \<Rightarrow> relay_config \<Rightarrow> gotime \<Rightarrow> (nat \<Rightarrow> message) \<Rightarrow>
     (relay_error, pool relay) outcome \<times> pool" where
  "NewRelay dial ctx_done cfg now msgs =
     (case NewPool dial (cf_Redis cfg) of
        (Returns _, p) \<Rightarrow>
          (case client_Ping dial ctx_done p of
             (Returns _, p1) \<Rightarrow> (Returns (relay_over cfg now msgs p1), p1)
           | (Fails e, p1) \<Rightarrow> (Fails (Within ''failed to ping redis'' (RedisErr e)), pool_Close p1)
           | (Panics, p1) \<Rightarrow> (Panics, p1)
           | (Blocks, p1) \<Rightarrow> (Blocks, p1))
      | (Fails e, p) \<Rightarrow> (Fails (Within ''failed to create redis client'' (RedisErr e)), p)
      | (Panics, p) \<Rightarrow> (Panics, p)
      | (Blocks, p) \<Rightarrow> (Blocks, p))"

definition rl_SetEventHandler :: "bool \<Rightarrow> 's relay \<Rightarrow> 's relay" where
  "rl_SetEventHandler handler r = r\<lparr>rl_hasHandler := handler\<rparr>"

section \<open>Rooms\<close>

definition rl_CreateRoom ::
    "gotime \<Rightarrow> room_config \<Rightarrow> 's relay \<Rightarrow> (relay_error, nat) outcome \<times> 's relay" where
  "rl_CreateRoom now config r =
     (if rl_rooms r (rc_ID config) \<noteq> None then (Fails (EngineErr (RoomAlreadyExists (rc_ID config))), r)
      else
        (let h = rl_next r
         in (Returns h,
             r\<lparr>rl_rooms := (rl_rooms r)(rc_ID config \<mapsto> h),
               rl_heap := (rl_heap r)(h := Room_Start (newRoom config now)),
               rl_next := Suc h\<rparr>)))"

definition rl_GetRoom :: "'s relay \<Rightarrow> string \<Rightarrow> nat option" where
  "rl_GetRoom r roomID = rl_rooms r roomID"

definition rl_GetOrCreateRoom ::
    "gotime \<Rightarrow> room_config \<Rightarrow> 's relay \<Rightarrow> (relay_error, nat) outcome \<times> 's relay" where
  "rl_GetOrCreateRoom now config r =
     (case rl_GetRoom r (rc_ID config) of
        Some h \<Rightarrow> (Returns h, r)
      | None \<Rightarrow> rl_CreateRoom now config r)"

definition not_found :: "string \<Rightarrow> relay_error" where
  "not_found roomID = EngineErr (RoomNotFound roomID)"

definition rl_DeleteRoom ::
    "string list \<Rightarrow> string \<Rightarrow> 's relay \<Rightarrow> (relay_error, unit) outcome \<times> 's relay \<times> effect list" where
  "rl_DeleteRoom ord roomID r =
     (case rl_rooms r roomID of
        None \<Rightarrow> (Fails (not_found roomID), r, [])
      | Some h \<Rightarrow>
          (let (room, es) = Room_Close ord (rl_heap r h)
           in (Returns (), r\<lparr>rl_heap := (rl_heap r)(h := room), rl_rooms := (rl_rooms r)(roomID := None)\<rparr>, es)))"

definition rl_ListRooms :: "string list \<Rightarrow> 's relay \<Rightarrow> string list" where
  "rl_ListRooms ord r = filter (\<lambda>i. rl_rooms r i \<noteq> None) ord"

definition rl_Subscribe ::
    "(nat \<Rightarrow> gotime) \<Rightarrow> string \<Rightarrow> subscriber \<Rightarrow> presence_info option \<Rightarrow> 's relay \<Rightarrow>
     (relay_error, unit) outcome \<times> 's relay \<times> effect list" where
  "rl_Subscribe clk roomID sub presence r =
     (case rl_GetRoom r roomID of
        None \<Rightarrow> (Fails (not_found roomID), r, [])
      | Some h \<Rightarrow>
          (let (room, es) = Room_Subscribe clk (rl_hasHandler r) sub presence (rl_heap r h)
           in (Returns (), r\<lparr>rl_heap := (rl_heap r)(h := room)\<rparr>, es)))"

definition rl_Unsubscribe ::
    "(nat \<Rightarrow> gotime) \<Rightarrow> string \<Rightarrow> string \<Rightarrow> 's relay \<Rightarrow>
     (relay_error, unit) outcome \<times> 's relay \<times> effect list" where
  "rl_Unsubscribe clk roomID userID r =
     (case rl_GetRoom r roomID of
        None \<Rightarrow> (Fails (not_found roomID), r, [])
      | Some h \<Rightarrow>
          (let (room, es) = Room_Unsubscribe clk (rl_hasHandler r) userID (rl_heap r h)
           in (Returns (), r\<lparr>rl_heap := (rl_heap r)(h := room)\<rparr>, es)))"

section \<open>Publishing\<close>

text \<open>The message with its time stamp and room, as \<open>Publish\<close> and the history functions set them.\<close>

definition dated :: "gotime \<Rightarrow> string \<Rightarrow> message \<Rightarrow> message" where
  "dated now roomID msg =
     (if time_IsZero (msg_Timestamp msg) then msg\<lparr>msg_Timestamp := now\<rparr> else msg)\<lparr>msg_RoomID := roomID\<rparr>"

text \<open>The clock is read for the time stamp, for a report of a panic, and for the event; \<open>ord\<close>
  enumerates the fields of the entry.\<close>

definition rl_Publish ::
    "'s executor \<Rightarrow> string list \<Rightarrow> (nat \<Rightarrow> gotime) \<Rightarrow> (subscriber \<Rightarrow> nat \<Rightarrow> receive_result) \<Rightarrow> string list \<Rightarrow>
     string \<Rightarrow> nat \<Rightarrow> publish_options option \<Rightarrow> 's relay \<Rightarrow>
     (relay_error, delivery_result list) outcome \<times> 's relay \<times> effect list" where
  "rl_Publish exec ord clk rx fin roomID a opts0 r =
     (case rl_GetRoom r roomID of
        None \<Rightarrow> (Fails (not_found roomID), r, [])
      | Some h \<Rightarrow>
          (let opts = opts_or_default opts0;
               msg = dated (clk 0) roomID (rl_msgs r a);
               r1 = r\<lparr>rl_msgs := (rl_msgs r)(a := msg)\<rparr>
           in case (if po_Persist opts
                    then on_redis (publishToStream exec ord (rl_prefix r) roomID msg)
                           (\<lambda>e. Within ''failed to persist message'' (RedisErr e)) r1
                    else (Returns (msg_ID msg), r1)) of
                (Returns i, r2) \<Rightarrow>
                  (let msg' = msg\<lparr>msg_ID := i\<rparr>;
                       (results, es) = Room_Broadcast (clk 1) (rl_hasHandler r) rx fin (rl_heap r2 h) msg' (Some opts)
                   in (Returns results,
                       r2\<lparr>rl_msgs := (rl_msgs r2)(a := msg'),
                          rl_totalMessages := wrap64 (rl_totalMessages r2 + 1)\<rparr>,
                       es @ emit (rl_hasHandler r)
                         \<lparr>ev_Type = EventTypePublish, ev_RoomID = roomID,
                          ev_UserID = msg_SenderID msg', ev_Timestamp = clk 2,
                          ev_Data = PublishData i (length results)\<rparr>))
              | (Fails e, r2) \<Rightarrow> (Fails e, r2, [])
              | (Panics, r2) \<Rightarrow> (Panics, r2, [])
              | (Blocks, r2) \<Rightarrow> (Blocks, r2, [])))"

definition rl_PublishDirect ::
    "'s executor \<Rightarrow> string list \<Rightarrow> (nat \<Rightarrow> gotime) \<Rightarrow> (subscriber \<Rightarrow> nat \<Rightarrow> receive_result) \<Rightarrow> string list \<Rightarrow>
     string \<Rightarrow> string \<Rightarrow> nat \<Rightarrow> publish_options option \<Rightarrow> 's relay \<Rightarrow>
     (relay_error, delivery_result list) outcome \<times> 's relay \<times> effect list" where
  "rl_PublishDirect exec ord clk rx fin senderID recipientID a opts r =
     (let roomID = GenerateDMRoomID senderID recipientID;
          config = \<lparr>rc_ID = roomID, rc_Type = RoomTypeDirect, rc_HistorySize = 0, rc_HistoryTTL = 0,
                    rc_Members = [senderID, recipientID]\<rparr>
      in case rl_GetOrCreateRoom (clk 0) config r of
           (Returns _, r1) \<Rightarrow>
             rl_Publish exec ord (\<lambda>k. clk (Suc k)) rx fin roomID a opts
               (r1\<lparr>rl_msgs := (rl_msgs r1)(a := (rl_msgs r1 a)\<lparr>msg_RoomID := roomID, msg_SenderID := senderID\<rparr>)\<rparr>)
         | (Fails e, r1) \<Rightarrow> (Fails e, r1, [])
         | (Panics, r1) \<Rightarrow> (Panics, r1, [])
         | (Blocks, r1) \<Rightarrow> (Blocks, r1, []))"

section \<open>Offsets and recovery\<close>

definition SaveOffset ::
    "'s executor \<Rightarrow> string \<Rightarrow> string \<Rightarrow> string \<Rightarrow> 's relay \<Rightarrow> (relay_error, unit) outcome \<times> 's relay" where
  "SaveOffset exec roomID userID messageID r =
     on_redis (\<lambda>s. after (exec [''SET'', offsetKey (rl_prefix r) roomID userID, messageID] s)
                 (\<lambda>_ s'. (Returns (), s'))) RedisErr r"

definition GetOffset ::
    "'s executor \<Rightarrow> string \<Rightarrow> string \<Rightarrow> 's relay \<Rightarrow> (relay_error, string) outcome \<times> 's relay" where
  "GetOffset exec roomID userID r =
     on_redis (\<lambda>s. after (exec [''GET'', offsetKey (rl_prefix r) roomID userID] s)
                 (\<lambda>resp s'. (if v_IsNull resp then Returns '''' else conv (AsString resp), s'))) RedisErr r"

definition range_start :: "string \<Rightarrow> string" where
  "range_start lastID = (if lastID \<noteq> '''' \<and> lastID \<noteq> ''-'' \<and> lastID \<noteq> ''0'' then ''('' @ lastID else ''-'')"

text \<open>The stored offset, or the empty string when it cannot be read.\<close>

definition offset_or_empty ::
    "'s executor \<Rightarrow> string \<Rightarrow> string \<Rightarrow> 's relay \<Rightarrow> (relay_error, string) outcome \<times> 's relay" where
  "offset_or_empty exec roomID userID r =
     (case GetOffset exec roomID userID r of
        (Returns i, r1) \<Rightarrow> (Returns i, r1)
      | (Fails _, r1) \<Rightarrow> (Returns '''', r1)
      | (Panics, r1) \<Rightarrow> (Panics, r1)
      | (Blocks, r1) \<Rightarrow> (Blocks, r1))"

definition rl_RecoverMessages ::
    "'s executor \<Rightarrow> string \<Rightarrow> string \<Rightarrow> recovery_options option \<Rightarrow> 's relay \<Rightarrow>
     (relay_error, message list) outcome \<times> 's relay" where
  "rl_RecoverMessages exec roomID userID opts0 r =
     (let opts = (case opts0 of Some o' \<Rightarrow> o'
                  | None \<Rightarrow> \<lparr>ro_FromID = '''', ro_Limit = 100, ro_Since = zero_time\<rparr>);
          limit = (if ro_Limit opts \<le> 0 then 100 else ro_Limit opts)
      in after (if ro_FromID opts = '''' then offset_or_empty exec roomID userID r
                else (Returns (ro_FromID opts), r))
           (\<lambda>lastID r1.
              after (on_redis (XRange exec (streamKey (rl_prefix r) roomID) (range_start lastID) ''+'' limit)
                       RedisErr r1)
                (\<lambda>entries r2. (Returns (map (parseStreamEntry roomID) entries), r2))))"

text \<open>
  Messages handed to one subscriber in order, up to the first one it refuses; the second component
  lists those its \<open>Receive\<close> was called with.  \<open>rx k\<close> is what it does with the k-th.
\<close>

fun receive_loop ::
    "(nat \<Rightarrow> receive_result) \<Rightarrow> nat \<Rightarrow> 'm list \<Rightarrow> (go_error, unit) outcome \<times> 'm list" where
  "receive_loop rx k [] = (Returns (), [])"
| "receive_loop rx k (msg # messages) =
     (case rx k of
        RecvOk \<Rightarrow> (case receive_loop rx (Suc k) messages of (res, ms) \<Rightarrow> (res, msg # ms))
      | RecvErr e \<Rightarrow> (Fails e, [msg])
      | RecvPanic _ \<Rightarrow> (Panics, [msg]))"

definition rl_RecoverAndDeliver ::
    "'s executor \<Rightarrow> string \<Rightarrow> subscriber \<Rightarrow> (nat \<Rightarrow> receive_result) \<Rightarrow> recovery_options option \<Rightarrow> 's relay \<Rightarrow>
     (relay_error, unit) outcome \<times> 's relay \<times> message list" where
  "rl_RecoverAndDeliver exec roomID sub rx opts r =
     (case rl_RecoverMessages exec roomID (sub_ID sub) opts r of
        (Returns messages, r1) \<Rightarrow>
          (case receive_loop rx 0 messages of
             (Returns _, ms) \<Rightarrow>
               (let lastID = (if messages = [] then '''' else msg_ID (last messages))
                in if lastID = '''' then (Returns (), r1, ms)
                   else case SaveOffset exec roomID (sub_ID sub) lastID r1 of
                          (Panics, r2) \<Rightarrow> (Panics, r2, ms)
                        | (Blocks, r2) \<Rightarrow> (Blocks, r2, ms)
                        | (_, r2) \<Rightarrow> (Returns (), r2, ms))
           | (Fails e, ms) \<Rightarrow> (Fails (Within ''failed to deliver recovered message'' (EngineErr e)), r1, ms)
           | (Panics, ms) \<Rightarrow> (Panics, r1, ms)
           | (Blocks, ms) \<Rightarrow> (Blocks, r1, ms))
      | (Fails e, r1) \<Rightarrow> (Fails e, r1, [])
      | (Panics, r1) \<Rightarrow> (Panics, r1, [])
      | (Blocks, r1) \<Rightarrow> (Blocks, r1, []))"

section \<open>Listening, presence, statistics and shutdown\<close>

text \<open>One round of a listener of the room at \<open>h\<close>; the relay's context is done once it is closed.\<close>

definition rl_ListenRound ::
    "'s executor \<Rightarrow> (client_error \<Rightarrow> string) \<Rightarrow> (nat \<Rightarrow> delivery_env) \<Rightarrow> gotime \<Rightarrow> nat \<Rightarrow> listener \<Rightarrow> 's relay \<Rightarrow>
     round_end \<times> listener \<times> 's relay \<times> effect list" where
  "rl_ListenRound exec errtxt dv now h l r =
     (case listen_round exec (rl_prefix r) errtxt dv now (rl_hasHandler r) (\<not> rl_running r) l
             (rl_heap r h) (rl_redis r) of
        (e, l', room, s, es) \<Rightarrow> (e, l', r\<lparr>rl_heap := (rl_heap r)(h := room), rl_redis := s\<rparr>, es))"

definition rl_GetPresence ::
    "string list \<Rightarrow> string \<Rightarrow> 's relay \<Rightarrow> (relay_error, presence_info list) outcome" where
  "rl_GetPresence ord roomID r =
     (case rl_GetRoom r roomID of
        None \<Rightarrow> Fails (not_found roomID)
      | Some h \<Rightarrow> Returns (Room_GetPresence ord (rl_heap r h)))"

definition rl_Stats :: "string list \<Rightarrow> gotime \<Rightarrow> 's relay \<Rightarrow> stats" where
  "rl_Stats ord now r =
     \<lparr>st_ActiveRooms = int (card (dom (rl_rooms r))),
      st_ActiveSubscribers =
        sum_list (map (\<lambda>h. Room_SubscriberCount (rl_heap r h)) (List.map_filter (rl_rooms r) ord)),
      st_TotalMessages = rl_totalMessages r,
      st_Uptime = (let d = time_Sub now (rl_startTime r) in sgn d * (\<bar>d\<bar> div second))\<rparr>"

fun close_relay_rooms ::
    "(nat \<Rightarrow> string list) \<Rightarrow> nat list \<Rightarrow> (nat \<Rightarrow> room) \<Rightarrow> (nat \<Rightarrow> room) \<times> effect list" where
  "close_relay_rooms ords [] heap = (heap, [])"
| "close_relay_rooms ords (h # hs) heap =
     (let (room, es) = Room_Close (ords h) (heap h);
          (heap', es') = close_relay_rooms ords hs (heap(h := room))
      in (heap', es @ es'))"

text \<open>\<open>closeClient\<close> is the client's \<open>Close\<close> (\<open>pool_Close\<close> on the pooled client).\<close>

definition rl_Close ::
    "('s \<Rightarrow> 's) \<Rightarrow> string list \<Rightarrow> (nat \<Rightarrow> string list) \<Rightarrow> 's relay \<Rightarrow> 's relay \<times> effect list" where
  "rl_Close closeClient ord ords r =
     (if \<not> rl_running r then (r, [])
      else
        (let (heap, es) = close_relay_rooms ords (List.map_filter (rl_rooms r) ord) (rl_heap r)
         in (r\<lparr>rl_running := False, rl_heap := heap, rl_rooms := Map.empty,
               rl_redis := closeClient (rl_redis r)\<rparr>, es)))"

section \<open>What a publication leaves behind\<close>

text \<open>A publication that returns: what was broadcast, and the message as it ended.\<close>

lemma publish_returns:
  assumes "rl_Publish exec ord clk rx fin roomID a opts r = (Returns results, r', es)"
    and "rl_GetRoom r roomID = Some h"
  shows "\<exists>i ev. rl_msgs r' a = (dated (clk 0) roomID (rl_msgs r a))\<lparr>msg_ID := i\<rparr> \<and>
    es = snd (Room_Broadcast (clk 1) (rl_hasHandler r) rx fin (rl_heap r h) (rl_msgs r' a) (Some (opts_or_default opts))) @
         emit (rl_hasHandler r) ev"
proof -
  let ?msg = "dated (clk 0) roomID (rl_msgs r a)" and ?o = "opts_or_default opts"
  obtain x r2 where m: "(if po_Persist ?o
      then on_redis (publishToStream exec ord (rl_prefix r) roomID ?msg)
             (\<lambda>e. Within ''failed to persist message'' (RedisErr e)) (r\<lparr>rl_msgs := (rl_msgs r)(a := ?msg)\<rparr>)
      else (Returns (msg_ID ?msg), r\<lparr>rl_msgs := (rl_msgs r)(a := ?msg)\<rparr>)) = (x, r2)"
    by fastforce
  then have h2: "rl_heap r2 = rl_heap r"
    by (auto simp: on_redis_def split: if_splits prod.splits)
  from assms m obtain i where x: "x = Returns i"
    by (cases x) (auto simp: rl_Publish_def Let_def)
  let ?b = "Room_Broadcast (clk 1) (rl_hasHandler r) rx fin (rl_heap r h) (?msg\<lparr>msg_ID := i\<rparr>) (Some ?o)"
  from assms m x h2 have "rl_msgs r' a = ?msg\<lparr>msg_ID := i\<rparr> \<and> (\<exists>ev. es = snd ?b @ emit (rl_hasHandler r) ev)"
    by (cases ?b) (auto simp: rl_Publish_def Let_def)
  then show ?thesis by auto
qed

lemma publish_returns_message:
  assumes "rl_Publish exec ord clk rx fin roomID a opts r = (Returns results, r', es)"
  shows "msg_RoomID (rl_msgs r' a) = roomID \<and> msg_SenderID (rl_msgs r' a) = msg_SenderID (rl_msgs r a)"
proof -
  from assms obtain h where "rl_GetRoom r roomID = Some h" by (cases "rl_GetRoom r roomID") (auto simp: rl_Publish_def)
  from publish_returns [OF assms this] show ?thesis by (auto simp: dated_def)
qed

end
