(* ===== verification/History.thy ===== *)
theory History
  imports Relay
begin

text \<open>
  Message history of \<open>engine/history.go\<close>: reading a room's stream, loading messages from an
  external store into it, clearing and trimming.  Messages of the external store are the caller's
  objects, given by address; the code sets their room and time stamp in place.  \<open>clk k\<close> and
  \<open>ord k\<close> belong to the k-th message.
\<close>

section \<open>Reading\<close>

definition history_limit :: "int \<Rightarrow> int" where
  "history_limit limit = (if limit \<le> 0 then 100 else limit)"

definition parse_all ::
    "string \<Rightarrow> (relay_error, stream_entry list) outcome \<times> 's relay \<Rightarrow>
     (relay_error, message list) outcome \<times> 's relay" where
  "parse_all roomID x = after x (\<lambda>entries r. (Returns (map (parseStreamEntry roomID) entries), r))"

definition GetHistoryFromRedis ::
    "'s executor \<Rightarrow> string \<Rightarrow> int \<Rightarrow> 's relay \<Rightarrow> (relay_error, message list) outcome \<times> 's relay" where
  "GetHistoryFromRedis exec roomID limit r =
     parse_all roomID
       (on_redis (XRange exec (streamKey (rl_prefix r) roomID) ''-'' ''+'' (history_limit limit)) RedisErr r)"

definition GetHistoryFromRedisReverse ::
    "'s executor \<Rightarrow> string \<Rightarrow> int \<Rightarrow> 's relay \<Rightarrow> (relay_error, message list) outcome \<times> 's relay" where
  "GetHistoryFromRedisReverse exec roomID limit r =
     parse_all roomID
       (on_redis (XRevRange exec (streamKey (rl_prefix r) roomID) ''+'' ''-'' (history_limit limit)) RedisErr r)"

definition GetRedisHistoryLength ::
    "'s executor \<Rightarrow> string \<Rightarrow> 's relay \<Rightarrow> (relay_error, int) outcome \<times> 's relay" where
  "GetRedisHistoryLength exec roomID r =
     on_redis (XLen exec (streamKey (rl_prefix r) roomID)) RedisErr r"

definition IsRedisHistoryEmpty ::
    "'s executor \<Rightarrow> string \<Rightarrow> 's relay \<Rightarrow> (relay_error, bool) outcome \<times> 's relay" where
  "IsRedisHistoryEmpty exec roomID r =
     after (GetRedisHistoryLength exec roomID r) (\<lambda>len r1. (Returns (len = 0), r1))"

section \<open>Writing\<close>

definition set_message :: "nat \<Rightarrow> message \<Rightarrow> 's relay \<Rightarrow> 's relay" where
  "set_message a msg r = r\<lparr>rl_msgs := (rl_msgs r)(a := msg)\<rparr>"

fun InjectHistoryToRedis ::
    "'s executor \<Rightarrow> (nat \<Rightarrow> string list) \<Rightarrow> (nat \<Rightarrow> gotime) \<Rightarrow> nat \<Rightarrow> string \<Rightarrow> nat list \<Rightarrow> 's relay \<Rightarrow>
     (relay_error, unit) outcome \<times> 's relay" where
  "InjectHistoryToRedis exec ord clk k roomID [] r = (Returns (), r)"
| "InjectHistoryToRedis exec ord clk k roomID (a # messages) r =
     (let msg = dated (clk k) roomID (rl_msgs r a)
      in after (on_redis (publishToStream exec (ord k) (rl_prefix r) roomID msg)
                  (\<lambda>e. Within ''failed to inject message'' (RedisErr e)) (set_message a msg r))
           (\<lambda>_ r1. InjectHistoryToRedis exec ord clk (Suc k) roomID messages r1))"

text \<open>The delivery loop over the caller's messages; \<open>hasSub\<close> tells whether there is a subscriber.\<close>

fun deliver_caller_loop ::
    "bool \<Rightarrow> (nat \<Rightarrow> receive_result) \<Rightarrow> nat \<Rightarrow> string \<Rightarrow> nat list \<Rightarrow> 's relay \<Rightarrow>
     (go_error, unit) outcome \<times> 's relay \<times> nat list" where
  "deliver_caller_loop hasSub rx k roomID [] r = (Returns (), r, [])"
| "deliver_caller_loop hasSub rx k roomID (a # messages) r =
     (let r1 = set_message a ((rl_msgs r a)\<lparr>msg_RoomID := roomID\<rparr>) r
      in if \<not> hasSub then deliver_caller_loop hasSub rx (Suc k) roomID messages r1
         else case rx k of
                RecvOk \<Rightarrow>
                  (case deliver_caller_loop hasSub rx (Suc k) roomID messages r1 of
                     (res, r2, ms) \<Rightarrow> (res, r2, a # ms))
              | RecvErr e \<Rightarrow> (Fails e, r1, [a])
              | RecvPanic _ \<Rightarrow> (Panics, r1, [a]))"

record external_history_options =
  eh_InjectToRedis :: bool
  eh_Limit :: int

definition LoadExternalHistory ::
    "'s executor \<Rightarrow> (nat \<Rightarrow> string list) \<Rightarrow> (nat \<Rightarrow> gotime) \<Rightarrow> (nat \<Rightarrow> receive_result) \<Rightarrow> string \<Rightarrow> nat list \<Rightarrow>
     external_history_options option \<Rightarrow> 's relay \<Rightarrow> (relay_error, unit) outcome \<times> 's relay \<times> nat list" where
  "LoadExternalHistory exec ord clk rx roomID messages0 opts0 r =
     (let opts = (case opts0 of Some o' \<Rightarrow> o' | None \<Rightarrow> \<lparr>eh_InjectToRedis = False, eh_Limit = 0\<rparr>);
          messages = (if 0 < eh_Limit opts \<and> eh_Limit opts < int (length messages0)
                      then take (nat (eh_Limit opts)) messages0 else messages0)
      in case (if eh_InjectToRedis opts then InjectHistoryToRedis exec ord clk 0 roomID messages r
               else (Returns (), r)) of
           (Returns _, r1) \<Rightarrow>
             (case deliver_caller_loop True rx 0 roomID messages r1 of
                (Fails e, r2, ms) \<Rightarrow> (Fails (Within ''failed to deliver message'' (EngineErr e)), r2, ms)
              | (Returns _, r2, ms) \<Rightarrow> (Returns (), r2, ms)
              | (Panics, r2, ms) \<Rightarrow> (Panics, r2, ms)
              | (Blocks, r2, ms) \<Rightarrow> (Blocks, r2, ms))
         | (Fails e, r1) \<Rightarrow> (Fails (Within ''failed to inject to Redis'' e), r1, [])
         | (Panics, r1) \<Rightarrow> (Panics, r1, [])
         | (Blocks, r1) \<Rightarrow> (Blocks, r1, []))"

text \<open>What \<open>LoadHistoryWithFallback\<close> returns and hands over: new messages read from the stream, or
  the caller's.  The code returns them beside an error too.\<close>

datatype history = FromRedis "message list" | FromCaller "nat list"

definition LoadHistoryWithFallback ::
    "'s executor \<Rightarrow> (nat \<Rightarrow> string list) \<Rightarrow> (nat \<Rightarrow> gotime) \<Rightarrow> bool \<Rightarrow> (nat \<Rightarrow> receive_result) \<Rightarrow> string \<Rightarrow>
     nat list \<Rightarrow> int \<Rightarrow> 's relay \<Rightarrow>
     (relay_error, unit) outcome \<times> history \<times> 's relay \<times> history" where
  "LoadHistoryWithFallback exec ord clk hasSub rx roomID fallback limit0 r =
     (let limit = history_limit limit0
      in case GetHistoryFromRedis exec roomID limit r of
           (Returns redisMessages, r1) \<Rightarrow>
             (if redisMessages \<noteq> [] then
                (case (if hasSub then receive_loop rx 0 redisMessages else (Returns (), [])) of
                   (Fails e, ms) \<Rightarrow>
                     (Fails (Within ''failed to deliver Redis message'' (EngineErr e)), FromRedis redisMessages, r1,
                      FromRedis ms)
                 | (Returns _, ms) \<Rightarrow> (Returns (), FromRedis redisMessages, r1, FromRedis ms)
                 | (Panics, ms) \<Rightarrow> (Panics, FromRedis [], r1, FromRedis ms)
                 | (Blocks, ms) \<Rightarrow> (Blocks, FromRedis [], r1, FromRedis ms))
              else if fallback = [] then (Returns (), FromCaller [], r1, FromCaller [])
              else
                (let messages = (if limit < int (length fallback) then take (nat limit) fallback else fallback)
                 in case InjectHistoryToRedis exec ord clk 0 roomID messages r1 of
                      (Panics, r2) \<Rightarrow> (Panics, FromCaller [], r2, FromCaller [])
                    | (Blocks, r2) \<Rightarrow> (Blocks, FromCaller [], r2, FromCaller [])
                    | (_, r2) \<Rightarrow>
                        (case deliver_caller_loop hasSub rx 0 roomID messages r2 of
                           (Fails e, r3, ms) \<Rightarrow>
                             (Fails (Within ''failed to deliver fallback message'' (EngineErr e)),
                              FromCaller messages, r3, FromCaller ms)
                         | (Returns _, r3, ms) \<Rightarrow> (Returns (), FromCaller messages, r3, FromCaller ms)
                         | (Panics, r3, ms) \<Rightarrow> (Panics, FromCaller [], r3, FromCaller ms)
                         | (Blocks, r3, ms) \<Rightarrow> (Blocks, FromCaller [], r3, FromCaller ms))))
         | (Fails e, r1) \<Rightarrow>
             (Fails (Within ''failed to get Redis history'' e), FromRedis [], r1, FromRedis [])
         | (Panics, r1) \<Rightarrow> (Panics, FromRedis [], r1, FromRedis [])
         | (Blocks, r1) \<Rightarrow> (Blocks, FromRedis [], r1, FromRedis []))"

text \<open>An error reply of the server to \<open>DEL\<close> is not looked at.\<close>

definition ClearRedisHistory ::
    "'s executor \<Rightarrow> string \<Rightarrow> 's relay \<Rightarrow> (relay_error, unit) outcome \<times> 's relay" where
  "ClearRedisHistory exec roomID r =
     on_redis (\<lambda>s. after (exec [''DEL'', streamKey (rl_prefix r) roomID] s) (\<lambda>_ s'. (Returns (), s')))
       RedisErr r"

definition TrimRedisHistory ::
    "'s executor \<Rightarrow> string \<Rightarrow> int \<Rightarrow> 's relay \<Rightarrow> (relay_error, int) outcome \<times> 's relay" where
  "TrimRedisHistory exec roomID maxLen r =
     on_redis (XTrim exec (streamKey (rl_prefix r) roomID) maxLen True) RedisErr r"

end
