(* ===== verification/RelaySpec.thy ===== *)
theory RelaySpec
  imports History
begin

text \<open>
  What the Redis-backed relay promises on a server that behaves as the Redis commands document.
  The server is not part of the program: the executor is a parameter, and \<open>redis_laws\<close> says what
  the six commands the proofs need do to the streams (\<open>log\<close>) and the keys (\<open>kv\<close>) a state holds.
\<close>

section \<open>The server\<close>

type_synonym entry_log = "(string \<times> (string \<times> string) list) list"

definition plain_id :: "string \<Rightarrow> bool" where
  "plain_id i \<longleftrightarrow> i \<noteq> '''' \<and> i \<noteq> ''-'' \<and> i \<noteq> ''0'' \<and> i \<noteq> ''$''"

definition entries_after :: "string \<Rightarrow> entry_log \<Rightarrow> entry_log" where
  "entries_after i es = tl (dropWhile (\<lambda>e. fst e \<noteq> i) es)"

definition log_ok :: "entry_log \<Rightarrow> bool" where
  "log_ok es \<longleftrightarrow> distinct (map fst es) \<and> (\<forall>e \<in> set es. plain_id (fst e))"

definition unchanged ::
    "('s \<Rightarrow> string \<Rightarrow> entry_log) \<Rightarrow> ('s \<Rightarrow> string \<rightharpoonup> string) \<Rightarrow> 's \<Rightarrow> 's \<Rightarrow> bool" where
  "unchanged log kv s s' \<longleftrightarrow> log s' = log s \<and> kv s' = kv s"

definition xadd_law where
  "xadd_law exec log kv \<longleftrightarrow>
     (\<forall>s key kvs. kvs \<noteq> [] \<longrightarrow>
        (\<exists>i s'. exec ([''XADD'', key, ''*''] @ concat (map (\<lambda>(k, v). [k, v]) kvs)) s = (Returns (bulk_string i), s') \<and>
           log s' = (log s)(key := log s key @ [(i, kvs)]) \<and> kv s' = kv s \<and>
           i \<notin> fst ` set (log s key) \<and> plain_id i))"

definition xrange_law where
  "xrange_law exec log kv \<longleftrightarrow>
     (\<forall>s key n. 0 < n \<and> in_int64 n \<longrightarrow>
        (\<exists>s'. exec [''XRANGE'', key, ''-'', ''+'', ''COUNT'', FormatInt n] s =
            (Returns (entries_reply (take (nat n) (log s key))), s') \<and> unchanged log kv s s') \<and>
        (\<forall>i \<in> fst ` set (log s key).
           \<exists>s'. exec [''XRANGE'', key, ''('' @ i, ''+'', ''COUNT'', FormatInt n] s =
             (Returns (entries_reply (take (nat n) (entries_after i (log s key)))), s') \<and> unchanged log kv s s'))"

definition keys_law where
  "keys_law exec log kv \<longleftrightarrow>
     (\<forall>s k. \<exists>s'. exec [''GET'', k] s =
        (Returns (case kv s k of None \<Rightarrow> null_bulk | Some v \<Rightarrow> bulk_string v), s') \<and> unchanged log kv s s') \<and>
     (\<forall>s k v. \<exists>resp s'. exec [''SET'', k, v] s = (Returns resp, s') \<and>
        log s' = log s \<and> kv s' = (kv s)(k \<mapsto> v))"

definition xread_law where
  "xread_law exec log kv \<longleftrightarrow>
     (\<forall>s key. \<forall>i \<in> fst ` set (log s key). entries_after i (log s key) \<noteq> [] \<longrightarrow>
        (\<exists>s'. exec [''XREAD'', ''COUNT'', ''100'', ''BLOCK'', ''5000'', ''STREAMS'', key, i] s =
          (Returns (array_value [stream_reply (key, take 100 (entries_after i (log s key)))]), s') \<and>
         unchanged log kv s s'))"

definition redis_laws ::
    "'s executor \<Rightarrow> ('s \<Rightarrow> string \<Rightarrow> entry_log) \<Rightarrow> ('s \<Rightarrow> string \<rightharpoonup> string) \<Rightarrow> bool" where
  "redis_laws exec log kv \<longleftrightarrow>
     xadd_law exec log kv \<and> xrange_law exec log kv \<and> keys_law exec log kv \<and> xread_law exec log kv"

lemma entries_after_split:
  "distinct (map fst (xs @ (i, kvs) # ys)) \<Longrightarrow> entries_after i (xs @ (i, kvs) # ys) = ys"
proof -
  assume "distinct (map fst (xs @ (i, kvs) # ys))"
  then have "\<forall>x \<in> set xs. fst x \<noteq> i" by force
  then show ?thesis by (simp add: entries_after_def dropWhile_append2)
qed

section \<open>A server for the witnesses\<close>

text \<open>The state is the streams and the keys; a new entry gets an ID longer than all there are.\<close>

definition fresh_id :: "entry_log \<Rightarrow> string" where
  "fresh_id es = replicate (Suc (sum_list (map (\<lambda>e. length (fst e)) es))) (CHR ''9'')"

type_synonym mini_redis = "(string \<Rightarrow> entry_log) \<times> (string \<rightharpoonup> string)"

fun pairs_of :: "string list \<Rightarrow> (string \<times> string) list" where
  "pairs_of (k # v # args) = (k, v) # pairs_of args"
| "pairs_of _ = []"

fun mini_exec :: "mini_redis executor" where
  "mini_exec args (log, kv) =
     (let es = log (args ! 1)
      in if args ! 0 = ''XADD'' then
           (Returns (bulk_string (fresh_id es)),
            log(args ! 1 := es @ [(fresh_id es, pairs_of (drop 3 args))]), kv)
         else if args ! 0 = ''XRANGE'' then
           (let n = (case ParseInt (args ! 5) of Some n \<Rightarrow> nat n | None \<Rightarrow> 0)
            in (Returns (entries_reply (take n
                  (if args ! 2 = ''-'' then es else entries_after (tl (args ! 2)) es))), log, kv))
         else if args ! 0 = ''XREAD'' then
           (let rest = entries_after (args ! 7) (log (args ! 6))
            in (Returns (if rest = [] then null_array
                  else array_value [stream_reply (args ! 6, take 100 rest)]), log, kv))
         else if args ! 0 = ''GET'' then
           (Returns (case kv (args ! 1) of None \<Rightarrow> null_bulk | Some v \<Rightarrow> bulk_string v), log, kv)
         else (Returns (simple_string ''OK''), log, kv(args ! 1 \<mapsto> args ! 2)))"

lemma pairs_of_flat: "pairs_of (concat (map (\<lambda>(k, v). [k, v]) kvs)) = kvs"
  by (induction kvs) auto

lemma fresh_id_new: "fresh_id es \<notin> fst ` set es"
proof
  assume "fresh_id es \<in> fst ` set es"
  then obtain e where e: "e \<in> set es" "fst e = fresh_id es" by auto
  have "e \<in> set es \<Longrightarrow> length (fst e) \<le> sum_list (map (\<lambda>e. length (fst e)) es)" for es
    by (induction es) auto
  from this [OF e(1)] e(2) show False by (simp add: fresh_id_def)
qed

lemma fresh_id_plain: "plain_id (fresh_id es)"
  by (cases "sum_list (map (\<lambda>e. length (fst e)) es)") (auto simp: plain_id_def fresh_id_def)

lemma mini_xadd: "xadd_law mini_exec fst snd"
  unfolding xadd_law_def
proof (intro allI impI)
  fix s :: mini_redis and key kvs
  show "\<exists>i s'. mini_exec ([''XADD'', key, ''*''] @ concat (map (\<lambda>(k, v). [k, v]) kvs)) s = (Returns (bulk_string i), s') \<and>
      fst s' = (fst s)(key := fst s key @ [(i, kvs)]) \<and> snd s' = snd s \<and>
      i \<notin> fst ` set (fst s key) \<and> plain_id i"
    by (cases s, rule exI [of _ "fresh_id (fst s key)"])
      (use fresh_id_new [of "fst s key"] in \<open>simp add: pairs_of_flat fresh_id_plain image_iff numeral_3_eq_3 Let_def\<close>)
qed

lemma mini_xrange: "xrange_law mini_exec fst snd"
  unfolding xrange_law_def
proof (intro allI impI conjI ballI)
  fix s :: mini_redis and key i and n :: int
  assume n: "0 < n \<and> in_int64 n"
  then show "\<exists>s'. mini_exec [''XRANGE'', key, ''-'', ''+'', ''COUNT'', FormatInt n] s =
      (Returns (entries_reply (take (nat n) (fst s key))), s') \<and> unchanged fst snd s s'"
    by (cases s) (simp add: unchanged_def)
  from n show "\<exists>s'. mini_exec [''XRANGE'', key, ''('' @ i, ''+'', ''COUNT'', FormatInt n] s =
      (Returns (entries_reply (take (nat n) (entries_after i (fst s key)))), s') \<and> unchanged fst snd s s'"
    by (cases s) (simp add: unchanged_def)
qed

lemma mini_keys: "keys_law mini_exec fst snd"
  by (auto simp: keys_law_def unchanged_def)

lemma mini_xread: "xread_law mini_exec fst snd"
  by (auto simp: xread_law_def unchanged_def)

lemma mini_redis_laws: "redis_laws mini_exec fst snd"
  by (simp add: redis_laws_def mini_xadd mini_xrange mini_keys mini_xread)

section \<open>Calls under the laws\<close>

lemma count_args_pos: "0 < n \<Longrightarrow> count_args n = [''COUNT'', FormatInt n]"
  by (simp add: count_args_def)

text \<open>\<open>XRange\<close> from an exclusive start that is in the stream, or from its beginning.\<close>

definition log_from :: "string \<Rightarrow> entry_log \<Rightarrow> entry_log" where
  "log_from i es = (if plain_id i then entries_after i es else es)"

lemma xrange_start:
  assumes "xrange_law exec log kv" and "0 < n" and "in_int64 n"
  shows "\<exists>s'. exec [''XRANGE'', key, ''-'', ''+'', ''COUNT'', FormatInt n] s =
    (Returns (entries_reply (take (nat n) (log s key))), s') \<and> unchanged log kv s s'"
  using assms unfolding xrange_law_def by blast

lemma xrange_after:
  assumes "xrange_law exec log kv" and "0 < n" and "in_int64 n" and "i \<in> fst ` set (log s key)"
  shows "\<exists>s'. exec [''XRANGE'', key, ''('' @ i, ''+'', ''COUNT'', FormatInt n] s =
    (Returns (entries_reply (take (nat n) (entries_after i (log s key)))), s') \<and> unchanged log kv s s'"
  using assms unfolding xrange_law_def by blast

lemma XRange_law:
  assumes "redis_laws exec log kv" and "0 < n" and "in_int64 n"
    and "i = '''' \<or> plain_id i \<and> i \<in> fst ` set (log s key)"
  shows "\<exists>s'. XRange exec key (range_start i) ''+'' n s =
      (Returns (map entry_of (take (nat n) (log_from i (log s key)))), s') \<and> unchanged log kv s s'"
proof -
  let ?es = "take (nat n) (log_from i (log s key))"
  have law: "xrange_law exec log kv" using assms(1) by (simp add: redis_laws_def)
  have "\<exists>s'. exec [''XRANGE'', key, range_start i, ''+'', ''COUNT'', FormatInt n] s =
      (Returns (entries_reply ?es), s') \<and> unchanged log kv s s'"
  proof (cases "plain_id i")
    case True
    then have "range_start i = ''('' @ i" by (simp add: range_start_def plain_id_def)
    moreover have "i \<in> fst ` set (log s key)" using True assms(4) by (auto simp: plain_id_def)
    ultimately show ?thesis
      using xrange_after [where exec = exec and s = s and key = key, OF law assms(2,3)] True by (simp only: log_from_def if_True)
  next
    case False
    then have "range_start i = ''-''" using assms(4) by (auto simp: range_start_def)
    with xrange_start [where exec = exec and s = s and key = key, OF law assms(2,3)] False show ?thesis
      by (simp only: log_from_def if_False)
  qed
  then obtain s' where "exec [''XRANGE'', key, range_start i, ''+'', ''COUNT'', FormatInt n] s =
      (Returns (entries_reply ?es), s')" "unchanged log kv s s'" by blast
  moreover have "\<not> v_IsError (entries_reply ?es)" by (simp add: entries_reply_def)
  ultimately show ?thesis
    using assms(2) by (intro exI [of _ s']) (simp add: XRange_def command_def count_args_pos parse_entries_reply)
qed

lemma publishToStream_law:
  assumes "redis_laws exec log kv" and "set ord = dom (message_fields msg)"
  shows "\<exists>i s'. publishToStream exec ord prefix roomID msg s = (Returns i, s') \<and>
    log s' = (log s)(streamKey prefix roomID :=
      log s (streamKey prefix roomID) @ [(i, field_pairs ord (message_fields msg))]) \<and>
    kv s' = kv s \<and> i \<notin> fst ` set (log s (streamKey prefix roomID)) \<and> plain_id i"
proof -
  let ?key = "streamKey prefix roomID" and ?kvs = "field_pairs ord (message_fields msg)"
  have "dom (message_fields msg) \<noteq> {}" by (simp add: dom_message_fields)
  then have "ord \<noteq> []" using assms(2) by (metis set_empty)
  then have "?kvs \<noteq> []" by (simp add: field_pairs_def)
  moreover have "xadd_law exec log kv" using assms(1) by (simp add: redis_laws_def)
  ultimately obtain i s' where
    e: "exec ([''XADD'', ?key, ''*''] @ concat (map (\<lambda>(k, v). [k, v]) ?kvs)) s = (Returns (bulk_string i), s')"
    and l: "log s' = (log s)(?key := log s ?key @ [(i, ?kvs)])" "kv s' = kv s"
    "i \<notin> fst ` set (log s ?key)" "plain_id i"
    unfolding xadd_law_def by meson
  have "\<not> v_IsError (bulk_string i)" by (simp add: bulk_string_def)
  with e have "publishToStream exec ord prefix roomID msg s = (Returns i, s')"
    by (simp only: publishToStream_def XAdd_def command_def flat_fields_pairs conv_def AsString_bulk
        after_simps if_False sum.case)
  with l show ?thesis by blast
qed

lemma log_ok_snoc: "log_ok es \<Longrightarrow> i \<notin> fst ` set es \<Longrightarrow> plain_id i \<Longrightarrow> log_ok (es @ [(i, kvs)])"
  by (auto simp: log_ok_def)

section \<open>Publishing and recovering\<close>

definition field_names :: "string set" where
  "field_names = {''sender_id'', ''type'', ''content'', ''metadata'', ''timestamp''}"

lemma rl_Publish_law:
  fixes r :: "'s relay" and a :: nat and clk :: "nat \<Rightarrow> gotime"
  assumes "redis_laws exec log kv" and "rl_rooms r roomID = Some h" and "set ord = field_names"
  defines "key \<equiv> streamKey (rl_prefix r) roomID" and "msg \<equiv> dated (clk 0) roomID (rl_msgs r a)"
  shows "\<exists>i s' res es. rl_Publish exec ord clk rx fin roomID a None r =
      (Returns res, r\<lparr>rl_redis := s', rl_msgs := (rl_msgs r)(a := msg\<lparr>msg_ID := i\<rparr>),
         rl_totalMessages := wrap64 (rl_totalMessages r + 1)\<rparr>, es) \<and>
    (res, es) = (let (res, es) = Room_Broadcast (clk 1) (rl_hasHandler r) rx fin (rl_heap r h) (msg\<lparr>msg_ID := i\<rparr>)
                       (Some DefaultPublishOptions)
                 in (res, es @ emit (rl_hasHandler r)
                       \<lparr>ev_Type = EventTypePublish, ev_RoomID = roomID, ev_UserID = msg_SenderID msg,
                        ev_Timestamp = clk 2, ev_Data = PublishData i (length res)\<rparr>)) \<and>
    log s' = (log (rl_redis r))(key := log (rl_redis r) key @ [(i, field_pairs ord (message_fields msg))]) \<and>
    kv s' = kv (rl_redis r) \<and> i \<notin> fst ` set (log (rl_redis r) key) \<and> plain_id i"
proof -
  have "set ord = dom (message_fields msg)"
    using assms(3) by (simp add: dom_message_fields field_names_def)
  from publishToStream_law [OF assms(1) this, of "rl_prefix r" roomID "rl_redis r"]
  obtain i s' where p: "publishToStream exec ord (rl_prefix r) roomID msg (rl_redis r) = (Returns i, s')"
      "log s' = (log (rl_redis r))(key := log (rl_redis r) key @ [(i, field_pairs ord (message_fields msg))])"
      "kv s' = kv (rl_redis r)" "i \<notin> fst ` set (log (rl_redis r) key)" "plain_id i"
    unfolding key_def by blast
  obtain res es where b: "Room_Broadcast (clk 1) (rl_hasHandler r) rx fin (rl_heap r h) (msg\<lparr>msg_ID := i\<rparr>)
      (Some DefaultPublishOptions) = (res, es)"
    by (cases "Room_Broadcast (clk 1) (rl_hasHandler r) rx fin (rl_heap r h) (msg\<lparr>msg_ID := i\<rparr>)
      (Some DefaultPublishOptions)")
  have "opts_or_default None = DefaultPublishOptions" "po_Persist DefaultPublishOptions"
    by (simp_all add: opts_or_default_def DefaultPublishOptions_def)
  then have "rl_Publish exec ord clk rx fin roomID a None r =
      (Returns res, r\<lparr>rl_redis := s', rl_msgs := (rl_msgs r)(a := msg\<lparr>msg_ID := i\<rparr>),
         rl_totalMessages := wrap64 (rl_totalMessages r + 1)\<rparr>,
       es @ emit (rl_hasHandler r)
         \<lparr>ev_Type = EventTypePublish, ev_RoomID = roomID, ev_UserID = msg_SenderID msg,
          ev_Timestamp = clk 2, ev_Data = PublishData i (length res)\<rparr>)"
    using assms(2) p(1) b
    by (simp add: rl_Publish_def rl_GetRoom_def on_redis_def flip: msg_def)
  with p b show ?thesis by (intro exI [of _ i] exI [of _ s']) auto
qed

definition read_entry :: "string \<Rightarrow> string \<times> (string \<times> string) list \<Rightarrow> message" where
  "read_entry roomID e = parseStreamEntry roomID (entry_of e)"

lemma read_entries: "map (parseStreamEntry roomID) (map entry_of es) = map (read_entry roomID) es"
  by (simp add: read_entry_def)

lemma read_entry_ID [simp]: "msg_ID (read_entry roomID e) = fst e"
  by (simp add: read_entry_def parseStreamEntry_def entry_of_def Let_def)

text \<open>A sequence of publications to one room: each with its environment and a message address.  The
  second component lists the messages as the callers see them when each call has returned.\<close>

type_synonym publish_env = "string list \<times> (nat \<Rightarrow> gotime) \<times> (subscriber \<Rightarrow> nat \<Rightarrow> receive_result) \<times> string list"

fun rl_PublishAll ::
    "'s executor \<Rightarrow> string \<Rightarrow> (publish_env \<times> nat) list \<Rightarrow> 's relay \<Rightarrow> 's relay \<times> message list" where
  "rl_PublishAll exec roomID [] r = (r, [])"
| "rl_PublishAll exec roomID (((ord, clk, rx, fin), a) # ps) r =
     (case rl_Publish exec ord clk rx fin roomID a None r of
        (_, r1, _) \<Rightarrow> (case rl_PublishAll exec roomID ps r1 of (r2, ms) \<Rightarrow> (r2, rl_msgs r1 a # ms)))"

definition publishable :: "'s relay \<Rightarrow> publish_env \<times> nat \<Rightarrow> bool" where
  "publishable r p =
     (case p of ((ord, clk, _), a) \<Rightarrow>
        set ord = field_names \<and> in_int64 (time_to_milli (clk 0)) \<and> storable (rl_msgs r a))"

lemma storable_dated: "storable msg \<Longrightarrow> in_int64 (time_to_milli now) \<Longrightarrow> storable (dated now roomID msg)"
  by (simp add: storable_def dated_def)

lemma storable_ID [simp]: "storable (msg\<lparr>msg_ID := i\<rparr>) = storable msg"
  by (simp add: storable_def)

text \<open>A message as it is read back.\<close>

definition as_read_back :: "message \<Rightarrow> message" where
  "as_read_back msg = msg\<lparr>msg_Content := Some (content_text (msg_Content msg)),
     msg_Timestamp := time_of_milli (time_to_milli (msg_Timestamp msg))\<rparr>"

lemma rl_PublishAll_law:
  assumes "redis_laws exec log kv"
  shows "rl_rooms r roomID = Some h \<Longrightarrow> \<forall>p \<in> set ps. publishable r p \<Longrightarrow>
    log_ok (log (rl_redis r) (streamKey (rl_prefix r) roomID)) \<Longrightarrow>
    \<exists>r' ms es. rl_PublishAll exec roomID ps r = (r', ms) \<and>
      log (rl_redis r') (streamKey (rl_prefix r) roomID) =
        log (rl_redis r) (streamKey (rl_prefix r) roomID) @ es \<and>
      map (read_entry roomID) es = map as_read_back ms \<and>
      map msg_Content ms = map (\<lambda>p. msg_Content (rl_msgs r (snd p))) ps \<and>
      log_ok (log (rl_redis r) (streamKey (rl_prefix r) roomID) @ es) \<and>
      kv (rl_redis r') = kv (rl_redis r) \<and> rl_prefix r' = rl_prefix r \<and> rl_rooms r' = rl_rooms r"
proof (induction ps arbitrary: r)
  case Nil
  then show ?case by simp
next
  case (Cons p ps)
  obtain ord clk rx fin a where p: "p = ((ord, clk, rx, fin), a)" by (metis prod.collapse)
  let ?key = "streamKey (rl_prefix r) roomID" and ?msg = "dated (clk 0) roomID (rl_msgs r a)"
  from Cons.prems(2) p have pub: "set ord = field_names" "storable ?msg"
    by (auto simp: publishable_def storable_dated)
  from rl_Publish_law [OF assms Cons.prems(1) pub(1), of clk rx fin a]
  obtain i s' res es where step: "rl_Publish exec ord clk rx fin roomID a None r =
      (Returns res, r\<lparr>rl_redis := s', rl_msgs := (rl_msgs r)(a := ?msg\<lparr>msg_ID := i\<rparr>),
         rl_totalMessages := wrap64 (rl_totalMessages r + 1)\<rparr>, es)"
    and log: "log s' = (log (rl_redis r))(?key := log (rl_redis r) ?key @ [(i, field_pairs ord (message_fields ?msg))])"
    and s': "kv s' = kv (rl_redis r)" "i \<notin> fst ` set (log (rl_redis r) ?key)" "plain_id i"
    by blast
  let ?r1 = "r\<lparr>rl_redis := s', rl_msgs := (rl_msgs r)(a := ?msg\<lparr>msg_ID := i\<rparr>),
         rl_totalMessages := wrap64 (rl_totalMessages r + 1)\<rparr>"
  let ?e = "(i, field_pairs ord (message_fields ?msg))"
  have pubs: "\<forall>p \<in> set ps. publishable ?r1 p"
    using Cons.prems(2) pub(2) by (auto simp: publishable_def)
  have ok: "log_ok (log (rl_redis ?r1) (streamKey (rl_prefix ?r1) roomID))"
    using log_ok_snoc [OF Cons.prems(3) s'(2,3)] log by simp
  have room: "rl_rooms ?r1 roomID = Some h" using Cons.prems(1) by simp
  from Cons.IH [OF room pubs ok] obtain r' ms es' where
    IH: "rl_PublishAll exec roomID ps ?r1 = (r', ms)"
      "log (rl_redis r') (streamKey (rl_prefix ?r1) roomID) =
        log (rl_redis ?r1) (streamKey (rl_prefix ?r1) roomID) @ es'"
      "map (read_entry roomID) es' = map as_read_back ms"
      "map msg_Content ms = map (\<lambda>p. msg_Content (rl_msgs ?r1 (snd p))) ps"
      "log_ok (log (rl_redis ?r1) (streamKey (rl_prefix ?r1) roomID) @ es')"
      "kv (rl_redis r') = kv (rl_redis ?r1)" "rl_prefix r' = rl_prefix ?r1" "rl_rooms r' = rl_rooms ?r1"
    by blast
  have read: "read_entry roomID ?e = as_read_back (?msg\<lparr>msg_ID := i\<rparr>)"
    using message_entry_read_back [OF pub(2), of ord roomID i] pub(1)
    by (simp add: read_entry_def dom_message_fields field_names_def stored_message_def as_read_back_def dated_def)
  have content: "msg_Content (rl_msgs ?r1 b) = msg_Content (rl_msgs r b)" for b
    by (simp add: dated_def)
  show ?case
  proof (intro exI [of _ r'] exI [of _ "?msg\<lparr>msg_ID := i\<rparr> # ms"] exI [of _ "?e # es'"] conjI)
    show "rl_PublishAll exec roomID (p # ps) r = (r', ?msg\<lparr>msg_ID := i\<rparr> # ms)"
      by (simp add: p step IH(1))
    show "map msg_Content (?msg\<lparr>msg_ID := i\<rparr> # ms) = map (\<lambda>p. msg_Content (rl_msgs r (snd p))) (p # ps)"
      using IH(4) content content [of a] by (simp add: p)
  qed (use IH log read s' in simp_all)
qed

lemma rl_RecoverMessages_law:
  assumes "redis_laws exec log kv" and "0 < n" and "in_int64 n"
    and "plain_id i" and "i \<in> fst ` set (log (rl_redis r) (streamKey (rl_prefix r) roomID))"
  shows "\<exists>s'. rl_RecoverMessages exec roomID userID
      (Some \<lparr>ro_FromID = i, ro_Limit = n, ro_Since = since\<rparr>) r =
    (Returns (map (read_entry roomID)
       (take (nat n) (entries_after i (log (rl_redis r) (streamKey (rl_prefix r) roomID))))),
     r\<lparr>rl_redis := s'\<rparr>) \<and> unchanged log kv (rl_redis r) s'"
proof -
  let ?key = "streamKey (rl_prefix r) roomID"
  from XRange_law [OF assms(1-3), of i "rl_redis r" ?key] assms(4,5) obtain s' where
    x: "XRange exec ?key (range_start i) ''+'' n (rl_redis r) =
        (Returns (map entry_of (take (nat n) (entries_after i (log (rl_redis r) ?key)))), s')"
    and u: "unchanged log kv (rl_redis r) s'"
    by (auto simp: log_from_def)
  have "i \<noteq> ''''" using assms(4) by (simp add: plain_id_def)
  then have "rl_RecoverMessages exec roomID userID (Some \<lparr>ro_FromID = i, ro_Limit = n, ro_Since = since\<rparr>) r =
      (Returns (map (parseStreamEntry roomID) (map entry_of (take (nat n) (entries_after i (log (rl_redis r) ?key))))),
       r\<lparr>rl_redis := s'\<rparr>)"
    using assms(2) x by (simp add: rl_RecoverMessages_def on_redis_def)
  with u show ?thesis by (metis read_entries)
qed

text \<open>
  C2: On a Redis server that keeps its documented promises, whatever is published to a room after
  the entry a client saw last comes back from \<open>RecoverMessages\<close> from that entry on: every message
  once, in order, with its room, ID, sender, type, content and metadata, the time stamp cut to
  milliseconds and nil content as empty content; one message object published several times comes back as it was each time.
\<close>

theorem relay_publish_then_recover:
  assumes "redis_laws exec log kv"
    and "rl_rooms r roomID = Some h"
    and "\<forall>p \<in> set ps. publishable r p"
    and "log_ok (log (rl_redis r) (streamKey (rl_prefix r) roomID))"
    and "log (rl_redis r) (streamKey (rl_prefix r) roomID) = before @ [(i, kvs)]"
    and "rl_PublishAll exec roomID ps r = (r', ms)"
    and "int (length ps) \<le> n" and "0 < n" and "in_int64 n"
  shows "fst (rl_RecoverMessages exec roomID userID
      (Some \<lparr>ro_FromID = i, ro_Limit = n, ro_Since = since\<rparr>) r') = Returns (map as_read_back ms) \<and>
    map msg_Content ms = map (\<lambda>p. msg_Content (rl_msgs r (snd p))) ps"
proof -
  let ?key = "streamKey (rl_prefix r) roomID"
  from rl_PublishAll_law [OF assms(1-4)] assms(6) obtain es where
    es: "log (rl_redis r') ?key = log (rl_redis r) ?key @ es"
      "map (read_entry roomID) es = map as_read_back ms"
      "map msg_Content ms = map (\<lambda>p. msg_Content (rl_msgs r (snd p))) ps"
      "log_ok (log (rl_redis r) ?key @ es)" "rl_prefix r' = rl_prefix r"
    by auto
  have l: "log (rl_redis r') ?key = before @ (i, kvs) # es" using es(1) assms(5) by simp
  have i: "plain_id i" "i \<in> fst ` set (log (rl_redis r') ?key)"
    using assms(4,5) l by (simp_all add: log_ok_def)
  have "entries_after i (before @ (i, kvs) # es) = es"
    using es(4) assms(5) by (intro entries_after_split) (simp add: log_ok_def)
  moreover have "length es = length ps"
    using arg_cong [OF es(2), of length] arg_cong [OF es(3), of length] by simp
  moreover from this have "take (nat n) es = es" using assms(7) by simp
  ultimately have "fst (rl_RecoverMessages exec roomID userID
      (Some \<lparr>ro_FromID = i, ro_Limit = n, ro_Since = since\<rparr>) r') = Returns (map as_read_back ms)"
    using rl_RecoverMessages_law [OF assms(1,8,9) i(1), of r' roomID userID since] i(2) l es(2,5) by auto
  with es(3) show ?thesis by simp
qed

definition mini_relay :: "entry_log \<Rightarrow> mini_redis relay" where
  "mini_relay es =
     snd (rl_CreateRoom 0 (NewRoomConfig ''r'' [])
       (relay_over DefaultConfig 0
          (\<lambda>a. \<lparr>msg_ID = '''', msg_RoomID = '''', msg_SenderID = ''ann'', msg_Type = ''text'',
                msg_Content = Some (replicate a (CHR ''x'')), msg_Metadata = Map.empty,
                msg_Timestamp = zero_time\<rparr>)
          (\<lambda>_. es, Map.empty)))"

definition mini_env :: "int \<Rightarrow> publish_env" where
  "mini_env ms =
     ([''type'', ''sender_id'', ''content'', ''timestamp'', ''metadata''], \<lambda>_. time_of_milli ms,
      \<lambda>_ _. RecvOk, [''bob''])"

lemma mini_relay_facts:
  "rl_rooms (mini_relay es) ''r'' = Some 0" "rl_prefix (mini_relay es) = ''sr:''"
  "rl_redis (mini_relay es) = (\<lambda>_. es, Map.empty)" "msg_Content (rl_msgs (mini_relay es) a) = Some (replicate a (CHR ''x''))"
  "msg_SenderID (rl_msgs (mini_relay es) a) = ''ann''" "rl_heap (mini_relay es) 0 = Room_Start (newRoom (NewRoomConfig ''r'' []) 0)"
  by (simp_all add: mini_relay_def rl_CreateRoom_def relay_over_def DefaultConfig_def NewRoomConfig_def)

lemma mini_publishable: "in_int64 ms \<Longrightarrow> publishable (mini_relay es) (mini_env ms, a)"
  by (auto simp: publishable_def mini_env_def field_names_def storable_def valid_map_def mini_relay_def
      rl_CreateRoom_def relay_over_def DefaultConfig_def NewRoomConfig_def zero_time_def in_int64_def
      min_int64_def max_int64_def time_to_milli_def time_of_milli_def)

theorem relay_publish_then_recover_witness:
  "case rl_PublishAll mini_exec ''r'' [(mini_env 5, 1), (mini_env 6, 2), (mini_env 7, 1)]
      (mini_relay [(''1-0'', [])]) of (r', ms) \<Rightarrow>
    fst (rl_RecoverMessages mini_exec ''r'' ''bob''
      (Some \<lparr>ro_FromID = ''1-0'', ro_Limit = 50, ro_Since = 0\<rparr>) r') = Returns (map as_read_back ms) \<and>
    map msg_Content ms = [Some ''x'', Some ''xx'', Some ''x'']"
proof -
  let ?ps = "[(mini_env 5, 1), (mini_env 6, 2), (mini_env 7, 1)]" and ?r = "mini_relay [(''1-0'', [])]"
  obtain r' ms where p: "rl_PublishAll mini_exec ''r'' ?ps ?r = (r', ms)" by fastforce
  have ps: "\<forall>p \<in> set ?ps. publishable ?r p" by (simp add: mini_publishable max_int64_def)
  have l: "log_ok (fst (rl_redis ?r) (streamKey (rl_prefix ?r) ''r''))"
    by (simp add: mini_relay_facts log_ok_def plain_id_def)
  have b: "fst (rl_redis ?r) (streamKey (rl_prefix ?r) ''r'') = [] @ [(''1-0'', [])]"
    by (simp add: mini_relay_facts)
  note t = relay_publish_then_recover [OF mini_redis_laws mini_relay_facts(1) ps l b p, of 50]
  have "[msg_Content (rl_msgs ?r 1), msg_Content (rl_msgs ?r 2)] = [Some ''x'', Some ''xx'']"
    by (simp add: mini_relay_facts numeral_2_eq_2)
  with t [of "''bob''" 0] p show ?thesis by (simp add: max_int64_def)
qed

section \<open>Recovering from the stored offset\<close>

text \<open>The stored offset of a user who has received the entries \<open>xs\<close>.\<close>

definition offset_of :: "entry_log \<Rightarrow> string option" where
  "offset_of xs = (if xs = [] then None else Some (fst (last xs)))"

lemma offset_or_empty_law:
  assumes "redis_laws exec log kv"
  shows "\<exists>s'. offset_or_empty exec roomID userID r =
      (Returns (case kv (rl_redis r) (offsetKey (rl_prefix r) roomID userID) of None \<Rightarrow> '''' | Some v \<Rightarrow> v),
       r\<lparr>rl_redis := s'\<rparr>) \<and> unchanged log kv (rl_redis r) s'"
proof -
  let ?k = "offsetKey (rl_prefix r) roomID userID"
  have "keys_law exec log kv" using assms by (simp add: redis_laws_def)
  then obtain s' where g: "exec [''GET'', ?k] (rl_redis r) =
      (Returns (case kv (rl_redis r) ?k of None \<Rightarrow> null_bulk | Some v \<Rightarrow> bulk_string v), s')"
      and u: "unchanged log kv (rl_redis r) s'"
    unfolding keys_law_def by blast
  have "offset_or_empty exec roomID userID r =
      (Returns (case kv (rl_redis r) ?k of None \<Rightarrow> '''' | Some v \<Rightarrow> v), r\<lparr>rl_redis := s'\<rparr>)"
  proof (cases "kv (rl_redis r) ?k")
    case None
    then show ?thesis by (simp add: offset_or_empty_def GetOffset_def on_redis_def g null_bulk_def)
  next
    case (Some v)
    moreover have "\<not> v_IsNull (bulk_string v)" by (simp add: bulk_string_def)
    ultimately show ?thesis
      by (simp add: offset_or_empty_def GetOffset_def on_redis_def g conv_def)
  qed
  with u show ?thesis by blast
qed

lemma SaveOffset_law:
  assumes "redis_laws exec log kv"
  shows "\<exists>s'. SaveOffset exec roomID userID i r = (Returns (), r\<lparr>rl_redis := s'\<rparr>) \<and>
    log s' = log (rl_redis r) \<and> kv s' = (kv (rl_redis r))(offsetKey (rl_prefix r) roomID userID \<mapsto> i)"
proof -
  have "keys_law exec log kv" using assms by (simp add: redis_laws_def)
  then obtain resp s' where "exec [''SET'', offsetKey (rl_prefix r) roomID userID, i] (rl_redis r) = (Returns resp, s')"
      "log s' = log (rl_redis r)" "kv s' = (kv (rl_redis r))(offsetKey (rl_prefix r) roomID userID \<mapsto> i)"
    unfolding keys_law_def by meson
  then show ?thesis by (intro exI [of _ s']) (simp add: SaveOffset_def on_redis_def)
qed

lemma receive_loop_ok: "receive_loop (\<lambda>_. RecvOk) k ms = (Returns (), ms)"
  by (induction ms arbitrary: k) simp_all

definition from_offset :: "int \<Rightarrow> recovery_options option" where
  "from_offset n = Some \<lparr>ro_FromID = '''', ro_Limit = n, ro_Since = zero_time\<rparr>"

lemma recover_step:
  assumes "redis_laws exec log kv" and "0 < n" and "in_int64 n"
    and "log (rl_redis r) (streamKey (rl_prefix r) roomID) = xs @ ys" and "log_ok (xs @ ys)"
    and "kv (rl_redis r) (offsetKey (rl_prefix r) roomID (sub_ID sub)) = offset_of xs"
  shows "\<exists>r'. rl_RecoverAndDeliver exec roomID sub (\<lambda>_. RecvOk) (from_offset n) r =
      (Returns (), r', map (read_entry roomID) (take (nat n) ys)) \<and>
    rl_prefix r' = rl_prefix r \<and> log (rl_redis r') = log (rl_redis r) \<and>
    kv (rl_redis r') (offsetKey (rl_prefix r) roomID (sub_ID sub)) = offset_of (xs @ take (nat n) ys)"
proof -
  let ?key = "streamKey (rl_prefix r) roomID" and ?off = "offsetKey (rl_prefix r) roomID (sub_ID sub)"
  let ?i = "case offset_of xs of None \<Rightarrow> '''' | Some v \<Rightarrow> v"
  let ?ys = "take (nat n) ys"
  from offset_or_empty_law [OF assms(1), of roomID "sub_ID sub" r] assms(6) obtain s1 where
    s1: "offset_or_empty exec roomID (sub_ID sub) r = (Returns ?i, r\<lparr>rl_redis := s1\<rparr>)"
      "unchanged log kv (rl_redis r) s1" by auto
  have from_i: "(?i = '''' \<or> plain_id ?i \<and> ?i \<in> fst ` set (xs @ ys)) \<and> log_from ?i (xs @ ys) = ys"
  proof (cases xs rule: rev_cases)
    case Nil
    then show ?thesis by (simp add: offset_of_def log_from_def plain_id_def)
  next
    case (snoc zs e)
    obtain i kvs where e: "e = (i, kvs)" by (cases e)
    have "entries_after i (zs @ (i, kvs) # ys) = ys"
      using assms(5) snoc e by (intro entries_after_split) (simp add: log_ok_def)
    with assms(5) show ?thesis
      by (simp add: snoc e offset_of_def log_from_def log_ok_def)
  qed
  have "log s1 ?key = xs @ ys" using s1(2) assms(4) by (simp add: unchanged_def)
  with XRange_law [OF assms(1-3), of ?i s1 ?key] from_i obtain s2 where
    s2: "XRange exec ?key (range_start ?i) ''+'' n s1 = (Returns (map entry_of ?ys), s2)"
      "unchanged log kv s1 s2" by auto
  have rec: "rl_RecoverMessages exec roomID (sub_ID sub) (from_offset n) r =
      (Returns (map (read_entry roomID) ?ys), r\<lparr>rl_redis := s2\<rparr>)"
    using assms(2) s1(1) s2(1)
    by (simp add: rl_RecoverMessages_def from_offset_def on_redis_def read_entries [simplified])
  show ?thesis
  proof (cases "?ys = []")
    case True
    then have "ys = []" using assms(2) by simp
    with rec s1(2) s2(2) assms(6) show ?thesis
      by (simp add: rl_RecoverAndDeliver_def receive_loop_ok unchanged_def)
  next
    case False
    have last: "msg_ID (last (map (read_entry roomID) ?ys)) = fst (last ?ys)"
      using False by (simp add: last_map)
    have "last ?ys \<in> set ys" using in_set_takeD [OF last_in_set [OF False]] .
    then have "fst (last ?ys) \<noteq> ''''" using assms(5) by (auto simp: log_ok_def plain_id_def)
    moreover from SaveOffset_law [OF assms(1), of roomID "sub_ID sub" "fst (last ?ys)" "r\<lparr>rl_redis := s2\<rparr>"]
    obtain s3 where "SaveOffset exec roomID (sub_ID sub) (fst (last ?ys)) (r\<lparr>rl_redis := s2\<rparr>) =
        (Returns (), r\<lparr>rl_redis := s3\<rparr>)" "log s3 = log s2" "kv s3 = (kv s2)(?off \<mapsto> fst (last ?ys))"
      by auto
    ultimately show ?thesis
      using False rec last s1(2) s2(2)
      by (simp add: rl_RecoverAndDeliver_def receive_loop_ok unchanged_def offset_of_def)
  qed
qed

text \<open>Calls of \<open>RecoverAndDeliver\<close> for one subscriber that takes everything, one after the other.\<close>

fun recover_rounds ::
    "'s executor \<Rightarrow> string \<Rightarrow> subscriber \<Rightarrow> int list \<Rightarrow> 's relay \<Rightarrow> 's relay \<times> message list" where
  "recover_rounds exec roomID sub [] r = (r, [])"
| "recover_rounds exec roomID sub (n # ns) r =
     (case rl_RecoverAndDeliver exec roomID sub (\<lambda>_. RecvOk) (from_offset n) r of
        (_, r1, ms) \<Rightarrow> (case recover_rounds exec roomID sub ns r1 of (r2, ms') \<Rightarrow> (r2, ms @ ms')))"

lemma recover_rounds_from:
  assumes "redis_laws exec log kv"
  shows "\<forall>n \<in> set ns. 0 < n \<and> in_int64 n \<Longrightarrow>
    log (rl_redis r) (streamKey (rl_prefix r) roomID) = xs @ ys \<Longrightarrow> log_ok (xs @ ys) \<Longrightarrow>
    kv (rl_redis r) (offsetKey (rl_prefix r) roomID (sub_ID sub)) = offset_of xs \<Longrightarrow>
    snd (recover_rounds exec roomID sub ns r) =
      map (read_entry roomID) (take (nat (sum_list ns)) ys)"
proof (induction ns arbitrary: r xs ys)
  case Nil
  then show ?case by simp
next
  case (Cons n ns)
  have n: "0 < n" "in_int64 n" using Cons.prems(1) by simp_all
  from recover_step [OF assms n Cons.prems(2-4)] obtain r' where
    r': "rl_RecoverAndDeliver exec roomID sub (\<lambda>_. RecvOk) (from_offset n) r =
        (Returns (), r', map (read_entry roomID) (take (nat n) ys))"
      "rl_prefix r' = rl_prefix r" "log (rl_redis r') = log (rl_redis r)"
      "kv (rl_redis r') (offsetKey (rl_prefix r) roomID (sub_ID sub)) = offset_of (xs @ take (nat n) ys)"
    by blast
  have split: "(xs @ take (nat n) ys) @ drop (nat n) ys = xs @ ys" by simp
  have "snd (recover_rounds exec roomID sub ns r') =
      map (read_entry roomID) (take (nat (sum_list ns)) (drop (nat n) ys))"
    using Cons.prems r' split by (intro Cons.IH [of r' "xs @ take (nat n) ys"]) simp_all
  moreover have "0 \<le> sum_list ns" using Cons.prems(1) by (intro sum_list_nonneg) auto
  then have "take (nat (sum_list (n # ns))) ys = take (nat n) ys @ take (nat (sum_list ns)) (drop (nat n) ys)"
    using n(1) by (simp add: nat_add_distrib take_add)
  ultimately show ?case by (simp add: r'(1) case_prod_unfold)
qed

text \<open>
  C3: A user without a stored offset whose subscriber takes every message gets, over any number of
  \<open>RecoverAndDeliver\<close> calls with any positive limits, the entries of the stream from the oldest on,
  each exactly once and in order, as many as the limits add up to.
\<close>

theorem recover_and_deliver_exactly_once:
  assumes "redis_laws exec log kv" and "\<forall>n \<in> set ns. 0 < n \<and> in_int64 n"
    and "log_ok (log (rl_redis r) (streamKey (rl_prefix r) roomID))"
    and "kv (rl_redis r) (offsetKey (rl_prefix r) roomID (sub_ID sub)) = None"
  shows "snd (recover_rounds exec roomID sub ns r) =
    map (\<lambda>e. parseStreamEntry roomID (entry_of e))
      (take (nat (sum_list ns)) (log (rl_redis r) (streamKey (rl_prefix r) roomID)))"
proof -
  have "snd (recover_rounds exec roomID sub ns r) = map (read_entry roomID)
      (take (nat (sum_list ns)) (log (rl_redis r) (streamKey (rl_prefix r) roomID)))"
    using assms(3,4) by (intro recover_rounds_from [OF assms(1,2), of r roomID "[]"]) (simp_all add: offset_of_def)
  then show ?thesis by (simp add: read_entry_def)
qed

theorem recover_and_deliver_exactly_once_witness:
  "map msg_ID (snd (recover_rounds mini_exec ''r'' bob [2, 1, 5]
     (mini_relay [(''1-0'', []), (''2-0'', []), (''3-0'', []), (''4-0'', [])]))) =
   [''1-0'', ''2-0'', ''3-0'', ''4-0'']"
proof -
  let ?r = "mini_relay [(''1-0'', []), (''2-0'', []), (''3-0'', []), (''4-0'', [])]"
  have "snd (recover_rounds mini_exec ''r'' bob [2, 1, 5] ?r) =
      map (\<lambda>e. parseStreamEntry ''r'' (entry_of e))
        (take (nat (sum_list [2, 1, 5])) (fst (rl_redis ?r) (streamKey (rl_prefix ?r) ''r'')))"
    by (rule recover_and_deliver_exactly_once [OF mini_redis_laws])
      (simp_all add: mini_relay_facts log_ok_def plain_id_def max_int64_def)
  then show ?thesis
    by (simp add: mini_relay_facts parseStreamEntry_def entry_of_def Let_def)
qed

end
