(* ===== verification/RelayProps.thy ===== *)
theory RelayProps
  imports RelaySpec
begin

text \<open>
  Further properties of the Redis-backed relay: the invariant of its rooms, what a publication and
  the listener deliver together, the fallback history, and replies whose errors go unnoticed.
\<close>

section \<open>Publishing and listening\<close>

text \<open>The read after the last entry but one returns the last one.\<close>

lemma read_last_entry:
  assumes "redis_laws exec log kv" and "log s (streamKey prefix roomID) = before @ [(i, kvs), (j, kvs')]"
    and "distinct (map fst (log s (streamKey prefix roomID)))"
  shows "\<exists>s'. exec (read_request prefix roomID i) s =
    (Returns (array_value [stream_reply (streamKey prefix roomID, [(j, kvs')])]), s')"
proof -
  let ?key = "streamKey prefix roomID"
  have "entries_after i (log s ?key) = [(j, kvs')]"
    using assms(3) unfolding assms(2) by (intro entries_after_split) simp
  moreover have "i \<in> fst ` set (log s ?key)" by (simp add: assms(2))
  moreover have "xread_law exec log kv" using assms(1) by (simp add: redis_laws_def)
  ultimately show ?thesis
    unfolding xread_law_def read_request_def
    by (metis list.distinct(1) take_Cons_numeral take_Nil)
qed

lemma sender_field:
  "set ord = field_names \<Longrightarrow>
   map_of (rev (field_pairs ord (message_fields msg))) ''sender_id'' = Some (msg_SenderID msg)"
  by (subst field_pairs_read_back)
    (simp_all add: dom_message_fields field_names_def, simp add: message_fields_def Let_def)

text \<open>
  C36: A persisted message reaches an online subscriber of its room twice: \<open>Publish\<close> broadcasts it,
  and the room's own listener reads it back from the stream and broadcasts it again.
\<close>

theorem persisted_message_delivered_twice:
  fixes r :: "'s relay" and clk :: "nat \<Rightarrow> gotime"
  assumes "redis_laws exec log kv"
    and "rl_rooms r roomID = Some h" and "rc_ID (rm_config (rl_heap r h)) = roomID"
    and "room_inv (rl_heap r h)" and "\<not> rm_stopClosed (rl_heap r h)" and "rl_running r"
    and "log_ok (log (rl_redis r) (streamKey (rl_prefix r) roomID))"
    and "log (rl_redis r) (streamKey (rl_prefix r) roomID) = before @ [(ln_lastID l, kvs)]"
    and "set ord = field_names"
    and "rm_subscribers (rl_heap r h) (sub_ID s) = Some s" and "msg_SenderID (rl_msgs r a) \<noteq> sub_ID s"
    and "sub_ID s \<in> set fin" and "rx s 0 = RecvOk" and "prompt dv s"
  shows "\<exists>res r1 es1 l' r2 es2.
    rl_Publish exec ord clk rx fin roomID a None r = (Returns res, r1, es1) \<and>
    rl_ListenRound exec errtxt dv now h l r1 = (Goes_on, l', r2, es2) \<and>
    receives s es1 = 1 \<and> receives s es2 = 1"
proof -
  let ?key = "streamKey (rl_prefix r) roomID" and ?msg = "dated (clk 0) roomID (rl_msgs r a)"
  let ?room = "rl_heap r h"
  from rl_Publish_law [OF assms(1,2,9), of clk rx fin a] obtain i s' res es1 where
    p: "rl_Publish exec ord clk rx fin roomID a None r =
        (Returns res, r\<lparr>rl_redis := s', rl_msgs := (rl_msgs r)(a := ?msg\<lparr>msg_ID := i\<rparr>),
           rl_totalMessages := wrap64 (rl_totalMessages r + 1)\<rparr>, es1)"
    and out: "(res, es1) = (let (res, es) = Room_Broadcast (clk 1) (rl_hasHandler r) rx fin ?room
           (?msg\<lparr>msg_ID := i\<rparr>) (Some DefaultPublishOptions)
         in (res, es @ emit (rl_hasHandler r)
               \<lparr>ev_Type = EventTypePublish, ev_RoomID = roomID, ev_UserID = msg_SenderID ?msg,
                ev_Timestamp = clk 2, ev_Data = PublishData i (length res)\<rparr>))"
    and log: "log s' = (log (rl_redis r))(?key := log (rl_redis r) ?key @ [(i, field_pairs ord (message_fields ?msg))])"
    and i: "i \<notin> fst ` set (log (rl_redis r) ?key)" "plain_id i"
    by blast
  let ?r1 = "r\<lparr>rl_redis := s', rl_msgs := (rl_msgs r)(a := ?msg\<lparr>msg_ID := i\<rparr>),
           rl_totalMessages := wrap64 (rl_totalMessages r + 1)\<rparr>"
  let ?es = "[(i, field_pairs ord (message_fields ?msg))]"
  have sender: "msg_SenderID ?msg = msg_SenderID (rl_msgs r a)" by (simp add: dated_def)
  have t: "table_ok (rm_subscribers ?room) (rm_presence ?room)" using assms(4) by (simp add: room_inv_def)
  have "receives s (snd (Room_Broadcast (clk 1) (rl_hasHandler r) rx fin ?room (?msg\<lparr>msg_ID := i\<rparr>)
      (Some DefaultPublishOptions))) = 1"
    using Room_Broadcast_receives [OF t assms(10), of fin rx] assms(11-13) sender
    by (simp add: skipped_def)
  with out have es1: "receives s es1 = 1" by (auto split: prod.splits)
  have "log s' ?key = before @ [(ln_lastID l, kvs), (i, field_pairs ord (message_fields ?msg))]"
    using log assms(8) by simp
  moreover from this have "distinct (map fst (log s' ?key))"
    using assms(7,8) i(1) by (auto simp: log_ok_def)
  ultimately obtain s2 where read: "exec (read_request (rl_prefix r) roomID (ln_lastID l)) s' =
      (Returns (array_value [stream_reply (?key, ?es)]), s2)"
    using read_last_entry [OF assms(1)] by meson
  have wanted: "length (filter (\<lambda>e. (case map_of (rev (snd e)) ''sender_id'' of Some u \<Rightarrow> u | None \<Rightarrow> '''') \<noteq> sub_ID s) ?es) = 1"
    using assms(9,11) sender by (simp add: sender_field)
  from listen_round_entries [where exec = exec and prefix = "rl_prefix r" and st = s' and st' = s2 and l = l
      and errtxt = errtxt and now = now and hh = "rl_hasHandler r", OF assms(4,5,10,14), of ?es] read wanted assms(3)
  obtain l' room' es2 where lr: "listen_round exec (rl_prefix r) errtxt dv now (rl_hasHandler r) False l ?room s' =
      (Goes_on, l', room', s2, es2)" "receives s es2 = 1"
    by (metis (no_types, lifting) list.distinct(1))
  then have "rl_ListenRound exec errtxt dv now h l ?r1 =
      (Goes_on, l', ?r1\<lparr>rl_heap := (rl_heap ?r1)(h := room'), rl_redis := s2\<rparr>, es2)"
    using assms(6) by (simp add: rl_ListenRound_def)
  with p es1 lr(2) show ?thesis by blast
qed

definition bob_relay :: "mini_redis relay" where
  "bob_relay = (mini_relay [(''1-0'', [])])\<lparr>rl_heap := \<lambda>_. sample_room\<rparr>"

theorem persisted_message_delivered_twice_witness:
  "\<exists>res r1 es1 l' r2 es2.
    rl_Publish mini_exec [''type'', ''sender_id'', ''content'', ''timestamp'', ''metadata''] (\<lambda>_. 0)
      (\<lambda>_ _. RecvOk) [''bob''] ''r'' 7 None bob_relay = (Returns res, r1, es1) \<and>
    rl_ListenRound mini_exec (\<lambda>_. '''') (\<lambda>_. (\<lambda>_ _. RecvOk, [''bob''], 0)) 0 0
      \<lparr>ln_lastID = ''1-0'', ln_errors = 0\<rparr> r1 = (Goes_on, l', r2, es2) \<and>
    receives bob es1 = 1 \<and> receives bob es2 = 1"
proof (rule persisted_message_delivered_twice [OF mini_redis_laws])
  show "rl_rooms bob_relay ''r'' = Some 0" by (simp add: bob_relay_def mini_relay_facts)
  show "rl_running bob_relay"
    by (simp add: bob_relay_def mini_relay_def rl_CreateRoom_def relay_over_def)
  show "fst (rl_redis bob_relay) (streamKey (rl_prefix bob_relay) ''r'') =
      [] @ [(ln_lastID \<lparr>ln_lastID = ''1-0'', ln_errors = 0\<rparr>, [])]"
    by (simp add: bob_relay_def mini_relay_facts)
  then show "log_ok (fst (rl_redis bob_relay) (streamKey (rl_prefix bob_relay) ''r''))"
    by (simp add: log_ok_def plain_id_def)
  show "set [''type'', ''sender_id'', ''content'', ''timestamp'', ''metadata''] = field_names"
    by (auto simp: field_names_def)
  show "msg_SenderID (rl_msgs bob_relay 7) \<noteq> sub_ID bob"
    by (simp add: bob_relay_def mini_relay_facts sample_room_facts)
  show "prompt (\<lambda>_. (\<lambda>_ _. RecvOk, [''bob''], 0)) bob"
    by (simp add: prompt_def sample_room_facts)
qed (simp_all add: bob_relay_def sample_room_facts)

section \<open>Errors that go unnoticed\<close>

text \<open>
  \<open>SaveOffset\<close> and \<open>ClearRedisHistory\<close> report success when the server answers with an error:
  they look at the error of the call only, not at the reply.
\<close>

theorem error_replies_unnoticed:
  assumes "exec [''SET'', offsetKey (rl_prefix r) roomID userID, i] (rl_redis r) = (Returns v, s1)"
    and "exec [''DEL'', streamKey (rl_prefix r) roomID] (rl_redis r) = (Returns w, s2)"
    and "v_IsError v" and "v_IsError w"
  shows "SaveOffset exec roomID userID i r = (Returns (), r\<lparr>rl_redis := s1\<rparr>) \<and>
    ClearRedisHistory exec roomID r = (Returns (), r\<lparr>rl_redis := s2\<rparr>)"
  using assms by (simp add: SaveOffset_def ClearRedisHistory_def on_redis_def)

theorem error_replies_unnoticed_witness:
  "fst (SaveOffset (\<lambda>_ s. (Returns (error_value ''OOM''), s)) ''r'' ''bob'' ''5-0'' (mini_relay [])) = Returns () \<and>
   fst (ClearRedisHistory (\<lambda>_ s. (Returns (error_value ''OOM''), s)) ''r'' (mini_relay [])) = Returns ()"
  using error_replies_unnoticed [of "\<lambda>_ s. (Returns (error_value ''OOM''), s)" "mini_relay []" "''r''" "''bob''" "''5-0''"]
  by (simp add: error_value_def)

section \<open>History with a fallback\<close>

lemma InjectHistory_law:
  assumes "redis_laws exec log kv" and "\<forall>k. set (ord k) = field_names" and "\<forall>k. in_int64 (time_to_milli (clk k))"
  shows "\<forall>a \<in> set as. storable (rl_msgs r a) \<Longrightarrow>
    log_ok (log (rl_redis r) (streamKey (rl_prefix r) roomID)) \<Longrightarrow>
    \<exists>r' es. InjectHistoryToRedis exec ord clk k roomID as r = (Returns (), r') \<and>
      log (rl_redis r') (streamKey (rl_prefix r) roomID) =
        log (rl_redis r) (streamKey (rl_prefix r) roomID) @ es \<and>
      map (\<lambda>e. msg_Content (read_entry roomID e)) es = map (\<lambda>a. Some (content_text (msg_Content (rl_msgs r a)))) as \<and>
      rl_prefix r' = rl_prefix r \<and>
      (\<forall>a. msg_ID (rl_msgs r' a) = msg_ID (rl_msgs r a))"
proof (induction "as" arbitrary: r k)
  case Nil
  then show ?case by simp
next
  case (Cons a as')
  let ?key = "streamKey (rl_prefix r) roomID" and ?msg = "dated (clk k) roomID (rl_msgs r a)"
  have ord: "set (ord k) = dom (message_fields ?msg)"
    using assms(2) by (simp add: dom_message_fields field_names_def)
  have st: "storable ?msg" using Cons.prems(1) assms(3) by (simp add: storable_dated)
  from publishToStream_law [OF assms(1) ord, of "rl_prefix r" roomID "rl_redis r"] obtain i s' where
    p: "publishToStream exec (ord k) (rl_prefix r) roomID ?msg (rl_redis r) = (Returns i, s')"
      "log s' = (log (rl_redis r))(?key := log (rl_redis r) ?key @ [(i, field_pairs (ord k) (message_fields ?msg))])"
      "i \<notin> fst ` set (log (rl_redis r) ?key)" "plain_id i"
    by blast
  let ?r1 = "(set_message a ?msg r)\<lparr>rl_redis := s'\<rparr>"
  have r1: "rl_prefix ?r1 = rl_prefix r" "rl_redis ?r1 = s'"
      "rl_msgs ?r1 = (rl_msgs r)(a := ?msg)" by (simp_all add: set_message_def)
  have "\<forall>b \<in> set as'. storable (rl_msgs ?r1 b)" using Cons.prems(1) st r1(3) by auto
  moreover have "log_ok (log (rl_redis ?r1) (streamKey (rl_prefix ?r1) roomID))"
    using log_ok_snoc [OF Cons.prems(2) p(3,4)] p(2) r1 by simp
  ultimately obtain r' es where
    IH: "InjectHistoryToRedis exec ord clk (Suc k) roomID as' ?r1 = (Returns (), r')"
      "log (rl_redis r') (streamKey (rl_prefix ?r1) roomID) =
         log (rl_redis ?r1) (streamKey (rl_prefix ?r1) roomID) @ es"
      "map (\<lambda>e. msg_Content (read_entry roomID e)) es = map (\<lambda>a. Some (content_text (msg_Content (rl_msgs ?r1 a)))) as'"
      "rl_prefix r' = rl_prefix ?r1" "\<forall>b. msg_ID (rl_msgs r' b) = msg_ID (rl_msgs ?r1 b)"
    using Cons.IH [of ?r1 "Suc k"] by blast
  have step: "InjectHistoryToRedis exec ord clk k roomID (a # as') r = (Returns (), r')"
    using IH(1) p(1) by (simp add: on_redis_def set_message_def)
  have "read_entry roomID (i, field_pairs (ord k) (message_fields ?msg)) = stored_message roomID i ?msg"
    using message_entry_read_back [OF st ord] by (simp add: read_entry_def)
  then have content: "msg_Content (read_entry roomID (i, field_pairs (ord k) (message_fields ?msg))) = Some (content_text (msg_Content (rl_msgs r a)))"
    by (simp add: stored_message_def dated_def)
  have same: "msg_Content (rl_msgs ?r1 b) = msg_Content (rl_msgs r b)" "msg_ID (rl_msgs ?r1 b) = msg_ID (rl_msgs r b)" for b
    by (simp_all add: set_message_def dated_def)
  show ?case
  proof (intro exI [of _ r'] exI [of _ "(i, field_pairs (ord k) (message_fields ?msg)) # es"] conjI)
    show "log (rl_redis r') ?key = log (rl_redis r) ?key @ (i, field_pairs (ord k) (message_fields ?msg)) # es"
      using IH(2) p(2) r1 by simp
    show "map (\<lambda>e. msg_Content (read_entry roomID e)) ((i, field_pairs (ord k) (message_fields ?msg)) # es) =
        map (\<lambda>a. Some (content_text (msg_Content (rl_msgs r a)))) (a # as')"
      using IH(3) content same(1) by simp
  qed (use IH(4,5) step r1(1) same(2) in simp_all)
qed

lemma deliver_caller_all:
  "\<exists>r'. deliver_caller_loop hasSub (\<lambda>_. RecvOk) k roomID as r = (Returns (), r', if hasSub then as else []) \<and>
    rl_redis r' = rl_redis r \<and> rl_prefix r' = rl_prefix r \<and> (\<forall>a. msg_ID (rl_msgs r' a) = msg_ID (rl_msgs r a))"
proof (induction "as" arbitrary: k r)
  case Nil
  then show ?case by simp
next
  case (Cons a as')
  let ?r1 = "set_message a ((rl_msgs r a)\<lparr>msg_RoomID := roomID\<rparr>) r"
  have "rl_redis ?r1 = rl_redis r" "rl_prefix ?r1 = rl_prefix r" "\<forall>b. msg_ID (rl_msgs ?r1 b) = msg_ID (rl_msgs r b)"
    by (simp_all add: set_message_def)
  moreover obtain r' where "deliver_caller_loop hasSub (\<lambda>_. RecvOk) (Suc k) roomID as' ?r1 =
      (Returns (), r', if hasSub then as' else [])" "rl_redis r' = rl_redis ?r1" "rl_prefix r' = rl_prefix ?r1"
      "\<forall>b. msg_ID (rl_msgs r' b) = msg_ID (rl_msgs ?r1 b)"
    using Cons.IH by blast
  ultimately show ?case by (intro exI [of _ r'], cases hasSub) simp_all
qed

lemma GetHistory_law:
  assumes "redis_laws exec log kv" and "0 < n" and "in_int64 n"
  shows "\<exists>s'. GetHistoryFromRedis exec roomID n r =
      (Returns (map (read_entry roomID) (take (nat n) (log (rl_redis r) (streamKey (rl_prefix r) roomID)))),
       r\<lparr>rl_redis := s'\<rparr>) \<and> unchanged log kv (rl_redis r) s'"
proof -
  let ?key = "streamKey (rl_prefix r) roomID"
  from XRange_law [OF assms, of "''''" "rl_redis r" ?key] obtain s' where
    x: "XRange exec ?key ''-'' ''+'' n (rl_redis r) = (Returns (map entry_of (take (nat n) (log (rl_redis r) ?key))), s')"
    and u: "unchanged log kv (rl_redis r) s'"
    by (auto simp: range_start_def log_from_def plain_id_def)
  have "GetHistoryFromRedis exec roomID n r =
      (Returns (map (parseStreamEntry roomID) (map entry_of (take (nat n) (log (rl_redis r) ?key)))), r\<lparr>rl_redis := s'\<rparr>)"
    using assms(2) x by (simp add: GetHistoryFromRedis_def history_limit_def parse_all_def on_redis_def)
  with u show ?thesis by (metis read_entries)
qed

text \<open>
  C31: On an empty stream \<open>LoadHistoryWithFallback\<close> hands the caller's messages over, at most
  \<open>limit\<close>, and puts them into the stream; the next call gets the same contents from the stream, in the same
  order.  The messages handed over first keep the IDs the caller gave them, not those of their entries.
\<close>

theorem fallback_fills_the_stream:
  assumes "redis_laws exec log kv" and "log (rl_redis r) (streamKey (rl_prefix r) roomID) = []"
    and "\<forall>k. set (ord k) = field_names" and "\<forall>k. in_int64 (time_to_milli (clk k))"
    and "\<forall>a \<in> set as. storable (rl_msgs r a)" and "as \<noteq> []" and "0 < n" and "in_int64 n"
  shows "\<exists>r1 ms r2.
    LoadHistoryWithFallback exec ord clk True (\<lambda>_. RecvOk) roomID as n r =
      (Returns (), FromCaller (take (nat n) as), r1, FromCaller (take (nat n) as)) \<and>
    (\<forall>a. msg_ID (rl_msgs r1 a) = msg_ID (rl_msgs r a)) \<and>
    LoadHistoryWithFallback exec ord clk True (\<lambda>_. RecvOk) roomID as n r1 =
      (Returns (), FromRedis ms, r2, FromRedis ms) \<and>
    map msg_Content ms = map (\<lambda>a. Some (content_text (msg_Content (rl_msgs r a)))) (take (nat n) as)"
proof -
  let ?as = "take (nat n) as" and ?key = "streamKey (rl_prefix r) roomID"
  have lim: "(if n < int (length as) then take (nat n) as else as) = ?as" using assms(7) by simp
  have h: "history_limit n = n" using assms(7) by (simp add: history_limit_def)
  from GetHistory_law [OF assms(1,7,8), of roomID r] assms(2) obtain s1 where
    g1: "GetHistoryFromRedis exec roomID n r = (Returns [], r\<lparr>rl_redis := s1\<rparr>)"
      "unchanged log kv (rl_redis r) s1" by auto
  let ?r1 = "r\<lparr>rl_redis := s1\<rparr>"
  have "\<forall>a \<in> set ?as. storable (rl_msgs ?r1 a)" using assms(5) by (auto dest: in_set_takeD)
  moreover have "log_ok (log (rl_redis ?r1) (streamKey (rl_prefix ?r1) roomID))"
    using g1(2) assms(2) by (simp add: unchanged_def log_ok_def)
  ultimately obtain r2 es where inj: "InjectHistoryToRedis exec ord clk 0 roomID ?as ?r1 = (Returns (), r2)"
      "log (rl_redis r2) ?key = es"
      "map (\<lambda>e. msg_Content (read_entry roomID e)) es = map (\<lambda>a. Some (content_text (msg_Content (rl_msgs r a)))) ?as"
      "rl_prefix r2 = rl_prefix r" "\<forall>a. msg_ID (rl_msgs r2 a) = msg_ID (rl_msgs r a)"
    using InjectHistory_law [OF assms(1,3,4), of ?as ?r1 roomID 0] g1(2) assms(2)
    by (auto simp: unchanged_def)
  from deliver_caller_all [of True 0 roomID ?as r2] obtain r3 where
    d: "deliver_caller_loop True (\<lambda>_. RecvOk) 0 roomID ?as r2 = (Returns (), r3, ?as)"
      "rl_redis r3 = rl_redis r2" "rl_prefix r3 = rl_prefix r2" "\<forall>a. msg_ID (rl_msgs r3 a) = msg_ID (rl_msgs r2 a)"
    by auto
  have first: "LoadHistoryWithFallback exec ord clk True (\<lambda>_. RecvOk) roomID as n r =
      (Returns (), FromCaller ?as, r3, FromCaller ?as)"
    using assms(6) g1(1) inj(1) d(1) by (simp add: LoadHistoryWithFallback_def h lim Let_def)
  have len: "length es = length ?as" using arg_cong [OF inj(3), of length] by simp
  moreover have "?as \<noteq> []" using assms(6,7) by simp
  ultimately have es: "take (nat n) es = es" "es \<noteq> []" by (simp, metis length_0_conv)
  from GetHistory_law [OF assms(1,7,8), of roomID r3] d(2,3) inj(2,4) es(1) obtain s4 where
    g2: "GetHistoryFromRedis exec roomID n r3 = (Returns (map (read_entry roomID) es), r3\<lparr>rl_redis := s4\<rparr>)"
    by auto
  have "LoadHistoryWithFallback exec ord clk True (\<lambda>_. RecvOk) roomID as n r3 =
      (Returns (), FromRedis (map (read_entry roomID) es), r3\<lparr>rl_redis := s4\<rparr>, FromRedis (map (read_entry roomID) es))"
    using es(2) g2 by (simp add: LoadHistoryWithFallback_def h receive_loop_ok)
  moreover have "map msg_Content (map (read_entry roomID) es) = map (\<lambda>a. Some (content_text (msg_Content (rl_msgs r a)))) ?as"
    using inj(3) by (simp add: comp_def)
  moreover have "\<forall>a. msg_ID (rl_msgs r3 a) = msg_ID (rl_msgs r a)" using d(4) inj(5) by simp
  ultimately show ?thesis using first by blast
qed

theorem fallback_fills_the_stream_witness:
  "\<exists>r1 ms r2.
    LoadHistoryWithFallback mini_exec (\<lambda>_. [''type'', ''sender_id'', ''content'', ''timestamp'', ''metadata''])
      (\<lambda>_. 0) True (\<lambda>_. RecvOk) ''r'' [1, 2, 3] 2 (mini_relay []) =
      (Returns (), FromCaller [1, 2], r1, FromCaller [1, 2]) \<and>
    (\<forall>a. msg_ID (rl_msgs r1 a) = msg_ID (rl_msgs (mini_relay []) a)) \<and>
    LoadHistoryWithFallback mini_exec (\<lambda>_. [''type'', ''sender_id'', ''content'', ''timestamp'', ''metadata''])
      (\<lambda>_. 0) True (\<lambda>_. RecvOk) ''r'' [1, 2, 3] 2 r1 = (Returns (), FromRedis ms, r2, FromRedis ms) \<and>
    map msg_Content ms = [Some ''x'', Some ''xx'']"
proof -
  have "storable (rl_msgs (mini_relay []) a)" for a
    using mini_publishable [of 0 "[]" a] by (simp add: publishable_def mini_env_def)
  moreover have "set [''type'', ''sender_id'', ''content'', ''timestamp'', ''metadata''] = field_names"
    by (auto simp: field_names_def)
  moreover have "in_int64 (time_to_milli 0)" by (simp add: time_to_milli_def)
  moreover have "take (nat 2) [1 :: nat, 2, 3] = [1, 2]" by (simp add: numeral_2_eq_2)
  ultimately show ?thesis
    using fallback_fills_the_stream [OF mini_redis_laws, of "mini_relay []" "''r''"
        "\<lambda>_. [''type'', ''sender_id'', ''content'', ''timestamp'', ''metadata'']" "\<lambda>_. 0" "[1, 2, 3]" 2]
    by (simp add: mini_relay_facts max_int64_def numeral_2_eq_2)
qed

section \<open>The invariant of the relay\<close>

text \<open>
  Every room in the table is filed under its own ID, runs, and its tables agree; a run of the
  relay's operations keeps this.  \<open>exec\<close> is arbitrary: no promise of the server is needed.
\<close>

datatype relay_op =
    OpCreate gotime room_config
  | OpDelete "string list" string
  | OpSubscribe "nat \<Rightarrow> gotime" string subscriber "presence_info option"
  | OpUnsubscribe "nat \<Rightarrow> gotime" string string
  | OpPublish "string list" "nat \<Rightarrow> gotime" "subscriber \<Rightarrow> nat \<Rightarrow> receive_result" "string list" string nat
      "publish_options option"
  | OpPublishDirect "string list" "nat \<Rightarrow> gotime" "subscriber \<Rightarrow> nat \<Rightarrow> receive_result" "string list" string
      string nat "publish_options option"
  | OpRecover string subscriber "nat \<Rightarrow> receive_result" "recovery_options option"
  | OpListen "client_error \<Rightarrow> string" "nat \<Rightarrow> delivery_env" gotime nat listener
  | OpClose "string list" "nat \<Rightarrow> string list"

fun relay_step :: "'s executor \<Rightarrow> ('s \<Rightarrow> 's) \<Rightarrow> 's relay \<Rightarrow> relay_op \<Rightarrow> 's relay" where
  "relay_step exec cl r (OpCreate now config) = snd (rl_CreateRoom now config r)"
| "relay_step exec cl r (OpDelete ord i) = fst (snd (rl_DeleteRoom ord i r))"
| "relay_step exec cl r (OpSubscribe clk i sub p) = fst (snd (rl_Subscribe clk i sub p r))"
| "relay_step exec cl r (OpUnsubscribe clk i u) = fst (snd (rl_Unsubscribe clk i u r))"
| "relay_step exec cl r (OpPublish ord clk rx fin i a opts) = fst (snd (rl_Publish exec ord clk rx fin i a opts r))"
| "relay_step exec cl r (OpPublishDirect ord clk rx fin u v a opts) =
     fst (snd (rl_PublishDirect exec ord clk rx fin u v a opts r))"
| "relay_step exec cl r (OpRecover i sub rx opts) = fst (snd (rl_RecoverAndDeliver exec i sub rx opts r))"
| "relay_step exec cl r (OpListen errtxt dv now h l) = fst (snd (snd (rl_ListenRound exec errtxt dv now h l r)))"
| "relay_step exec cl r (OpClose ord ords) = fst (rl_Close cl ord ords r)"

definition live_room :: "string \<Rightarrow> room \<Rightarrow> bool" where
  "live_room i room \<longleftrightarrow>
     rc_ID (rm_config room) = i \<and> rm_running room \<and> \<not> rm_stopClosed room \<and>
     table_ok (rm_subscribers room) (rm_presence room)"

definition relay_inv :: "'s relay \<Rightarrow> bool" where
  "relay_inv r \<longleftrightarrow> (\<forall>i h. rl_rooms r i = Some h \<longrightarrow> h < rl_next r \<and> live_room i (rl_heap r h))"

text \<open>What an operation may do to the rooms without hurting the invariant.\<close>

lemma relay_inv_frame:
  assumes "relay_inv r" and "rl_rooms r' = rl_rooms r" and "rl_next r' = rl_next r"
    and "\<And>i h. live_room i (rl_heap r h) \<Longrightarrow> live_room i (rl_heap r' h)"
  shows "relay_inv r'"
  using assms by (auto simp: relay_inv_def)

lemma relay_inv_same:
  "relay_inv r \<Longrightarrow> rl_rooms r' = rl_rooms r \<Longrightarrow> rl_next r' = rl_next r \<Longrightarrow> rl_heap r' = rl_heap r \<Longrightarrow> relay_inv r'"
  by (rule relay_inv_frame) auto

lemma relay_inv_room:
  "relay_inv r \<Longrightarrow> (\<And>i. live_room i (rl_heap r h) \<Longrightarrow> live_room i room) \<Longrightarrow>
   relay_inv (r\<lparr>rl_heap := (rl_heap r)(h := room)\<rparr>)"
  by (rule relay_inv_frame) auto

lemma relay_inv_create: "relay_inv r \<Longrightarrow> relay_inv (snd (rl_CreateRoom now config r))"
  by (auto simp: relay_inv_def rl_CreateRoom_def live_room_def Room_Start_def newRoom_def table_ok_def
      Let_def less_SucI)

lemma live_room_step:
  "live_room i room \<Longrightarrow> (case ev of CloseAll _ \<Rightarrow> False | _ \<Rightarrow> True) \<Longrightarrow> live_room i (fst (room_step clk hh room ev))"
  using redis_room.ok_step [of room clk hh ev]
  by (auto simp: live_room_def room_step_def Room_Subscribe_def Room_Unsubscribe_def Let_def
      split: room_op.splits option.splits)

definition same_rooms :: "'s relay \<Rightarrow> 's relay \<Rightarrow> bool" where
  "same_rooms r r' \<longleftrightarrow> rl_rooms r' = rl_rooms r \<and> rl_next r' = rl_next r \<and> rl_heap r' = rl_heap r"

lemma same_rooms_refl [simp]: "same_rooms r r"
  by (simp add: same_rooms_def)

lemma same_rooms_redis: "on_redis f w r = (x, r') \<Longrightarrow> same_rooms r r'"
  by (auto simp: on_redis_def same_rooms_def split: prod.splits)

lemma same_rooms_inv: "relay_inv r \<Longrightarrow> same_rooms r r' \<Longrightarrow> relay_inv r'"
  by (rule relay_inv_same) (auto simp: same_rooms_def)

lemma same_rooms_trans: "same_rooms r r' \<Longrightarrow> same_rooms r' r'' \<Longrightarrow> same_rooms r r''"
  by (simp add: same_rooms_def)

lemma same_rooms_after:
  assumes "same_rooms r (snd x)" and "\<And>v s. fst x = Returns v \<Longrightarrow> snd x = s \<Longrightarrow> same_rooms s (snd (f v s))"
  shows "same_rooms r (snd (after x f))"
proof (cases x)
  case (Pair res s)
  with assms show ?thesis by (cases res) (auto intro: same_rooms_trans)
qed

lemma same_rooms_on_redis: "same_rooms r (snd (on_redis f w r))"
  using same_rooms_redis by (metis prod.collapse)

lemma same_rooms_offset: "same_rooms r (snd (offset_or_empty exec i u r))"
proof -
  have "same_rooms r (snd (GetOffset exec i u r))" by (simp add: GetOffset_def same_rooms_on_redis)
  then show ?thesis by (auto simp: offset_or_empty_def split: prod.splits outcome.splits)
qed

lemma same_rooms_recover: "same_rooms r (snd (rl_RecoverMessages exec i u opts r))"
  unfolding rl_RecoverMessages_def Let_def
  by (intro same_rooms_after) (auto intro!: same_rooms_after same_rooms_on_redis same_rooms_offset)

lemma same_rooms_deliver: "same_rooms r (fst (snd (rl_RecoverAndDeliver exec i sub rx opts r)))"
proof -
  obtain x r1 where m: "rl_RecoverMessages exec i (sub_ID sub) opts r = (x, r1)" by fastforce
  with same_rooms_recover have s: "same_rooms r r1" by (metis snd_conv)
  moreover have "same_rooms r1 (snd (SaveOffset exec i (sub_ID sub) l r1))" for l
    by (simp add: SaveOffset_def same_rooms_on_redis)
  then have "same_rooms r (snd (SaveOffset exec i (sub_ID sub) l r1))" for l
    using s same_rooms_trans by blast
  ultimately show ?thesis
    by (cases x)
      (auto simp: rl_RecoverAndDeliver_def m Let_def split: outcome.splits prod.splits,
        (metis snd_conv)+)
qed

lemma same_rooms_publish: "same_rooms r (fst (snd (rl_Publish exec ord clk rx fin i a opts r)))"
proof (cases "rl_rooms r i")
  case None
  then show ?thesis by (simp add: rl_Publish_def rl_GetRoom_def)
next
  case (Some h)
  let ?msg = "dated (clk 0) i (rl_msgs r a)" and ?o = "opts_or_default opts"
  obtain x r2 where m: "(if po_Persist ?o
      then on_redis (publishToStream exec ord (rl_prefix r) i ?msg)
             (\<lambda>e. Within ''failed to persist message'' (RedisErr e)) (r\<lparr>rl_msgs := (rl_msgs r)(a := ?msg)\<rparr>)
      else (Returns (msg_ID ?msg), r\<lparr>rl_msgs := (rl_msgs r)(a := ?msg)\<rparr>)) = (x, r2)"
    by fastforce
  then have "same_rooms r r2"
    by (auto simp: same_rooms_def dest!: same_rooms_redis split: if_splits)
  then show ?thesis
    by (cases x) (auto simp: rl_Publish_def rl_GetRoom_def Some Let_def m same_rooms_def split: prod.splits)
qed

lemma relay_inv_goc:
  "relay_inv r \<Longrightarrow> relay_inv (snd (rl_GetOrCreateRoom now config r))"
  by (simp add: rl_GetOrCreateRoom_def relay_inv_create split: option.split)

lemma relay_inv_publish_direct:
  assumes "relay_inv r"
  shows "relay_inv (fst (snd (rl_PublishDirect exec ord clk rx fin u v a opts r)))"
proof -
  let ?i = "GenerateDMRoomID u v"
  let ?config = "\<lparr>rc_ID = ?i, rc_Type = RoomTypeDirect, rc_HistorySize = 0, rc_HistoryTTL = 0, rc_Members = [u, v]\<rparr>"
  obtain x r1 where g: "rl_GetOrCreateRoom (clk 0) ?config r = (x, r1)" by fastforce
  with relay_inv_goc [OF assms] have r1: "relay_inv r1" by (metis snd_conv)
  let ?r2 = "r1\<lparr>rl_msgs := (rl_msgs r1)(a := (rl_msgs r1 a)\<lparr>msg_RoomID := ?i, msg_SenderID := u\<rparr>)\<rparr>"
  have "relay_inv ?r2" using r1 by (rule relay_inv_same) simp_all
  then have "relay_inv (fst (snd (rl_Publish exec ord (\<lambda>k. clk (Suc k)) rx fin ?i a opts ?r2)))"
    by (rule same_rooms_inv) (rule same_rooms_publish)
  with g r1 show ?thesis by (cases x) (simp_all add: rl_PublishDirect_def Let_def)
qed

lemma relay_inv_delete:
  assumes "relay_inv r"
  shows "relay_inv (fst (snd (rl_DeleteRoom ord i r)))"
proof (cases "rl_rooms r i")
  case (Some h)
  have only: "j = i" if "rl_rooms r j = Some h" for j
    using assms that Some unfolding relay_inv_def live_room_def by blast
  obtain room es where c: "Room_Close ord (rl_heap r h) = (room, es)" by fastforce
  have "live_room j (((rl_heap r)(h := room)) k) \<and> k < rl_next r"
    if "((rl_rooms r)(i := None)) j = Some k" for j k
  proof -
    from that have j: "j \<noteq> i" "rl_rooms r j = Some k" by (auto split: if_splits)
    with only have "k \<noteq> h" by blast
    with j assms show ?thesis unfolding relay_inv_def by simp
  qed
  then show ?thesis by (simp add: rl_DeleteRoom_def Some c relay_inv_def)
qed (use assms in \<open>simp add: rl_DeleteRoom_def\<close>)

lemma listen_messages_frame:
  "case listen_messages dv hh j ms l room of (l', room', es) \<Rightarrow> live_room i room' = live_room i room"
proof (induction ms arbitrary: j l room)
  case (Cons m ms)
  obtain rx fin now where d: "dv j = (rx, fin, now)" by (metis prod.collapse)
  have "live_room i (room\<lparr>rm_lastActive := now\<rparr>) = live_room i room" by (simp add: live_room_def)
  with Cons.IH [where j = "Suc j" and l = "l\<lparr>ln_lastID := msg_ID m\<rparr>" and room = "room\<lparr>rm_lastActive := now\<rparr>"]
  show ?case
    by (auto simp: d split: prod.splits)
qed simp

lemma listen_round_frame:
  "listen_round exec prefix errtxt dv now hh c l room s = (e, l', room', s', es) \<Longrightarrow>
   live_room i room \<Longrightarrow> live_room i room'"
proof -
  assume lr: "listen_round exec prefix errtxt dv now hh c l room s = (e, l', room', s', es)" and live: "live_room i room"
  obtain x s1 where r: "readFromStream exec prefix (rc_ID (rm_config room)) (ln_lastID l) 100 (5 * second) s = (x, s1)"
    by fastforce
  have n: "live_room i (room\<lparr>rm_listeners := k\<rparr>)" for k using live by (simp add: live_room_def)
  show ?thesis
  proof (cases x)
    case (Returns ms)
    obtain l2 room2 es2 where m: "listen_messages dv hh 0 ms (l\<lparr>ln_errors := 0\<rparr>) room = (l2, room2, es2)"
      by (metis prod_cases3)
    with listen_messages_frame [where dv = dv and hh = hh and j = 0 and ms = ms and l = "l\<lparr>ln_errors := 0\<rparr>"
        and room = room and i = i] live
    have "live_room i room2" by simp
    with lr n show ?thesis by (auto simp: listen_round_def r Returns m split: if_splits)
  qed (use lr n live in \<open>auto simp: listen_round_def r Let_def split: if_splits\<close>)
qed

lemma relay_inv_step: "relay_inv r \<Longrightarrow> relay_inv (relay_step exec cl r ev)"
proof (cases ev)
  case (OpSubscribe clk i sub p)
  assume inv: "relay_inv r"
  show ?thesis
  proof (cases "rl_rooms r i")
    case (Some h)
    have "live_room j (fst (Room_Subscribe clk (rl_hasHandler r) sub p (rl_heap r h)))"
      if "live_room j (rl_heap r h)" for j
      using live_room_step [OF that, of "Join sub p" clk "rl_hasHandler r"] by (simp add: room_step_def)
    with relay_inv_room [OF inv] Some show ?thesis
      by (auto simp: OpSubscribe rl_Subscribe_def rl_GetRoom_def split: prod.split)
  qed (use inv in \<open>simp add: OpSubscribe rl_Subscribe_def rl_GetRoom_def\<close>)
next
  case (OpUnsubscribe clk i u)
  assume inv: "relay_inv r"
  show ?thesis
  proof (cases "rl_rooms r i")
    case (Some h)
    have "live_room j (fst (Room_Unsubscribe clk (rl_hasHandler r) u (rl_heap r h)))"
      if "live_room j (rl_heap r h)" for j
      using live_room_step [OF that, of "Leave u" clk "rl_hasHandler r"] by (simp add: room_step_def)
    with relay_inv_room [OF inv] Some show ?thesis
      by (auto simp: OpUnsubscribe rl_Unsubscribe_def rl_GetRoom_def split: prod.split)
  qed (use inv in \<open>simp add: OpUnsubscribe rl_Unsubscribe_def rl_GetRoom_def\<close>)
next
  case (OpListen errtxt dv now h l)
  assume inv: "relay_inv r"
  obtain e l' room s es where lr: "listen_round exec (rl_prefix r) errtxt dv now (rl_hasHandler r) (\<not> rl_running r) l
      (rl_heap r h) (rl_redis r) = (e, l', room, s, es)" by (metis prod_cases5)
  have "relay_inv (r\<lparr>rl_heap := (rl_heap r)(h := room)\<rparr>)"
    using listen_round_frame [OF lr] by (rule relay_inv_room [OF inv])
  then have "relay_inv (r\<lparr>rl_heap := (rl_heap r)(h := room), rl_redis := s\<rparr>)"
    by (rule relay_inv_same) simp_all
  with lr show ?thesis by (simp add: OpListen rl_ListenRound_def)
next
  case (OpClose ord ords)
  assume "relay_inv r"
  then show ?thesis
    by (auto simp: OpClose rl_Close_def relay_inv_def split: prod.split)
qed (auto intro: relay_inv_create relay_inv_delete relay_inv_publish_direct same_rooms_inv same_rooms_publish
      same_rooms_deliver)

interpretation redis_relay: machine "relay_step exec cl" relay_inv "relay_over cfg now msgs s"
  for exec :: "'s executor" and cl cfg now msgs s
proof unfold_locales
  show "relay_inv (relay_step exec cl r ev)" if "relay_inv r" for r ev
    using that by (rule relay_inv_step)
  show "relay_inv (relay_over cfg now msgs s)"
    by (simp add: relay_inv_def relay_over_def)
qed



end
