(* ===== verification/Protocol.thy ===== *)
theory Protocol
  imports Json Types
begin

text \<open>
  The wire protocol of \<open>engine/protocol.go\<close>: commands and requests as \<open>encoding/json\<close> decodes them into
  their structs, results, replies and pushes as it encodes them.  A \<open>json.RawMessage\<close> is an optional
  text (nil or its bytes).  Decoding returns the struct beside whether there was no error: a value of
  the wrong type is an error, but the other members are stored all the same.  Encoding fails
  (\<open>None\<close>) exactly when a raw message is not well-formed JSON.
\<close>

section \<open>Decoding into structs\<close>

text \<open>\<open>strconv.ParseUint(s, 10, 64)\<close>.\<close>

definition ParseUint :: "string \<Rightarrow> nat option" where
  "ParseUint s =
     (case parse_digits s of None \<Rightarrow> None | Some n \<Rightarrow> (if 2 ^ 64 \<le> n then None else Some n))"

text \<open>
  Field names are compared exactly first, then under simple Unicode folding; beside the ASCII letters two
  other characters fold to one (U+017F to s, U+212A to k).
\<close>

definition lower :: "char \<Rightarrow> char" where
  "lower c = (if 65 \<le> byte_of c \<and> byte_of c \<le> 90 then char_of (byte_of c + 32) else c)"

fun fold_key :: "string \<Rightarrow> string" where
  "fold_key [] = []"
| "fold_key (c # s) =
     (if take 2 (c # s) = [CHR 0xC5, CHR 0xBF] then CHR ''s'' # fold_key (drop 1 s)
      else if take 3 (c # s) = [CHR 0xE2, CHR 0x84, CHR 0xAA] then CHR ''k'' # fold_key (drop 2 s)
      else lower c # fold_key s)"

text \<open>What a field does with a member: its raw text, its value, the struct so far.\<close>

type_synonym 'a field = "string \<Rightarrow> jvalue \<Rightarrow> 'a \<Rightarrow> 'a \<times> bool"

definition string_field :: "((string \<Rightarrow> string) \<Rightarrow> 'a \<Rightarrow> 'a) \<Rightarrow> 'a field" where
  "string_field upd raw v x =
     (case v of JStr s \<Rightarrow> (upd (\<lambda>_. s) x, True) | JNull \<Rightarrow> (x, True) | _ \<Rightarrow> (x, False))"

definition bool_field :: "((bool \<Rightarrow> bool) \<Rightarrow> 'a \<Rightarrow> 'a) \<Rightarrow> 'a field" where
  "bool_field upd raw v x =
     (case v of JBool b \<Rightarrow> (upd (\<lambda>_. b) x, True) | JNull \<Rightarrow> (x, True) | _ \<Rightarrow> (x, False))"

definition uint_field :: "((nat \<Rightarrow> nat) \<Rightarrow> 'a \<Rightarrow> 'a) \<Rightarrow> 'a field" where
  "uint_field upd raw v x =
     (case v of
        JNum s \<Rightarrow> (case ParseUint s of Some n \<Rightarrow> (upd (\<lambda>_. n) x, True) | None \<Rightarrow> (x, False))
      | JNull \<Rightarrow> (x, True)
      | _ \<Rightarrow> (x, False))"

definition int_field :: "((int \<Rightarrow> int) \<Rightarrow> 'a \<Rightarrow> 'a) \<Rightarrow> 'a field" where
  "int_field upd raw v x =
     (case v of
        JNum s \<Rightarrow> (case ParseInt s of Some n \<Rightarrow> (upd (\<lambda>_. n) x, True) | None \<Rightarrow> (x, False))
      | JNull \<Rightarrow> (x, True)
      | _ \<Rightarrow> (x, False))"

text \<open>A raw message takes the text of any value, of \<open>null\<close> too.\<close>

definition raw_field :: "((string option \<Rightarrow> string option) \<Rightarrow> 'a \<Rightarrow> 'a) \<Rightarrow> 'a field" where
  "raw_field upd raw v x = (upd (\<lambda>_. Some raw) x, True)"

definition find_field :: "(string \<times> 'a field) list \<Rightarrow> string \<Rightarrow> 'a field option" where
  "find_field fs k =
     (case map_of fs k of
        Some f \<Rightarrow> Some f
      | None \<Rightarrow> map_of (map (\<lambda>(name, f). (fold_key name, f)) fs) (fold_key k))"

fun decode_members :: "(string \<times> 'a field) list \<Rightarrow> (string \<times> string \<times> jvalue) list \<Rightarrow> 'a \<Rightarrow> 'a \<times> bool" where
  "decode_members fs [] x = (x, True)"
| "decode_members fs ((k, raw, v) # ms) x =
     (let (x1, ok1) = (case find_field fs k of None \<Rightarrow> (x, True) | Some f \<Rightarrow> f raw v x);
          (x2, ok2) = decode_members fs ms x1
      in (x2, ok1 \<and> ok2))"

definition unmarshal :: "(string \<times> 'a field) list \<Rightarrow> string \<Rightarrow> 'a \<Rightarrow> 'a \<times> bool" where
  "unmarshal fs s x =
     (case json_parse s of
        None \<Rightarrow> (x, False)
      | Some v \<Rightarrow>
          (case v of
             JObj ms \<Rightarrow> decode_members fs ms x
           | JNull \<Rightarrow> (x, True)
           | _ \<Rightarrow> (x, False)))"

section \<open>Commands and requests\<close>

record client_command =
  cmd_ID :: nat
  cmd_Type :: string
  cmd_Channel :: string
  cmd_Data :: "string option"

definition CmdConnect :: string where "CmdConnect = ''connect''"
definition CmdSubscribe :: string where "CmdSubscribe = ''subscribe''"
definition CmdUnsubscribe :: string where "CmdUnsubscribe = ''unsubscribe''"
definition CmdPublish :: string where "CmdPublish = ''publish''"
definition CmdPresence :: string where "CmdPresence = ''presence''"
definition CmdHistory :: string where "CmdHistory = ''history''"
definition CmdPing :: string where "CmdPing = ''ping''"

lemmas cmd_type_defs = CmdConnect_def CmdSubscribe_def CmdUnsubscribe_def CmdPublish_def CmdPresence_def
  CmdHistory_def CmdPing_def

definition zero_command :: client_command where
  "zero_command = \<lparr>cmd_ID = 0, cmd_Type = '''', cmd_Channel = '''', cmd_Data = None\<rparr>"

definition command_fields :: "(string \<times> client_command field) list" where
  "command_fields =
     [(''id'', uint_field cmd_ID_update), (''type'', string_field cmd_Type_update),
      (''channel'', string_field cmd_Channel_update), (''data'', raw_field cmd_Data_update)]"

definition ParseCommand :: "string \<Rightarrow> client_command option" where
  "ParseCommand data =
     (case unmarshal command_fields data zero_command of (cmd, ok) \<Rightarrow> (if ok then Some cmd else None))"

record connect_request =
  cq_Token :: string
  cq_Data :: "string option"
  cq_Name :: string
  cq_Version :: string

definition zero_connect :: connect_request where
  "zero_connect = \<lparr>cq_Token = '''', cq_Data = None, cq_Name = '''', cq_Version = ''''\<rparr>"

definition connect_fields :: "(string \<times> connect_request field) list" where
  "connect_fields =
     [(''token'', string_field cq_Token_update), (''data'', raw_field cq_Data_update),
      (''name'', string_field cq_Name_update), (''version'', string_field cq_Version_update)]"

record subscribe_request =
  sq_Token :: string
  sq_Recover :: bool
  sq_Offset :: string
  sq_Epoch :: string
  sq_Data :: "string option"

definition zero_subscribe :: subscribe_request where
  "zero_subscribe = \<lparr>sq_Token = '''', sq_Recover = False, sq_Offset = '''', sq_Epoch = '''', sq_Data = None\<rparr>"

definition subscribe_fields :: "(string \<times> subscribe_request field) list" where
  "subscribe_fields =
     [(''token'', string_field sq_Token_update), (''recover'', bool_field sq_Recover_update),
      (''offset'', string_field sq_Offset_update), (''epoch'', string_field sq_Epoch_update),
      (''data'', raw_field sq_Data_update)]"

record publish_request =
  pq_Data :: "string option"

definition zero_publish :: publish_request where
  "zero_publish = \<lparr>pq_Data = None\<rparr>"

definition publish_fields :: "(string \<times> publish_request field) list" where
  "publish_fields = [(''data'', raw_field pq_Data_update)]"

record history_request =
  hq_Limit :: int
  hq_Since :: string
  hq_Reverse :: bool

definition zero_history :: history_request where
  "zero_history = \<lparr>hq_Limit = 0, hq_Since = '''', hq_Reverse = False\<rparr>"

definition history_fields :: "(string \<times> history_request field) list" where
  "history_fields =
     [(''limit'', int_field hq_Limit_update), (''since'', string_field hq_Since_update),
      (''reverse'', bool_field hq_Reverse_update)]"

section \<open>Encoding\<close>

text \<open>
  A raw message is copied without the white space between its tokens, with the HTML characters and the
  two line separators inside its strings escaped; it must be well-formed.  The flag tells whether the position is
  inside a string.
\<close>

fun compact :: "bool \<Rightarrow> string \<Rightarrow> string" where
  "compact instr [] = []"
| "compact instr (c # s) =
     (if \<not> instr then
        (if json_space c then compact False s
         else if c = dquote then c # compact True s
         else c # compact False s)
      else if c = bslash then c # (case s of [] \<Rightarrow> [] | e # t \<Rightarrow> e # compact True t)
      else if c = dquote then c # compact False s
      else if c = CHR ''<'' \<or> c = CHR ''>'' \<or> c = CHR ''&'' then u_escape (byte_of c) @ compact True s
      else if take 3 (c # s) = [CHR 0xE2, CHR 0x80, CHR 0xA8] then u_escape 0x2028 @ compact True (drop 2 s)
      else if take 3 (c # s) = [CHR 0xE2, CHR 0x80, CHR 0xA9] then u_escape 0x2029 @ compact True (drop 2 s)
      else c # compact True s)"

definition marshal_raw :: "string option \<Rightarrow> string option" where
  "marshal_raw m =
     (case m of
        None \<Rightarrow> Some ''null''
      | Some s \<Rightarrow> (if json_parse s = None then None else Some (compact False s)))"

text \<open>The members that are written, in order, with what their values encode to.\<close>

definition json_object :: "(string \<times> string) list \<Rightarrow> string" where
  "json_object ms = ''{'' @ join_with '','' (map (\<lambda>(k, v). quote k @ '':'' @ v) ms) @ ''}''"

definition json_array :: "string list \<Rightarrow> string" where
  "json_array vs = ''['' @ join_with '','' vs @ '']''"

fun all_some :: "'a option list \<Rightarrow> 'a list option" where
  "all_some [] = Some []"
| "all_some (x # xs) =
     (case x of None \<Rightarrow> None | Some y \<Rightarrow> map_option (\<lambda>ys. y # ys) (all_some xs))"

definition marshal_object :: "(string \<times> string option) list \<Rightarrow> string option" where
  "marshal_object ms =
     map_option (\<lambda>vs. json_object (zip (map fst ms) vs)) (all_some (map snd ms))"

definition omitempty :: "bool \<Rightarrow> string \<Rightarrow> string option \<Rightarrow> (string \<times> string option) list" where
  "omitempty isempty name v = (if isempty then [] else [(name, v)])"

definition str_mem :: "string \<Rightarrow> string \<Rightarrow> (string \<times> string option) list" where
  "str_mem name s = omitempty (s = '''') name (Some (quote s))"

definition int_mem :: "string \<Rightarrow> int \<Rightarrow> (string \<times> string option) list" where
  "int_mem name n = omitempty (n = 0) name (Some (FormatInt n))"

definition bool_mem :: "string \<Rightarrow> bool \<Rightarrow> (string \<times> string option) list" where
  "bool_mem name b = omitempty (\<not> b) name (Some ''true'')"

definition raw_mem :: "string \<Rightarrow> string option \<Rightarrow> (string \<times> string option) list" where
  "raw_mem name m = omitempty (content_text m = '''') name (marshal_raw m)"

section \<open>Results, replies and pushes\<close>

definition ProtocolVersion :: string where "ProtocolVersion = ''1.0''"

definition ErrCodeBadRequest :: int where "ErrCodeBadRequest = 100"
definition ErrCodeUnauthorized :: int where "ErrCodeUnauthorized = 101"
definition ErrCodePermissionDenied :: int where "ErrCodePermissionDenied = 102"
definition ErrCodeNotFound :: int where "ErrCodeNotFound = 103"
definition ErrCodeInternal :: int where "ErrCodeInternal = 105"

lemmas err_code_defs = ErrCodeBadRequest_def ErrCodeUnauthorized_def ErrCodePermissionDenied_def
  ErrCodeNotFound_def ErrCodeInternal_def

record connect_result =
  cs_Client :: string
  cs_Version :: string
  cs_Expires :: int
  cs_TTL :: int
  cs_Data :: "string option"
  cs_Ping :: int
  cs_Pong :: bool

definition marshal_connect_result :: "connect_result \<Rightarrow> string option" where
  "marshal_connect_result r =
     marshal_object
       ([(''client'', Some (quote (cs_Client r))), (''version'', Some (quote (cs_Version r)))] @
        int_mem ''expires'' (cs_Expires r) @ int_mem ''ttl'' (cs_TTL r) @ raw_mem ''data'' (cs_Data r) @
        int_mem ''ping'' (cs_Ping r) @ bool_mem ''pong'' (cs_Pong r))"

record client_info =
  nf_User :: string
  nf_Client :: string
  nf_ConnInfo :: "string option"
  nf_ChanInfo :: "string option"

definition marshal_client_info :: "client_info \<Rightarrow> string option" where
  "marshal_client_info i =
     marshal_object
       ([(''user'', Some (quote (nf_User i))), (''client'', Some (quote (nf_Client i)))] @
        raw_mem ''conn_info'' (nf_ConnInfo i) @ raw_mem ''chan_info'' (nf_ChanInfo i))"

record publication =
  pb_Offset :: string
  pb_Data :: "string option"
  pb_Info :: "client_info option"
  pb_Tags :: "string \<rightharpoonup> string"

definition marshal_publication :: "publication \<Rightarrow> string option" where
  "marshal_publication p =
     marshal_object
       (str_mem ''offset'' (pb_Offset p) @ [(''data'', marshal_raw (pb_Data p))] @
        (case pb_Info p of None \<Rightarrow> [] | Some i \<Rightarrow> [(''info'', marshal_client_info i)]) @
        omitempty (pb_Tags p = Map.empty) ''tags'' (Some (marshal_map (pb_Tags p))))"

record subscribe_result =
  sr_Expires :: int
  sr_TTL :: int
  sr_Recoverable :: bool
  sr_Offset :: string
  sr_Epoch :: string
  sr_Publications :: "publication list"
  sr_Recovered :: bool
  sr_Data :: "string option"
  sr_WasRecovering :: bool

definition marshal_publications :: "publication list \<Rightarrow> string option" where
  "marshal_publications ps = map_option json_array (all_some (map marshal_publication ps))"

definition marshal_subscribe_result :: "subscribe_result \<Rightarrow> string option" where
  "marshal_subscribe_result r =
     marshal_object
       (int_mem ''expires'' (sr_Expires r) @ int_mem ''ttl'' (sr_TTL r) @
        bool_mem ''recoverable'' (sr_Recoverable r) @ str_mem ''offset'' (sr_Offset r) @
        str_mem ''epoch'' (sr_Epoch r) @
        omitempty (sr_Publications r = []) ''publications'' (marshal_publications (sr_Publications r)) @
        bool_mem ''recovered'' (sr_Recovered r) @ raw_mem ''data'' (sr_Data r) @
        bool_mem ''was_recovering'' (sr_WasRecovering r))"

text \<open>An empty struct, as \<open>UnsubscribeResult\<close> is.\<close>

definition marshal_empty :: "string option" where
  "marshal_empty = marshal_object []"

record publish_result =
  pr_Offset :: string

definition marshal_publish_result :: "publish_result \<Rightarrow> string option" where
  "marshal_publish_result r = marshal_object (str_mem ''offset'' (pr_Offset r))"

text \<open>A map is written with its keys in order.\<close>

definition marshal_presence_result :: "(string \<rightharpoonup> client_info) \<Rightarrow> string option" where
  "marshal_presence_result m =
     marshal_object
       [(''presence'',
         marshal_object (map (\<lambda>k. (k, marshal_client_info (the (m k)))) (sorted_list_of_set (dom m))))]"

record history_result =
  hr_Publications :: "publication list"
  hr_Offset :: string
  hr_Epoch :: string

definition marshal_history_result :: "history_result \<Rightarrow> string option" where
  "marshal_history_result r =
     marshal_object
       ([(''publications'', marshal_publications (hr_Publications r))] @
        str_mem ''offset'' (hr_Offset r) @ str_mem ''epoch'' (hr_Epoch r))"

record protocol_error =
  pe_Code :: int
  pe_Message :: string

definition NewError :: "int \<Rightarrow> string \<Rightarrow> protocol_error" where
  "NewError code message = \<lparr>pe_Code = code, pe_Message = message\<rparr>"

definition marshal_error :: "protocol_error \<Rightarrow> string option" where
  "marshal_error e =
     marshal_object [(''code'', Some (FormatInt (pe_Code e))), (''message'', Some (quote (pe_Message e)))]"

record reply =
  rp_ID :: nat
  rp_Error :: "protocol_error option"
  rp_Result :: "string option"

definition EncodeReply :: "reply \<Rightarrow> string option" where
  "EncodeReply r =
     marshal_object
       (int_mem ''id'' (int (rp_ID r)) @
        (case rp_Error r of None \<Rightarrow> [] | Some e \<Rightarrow> [(''error'', marshal_error e)]) @
        raw_mem ''result'' (rp_Result r))"

text \<open>\<open>SuccessReply\<close> on the encoded result; \<open>None\<close> when it does not encode.\<close>

definition SuccessReply :: "nat \<Rightarrow> string option \<Rightarrow> reply option" where
  "SuccessReply i result =
     map_option (\<lambda>data. \<lparr>rp_ID = i, rp_Error = None, rp_Result = Some data\<rparr>) result"

definition ErrorReply :: "nat \<Rightarrow> int \<Rightarrow> string \<Rightarrow> reply" where
  "ErrorReply i code message = \<lparr>rp_ID = i, rp_Error = Some (NewError code message), rp_Result = None\<rparr>"

record push =
  ps_Type :: string
  ps_Channel :: string
  ps_Data :: "string option"

definition EncodePush :: "push \<Rightarrow> string option" where
  "EncodePush p =
     marshal_object
       ([(''type'', Some (quote (ps_Type p)))] @ str_mem ''channel'' (ps_Channel p) @
        raw_mem ''data'' (ps_Data p))"

definition NewPublicationPush :: "string \<Rightarrow> publication \<Rightarrow> push option" where
  "NewPublicationPush channel pub =
     map_option (\<lambda>data. \<lparr>ps_Type = ''message'', ps_Channel = channel, ps_Data = Some data\<rparr>)
       (marshal_publication pub)"

definition NewJoinPush :: "string \<Rightarrow> client_info \<Rightarrow> push option" where
  "NewJoinPush channel info =
     map_option (\<lambda>data. \<lparr>ps_Type = ''join'', ps_Channel = channel, ps_Data = Some data\<rparr>)
       (marshal_object [(''info'', marshal_client_info info)])"

definition NewLeavePush :: "string \<Rightarrow> client_info \<Rightarrow> push option" where
  "NewLeavePush channel info =
     map_option (\<lambda>data. \<lparr>ps_Type = ''leave'', ps_Channel = channel, ps_Data = Some data\<rparr>)
       (marshal_object [(''info'', marshal_client_info info)])"

definition NewPongPush :: push where
  "NewPongPush = \<lparr>ps_Type = ''pong'', ps_Channel = '''', ps_Data = None\<rparr>"

definition NewDisconnectPush :: "int \<Rightarrow> string \<Rightarrow> bool \<Rightarrow> push option" where
  "NewDisconnectPush code reason reconnect =
     map_option (\<lambda>data. \<lparr>ps_Type = ''disconnect'', ps_Channel = '''', ps_Data = Some data\<rparr>)
       (marshal_object
          [(''code'', Some (FormatInt code)), (''reason'', Some (quote reason)),
           (''reconnect'', Some (if reconnect then ''true'' else ''false''))])"

end
