(* ===== verification/Hub.thy ===== *)
theory Hub
  imports Protocol Relay Permissions Namespaces
begin

text \<open>
  The state behind \<open>engine/handler.go\<close>: client handlers registered as subscribers of the rooms of the Redis relay.
  Handlers, permission checkers and namespace managers are shared by pointer and live in heaps.  The
  mutexes of the relay and of its rooms are part of the state, because a handler's \<open>Close\<close> calls back into
  the relay: every operation runs without interleaving, so a mutex that is held when it starts, or that it
  already holds itself, is never released, and the call blocks for ever, keeping the mutexes it holds.
\<close>

section \<open>State\<close>

text \<open>The \<open>PermissionChecker\<close> interface, and the implementation the package provides.\<close>

record checker =
  chk_Connect :: "string \<Rightarrow> string \<Rightarrow> bool \<times> go_error option"
  chk_Subscribe :: "string \<Rightarrow> string \<Rightarrow> string \<Rightarrow> permission \<times> go_error option"
  chk_Publish :: "string \<Rightarrow> string \<Rightarrow> bool \<times> go_error option"
  chk_Permissions :: "string \<Rightarrow> string \<Rightarrow> permission"

definition default_checker :: "permission_checker \<Rightarrow> checker" where
  "default_checker c =
     \<lparr>chk_Connect = CheckConnect c, chk_Subscribe = CheckSubscribe c, chk_Publish = CheckPublish c,
      chk_Permissions = GetUserPermissions c\<rparr>"

text \<open>A client handler; the ping timer is nil, stopped (\<open>Some False\<close>) or armed.\<close>

record client =
  cl_clientID :: string
  cl_userID :: string
  cl_connected :: bool
  cl_connectedAt :: gotime
  cl_lastActivity :: gotime
  cl_subscriptions :: "string \<rightharpoonup> permission"
  cl_connInfo :: "string option"
  cl_chanInfo :: "string \<rightharpoonup> string option"
  cl_perm :: nat
  cl_ns :: nat
  cl_pingInterval :: duration
  cl_pongTimeout :: duration
  cl_pingTimer :: "bool option"
  cl_closed :: bool

text \<open>
  A subscriber whose handle is not a client handler belongs to the application.  \<open>hub_held\<close> are the rooms
  whose mutex is held.
\<close>

record 's hub =
  hub_relay :: "'s relay"
  hub_clients :: "nat \<rightharpoonup> client"
  hub_perms :: "nat \<Rightarrow> checker"
  hub_nss :: "nat \<Rightarrow> namespace_manager"
  hub_next :: nat
  hub_held :: "nat set"
  hub_relayHeld :: bool

text \<open>
  What the surroundings do during one operation: the Redis executor, the readings of the clock, the
  orders in which maps are enumerated (the fields of a stream entry, the namespaces, the subscriptions
  of a handler, the users of a room), the users reached by a broadcast, what the transports and the
  application's subscribers answer.  \<open>en_uclk h u\<close> is the clock while \<open>u\<close> leaves the room \<open>h\<close>.
\<close>

record 's env =
  en_exec :: "'s executor"
  en_clk :: "nat \<Rightarrow> gotime"
  en_uclk :: "nat \<Rightarrow> string \<Rightarrow> nat \<Rightarrow> gotime"
  en_fields :: "string list"
  en_prefixes :: "string list"
  en_subs :: "nat \<Rightarrow> string list"
  en_users :: "string list"
  en_fin :: "string list"
  en_push :: "nat \<Rightarrow> nat \<Rightarrow> go_error option"
  en_reply :: "go_error option"
  en_foreign :: "subscriber \<Rightarrow> nat \<Rightarrow> receive_result"

text \<open>What can be seen from outside: calls to transports, and effects on the application.\<close>

datatype wire =
    Wrote nat string
  | TransportClosed nat
  | Did effect

definition generateClientID :: "gotime \<Rightarrow> gotime \<Rightarrow> string" where
  "generateClientID t1 t2 =
     FormatInt (wrap64 t1) @ ''-'' @ FormatInt (the (go_rem (wrap64 t2) 1000000))"

text \<open>The defaults for a nil checker and a nil manager are new objects.\<close>

definition NewClientHandler ::
    "gotime \<Rightarrow> gotime \<Rightarrow> nat option \<Rightarrow> nat option \<Rightarrow> duration \<Rightarrow> duration \<Rightarrow> 's hub \<Rightarrow> nat \<times> 's hub" where
  "NewClientHandler t1 t2 perm ns pingInterval pongTimeout st =
     (let i = hub_next st;
          p = (case perm of Some p \<Rightarrow> p | None \<Rightarrow> i + 1);
          m = (case ns of Some m \<Rightarrow> m | None \<Rightarrow> i + 2);
          c = \<lparr>cl_clientID = generateClientID t1 t2, cl_userID = '''', cl_connected = False,
               cl_connectedAt = zero_time, cl_lastActivity = zero_time, cl_subscriptions = Map.empty,
               cl_connInfo = None, cl_chanInfo = Map.empty, cl_perm = p, cl_ns = m,
               cl_pingInterval = (if pingInterval = 0 then 25 * second else pingInterval),
               cl_pongTimeout = (if pongTimeout = 0 then 10 * second else pongTimeout),
               cl_pingTimer = None, cl_closed = False\<rparr>
      in (i, st\<lparr>hub_clients := (hub_clients st)(i \<mapsto> c),
                hub_perms := (if perm = None
                  then (hub_perms st)(p := default_checker NewPermissionChecker) else hub_perms st),
                hub_nss := (if ns = None then (hub_nss st)(m := NewNamespaceManager) else hub_nss st),
                hub_next := i + 3\<rparr>))"

definition set_client :: "nat \<Rightarrow> client \<Rightarrow> 's hub \<Rightarrow> 's hub" where
  "set_client i c st = st\<lparr>hub_clients := (hub_clients st)(i \<mapsto> c)\<rparr>"

definition set_relay :: "'s relay \<Rightarrow> 's hub \<Rightarrow> 's hub" where
  "set_relay r st = st\<lparr>hub_relay := r\<rparr>"

definition hold_room :: "nat \<Rightarrow> 's hub \<Rightarrow> 's hub" where
  "hold_room h st = st\<lparr>hub_held := insert h (hub_held st)\<rparr>"

definition release_room :: "nat \<Rightarrow> 's hub \<Rightarrow> 's hub" where
  "release_room h st = st\<lparr>hub_held := hub_held st - {h}\<rparr>"

definition set_room :: "nat \<Rightarrow> room \<Rightarrow> 's hub \<Rightarrow> 's hub" where
  "set_room h room st = set_relay ((hub_relay st)\<lparr>rl_heap := (rl_heap (hub_relay st))(h := room)\<rparr>) st"

abbreviation room_at :: "'s hub \<Rightarrow> nat \<Rightarrow> room" where
  "room_at st h \<equiv> rl_heap (hub_relay st) h"

text \<open>The effects of a room's operation other than closing a subscriber, which is run as code below.\<close>

fun events_of :: "effect list \<Rightarrow> wire list" where
  "events_of [] = []"
| "events_of (SubClose _ # es) = events_of es"
| "events_of (e # es) = Did e # events_of es"

section \<open>Closing handlers\<close>

text \<open>
  \<open>Close\<close> of a subscriber, \<open>relay.Unsubscribe\<close> for each of a handler's channels, and \<open>Unsubscribe\<close> of one
  user from one room; they call each other.  The fuel \<open>n\<close> bounds the number of handlers closed, each of
  which was open: the number of open handlers is enough.
\<close>

datatype progress = Done | Stuck | OutOfFuel

definition closing :: "client \<Rightarrow> client" where
  "closing c = c\<lparr>cl_closed := True, cl_pingTimer := map_option (\<lambda>_. False) (cl_pingTimer c)\<rparr>"

function (sequential) close_sub ::
    "'s env \<Rightarrow> nat \<Rightarrow> subscriber \<Rightarrow> 's hub \<Rightarrow> progress \<times> 's hub \<times> wire list"
  and leave_all ::
    "'s env \<Rightarrow> nat \<Rightarrow> string list \<Rightarrow> nat \<Rightarrow> 's hub \<Rightarrow> progress \<times> 's hub \<times> wire list"
  and leave_room ::
    "'s env \<Rightarrow> nat \<Rightarrow> string \<Rightarrow> string \<Rightarrow> 's hub \<Rightarrow> progress \<times> 's hub \<times> wire list"
where
  "close_sub en n sub st =
     (case hub_clients st (sub_handle sub) of
        None \<Rightarrow> (Done, st, [Did (SubClose sub)])
      | Some c \<Rightarrow>
          (if cl_closed c then (Done, st, [])
           else case n of
                  0 \<Rightarrow> (OutOfFuel, st, [])
                | Suc n' \<Rightarrow>
                    (let channels = filter (\<lambda>ch. cl_subscriptions c ch \<noteq> None) (en_subs en (sub_handle sub))
                     in case leave_all en n' channels (sub_handle sub) (set_client (sub_handle sub) (closing c) st) of
                          (Done, st', es) \<Rightarrow> (Done, st', es @ [TransportClosed (sub_handle sub)])
                        | stopped \<Rightarrow> stopped)))"
| "leave_all en n [] i st = (Done, st, [])"
| "leave_all en n (ch # chs) i st =
     (case hub_clients st i of
        None \<Rightarrow> (Done, st, [])
      | Some c \<Rightarrow>
          (case leave_room en n ch (cl_userID c) st of
             (Done, st1, es1) \<Rightarrow>
               (case leave_all en n chs i st1 of (p, st2, es2) \<Rightarrow> (p, st2, es1 @ es2))
           | stopped \<Rightarrow> stopped))"
| "leave_room en n roomID userID st =
     (if hub_relayHeld st then (Stuck, st, [])
      else case rl_GetRoom (hub_relay st) roomID of
             None \<Rightarrow> (Done, st, [])
           | Some h \<Rightarrow>
               (if h \<in> hub_held st then (Stuck, st, [])
                else case rm_subscribers (room_at st h) userID of
                       None \<Rightarrow> (Done, st, [])
                     | Some sub \<Rightarrow>
                         (case close_sub en n sub (hold_room h st) of
                            (Done, st', es) \<Rightarrow>
                              (let (room, es') = Room_Unsubscribe (en_uclk en h userID)
                                     (rl_hasHandler (hub_relay st')) userID (room_at st' h)
                               in (Done, release_room h (set_room h room st'), es @ events_of es'))
                          | stopped \<Rightarrow> stopped)))"
  by pat_completeness auto
termination
  by (relation "inv_image (less_than <*lex*> less_than <*lex*> less_than)
      (case_sum (\<lambda>(_, n, _, _). (n, 0, 0))
        (case_sum (\<lambda>(_, n, chs, _, _). (n, 2, length chs)) (\<lambda>(_, n, _, _, _). (n, 1, 0 :: nat))))")
    auto

declare close_sub.simps [simp del] leave_room.simps [simp del]

text \<open>Enough fuel: the handlers that are open.\<close>

definition open_clients :: "'s hub \<Rightarrow> nat set" where
  "open_clients st = {i. \<exists>c. hub_clients st i = Some c \<and> \<not> cl_closed c}"

definition open_count :: "'s hub \<Rightarrow> nat" where
  "open_count st =
     length (filter (\<lambda>i. case hub_clients st i of None \<Rightarrow> False | Some c \<Rightarrow> \<not> cl_closed c) [0..<hub_next st])"

text \<open>\<open>Close\<close> as the application or the ping timer calls it, and \<open>Relay.Unsubscribe\<close>.\<close>

definition client_Close :: "'s env \<Rightarrow> nat \<Rightarrow> 's hub \<Rightarrow> progress \<times> 's hub \<times> wire list" where
  "client_Close en i st = close_sub en (open_count st) \<lparr>sub_handle = i, sub_ID = ''''\<rparr> st"

definition hub_Unsubscribe ::
    "'s env \<Rightarrow> string \<Rightarrow> string \<Rightarrow> 's hub \<Rightarrow> progress \<times> 's hub \<times> wire list" where
  "hub_Unsubscribe en roomID userID st = leave_room en (open_count st) roomID userID st"

section \<open>Rooms with handlers\<close>

text \<open>\<open>Room.Subscribe\<close>: the user's previous subscriber is closed under the room's mutex.\<close>

definition hub_Subscribe ::
    "'s env \<Rightarrow> (nat \<Rightarrow> gotime) \<Rightarrow> nat \<Rightarrow> subscriber \<Rightarrow> presence_info option \<Rightarrow> 's hub \<Rightarrow>
     progress \<times> 's hub \<times> wire list" where
  "hub_Subscribe en clk h sub info st =
     (if h \<in> hub_held st then (Stuck, st, [])
      else case (case rm_subscribers (room_at st h) (sub_ID sub) of
                   None \<Rightarrow> (Done, hold_room h st, [])
                 | Some old \<Rightarrow> close_sub en (open_count st) old (hold_room h st)) of
             (Done, st1, es) \<Rightarrow>
               (let (room, es') = Room_Subscribe clk (rl_hasHandler (hub_relay st1)) sub info (room_at st1 h)
                in (Done, release_room h (set_room h room st1), es @ events_of es'))
           | stopped \<Rightarrow> stopped)"

fun close_subs ::
    "'s env \<Rightarrow> nat \<Rightarrow> subscriber list \<Rightarrow> 's hub \<Rightarrow> progress \<times> 's hub \<times> wire list" where
  "close_subs en n [] st = (Done, st, [])"
| "close_subs en n (sub # subs) st =
     (case close_sub en n sub st of
        (Done, st1, es1) \<Rightarrow> (case close_subs en n subs st1 of (p, st2, es2) \<Rightarrow> (p, st2, es1 @ es2))
      | stopped \<Rightarrow> stopped)"

text \<open>\<open>Room.Close\<close>; the caller holds the mutex of the relay.\<close>

definition hub_CloseRoom ::
    "'s env \<Rightarrow> string list \<Rightarrow> nat \<Rightarrow> 's hub \<Rightarrow> progress \<times> 's hub \<times> wire list" where
  "hub_CloseRoom en ord h st =
     (if h \<in> hub_held st then (Stuck, st, [])
      else
        let st0 = hold_room h (set_room h (Room_Stop (room_at st h)) st)
        in case close_subs en (open_count st) (List.map_filter (rm_subscribers (room_at st h)) ord) st0 of
             (Done, st1, es) \<Rightarrow> (Done, release_room h (set_room h (fst (Room_Close ord (room_at st1 h))) st1), es)
           | stopped \<Rightarrow> stopped)"

definition hub_DeleteRoom ::
    "'s env \<Rightarrow> string list \<Rightarrow> string \<Rightarrow> 's hub \<Rightarrow> (relay_error, unit) outcome \<times> 's hub \<times> wire list" where
  "hub_DeleteRoom en ord roomID st =
     (if hub_relayHeld st then (Blocks, st, [])
      else case rl_rooms (hub_relay st) roomID of
             None \<Rightarrow> (Fails (not_found roomID), st, [])
           | Some h \<Rightarrow>
               (case hub_CloseRoom en ord h (st\<lparr>hub_relayHeld := True\<rparr>) of
                  (Done, st1, es) \<Rightarrow>
                    (Returns (),
                     set_relay ((hub_relay st1)\<lparr>rl_rooms := (rl_rooms (hub_relay st1))(roomID := None)\<rparr>)
                       (st1\<lparr>hub_relayHeld := False\<rparr>), es)
                | (_, st1, es) \<Rightarrow> (Blocks, st1, es)))"

text \<open>\<open>Relay.Close\<close>: the rooms in the order \<open>ord\<close> of their IDs.\<close>

fun close_hub_rooms ::
    "'s env \<Rightarrow> (nat \<Rightarrow> string list) \<Rightarrow> nat list \<Rightarrow> 's hub \<Rightarrow> progress \<times> 's hub \<times> wire list" where
  "close_hub_rooms en ords [] st = (Done, st, [])"
| "close_hub_rooms en ords (h # hs) st =
     (case hub_CloseRoom en (ords h) h st of
        (Done, st1, es1) \<Rightarrow> (case close_hub_rooms en ords hs st1 of (p, st2, es2) \<Rightarrow> (p, st2, es1 @ es2))
      | stopped \<Rightarrow> stopped)"

definition hub_Close ::
    "'s env \<Rightarrow> ('s \<Rightarrow> 's) \<Rightarrow> string list \<Rightarrow> (nat \<Rightarrow> string list) \<Rightarrow> 's hub \<Rightarrow> progress \<times> 's hub \<times> wire list" where
  "hub_Close en closeClient ord ords st =
     (if hub_relayHeld st then (Stuck, st, [])
      else if \<not> rl_running (hub_relay st) then (Done, st, [])
      else case close_hub_rooms en ords (List.map_filter (rl_rooms (hub_relay st)) ord)
             (set_relay ((hub_relay st)\<lparr>rl_running := False\<rparr>) (st\<lparr>hub_relayHeld := True\<rparr>)) of
             (Done, st1, es) \<Rightarrow>
               (Done, set_relay ((hub_relay st1)\<lparr>rl_rooms := Map.empty,
                        rl_redis := closeClient (rl_redis (hub_relay st1))\<rparr>) (st1\<lparr>hub_relayHeld := False\<rparr>), es)
           | stopped \<Rightarrow> stopped)"

section \<open>Delivery to handlers\<close>

text \<open>The text of the marshaller's error is cut to its beginning.\<close>

definition marshal_failed :: go_error where
  "marshal_failed = ForeignError ''json: error calling MarshalJSON for type json.RawMessage''"

definition publication_of :: "message \<Rightarrow> publication" where
  "publication_of msg =
     \<lparr>pb_Offset = msg_ID msg, pb_Data = msg_Content msg,
      pb_Info = (if msg_SenderID msg \<noteq> ''''
        then Some \<lparr>nf_User = msg_SenderID msg, nf_Client = '''', nf_ConnInfo = None, nf_ChanInfo = None\<rparr>
        else None),
      pb_Tags = Map.empty\<rparr>"

definition message_push :: "message \<Rightarrow> string option" where
  "message_push msg =
     (case NewPublicationPush (msg_RoomID msg) (publication_of msg) of
        None \<Rightarrow> None | Some p \<Rightarrow> EncodePush p)"

text \<open>\<open>Receive\<close> of a subscriber, the \<open>k\<close>-th time for one message: what it returns and what it does.\<close>

definition client_Receive :: "'s env \<Rightarrow> 's hub \<Rightarrow> message \<Rightarrow> subscriber \<Rightarrow> nat \<Rightarrow> receive_result" where
  "client_Receive en st msg sub k =
     (case hub_clients st (sub_handle sub) of
        None \<Rightarrow> en_foreign en sub k
      | Some c \<Rightarrow>
          (if cl_closed c then RecvErr ErrHandlerClosed
           else case message_push msg of
                  None \<Rightarrow> RecvErr marshal_failed
                | Some _ \<Rightarrow> (case en_push en (sub_handle sub) k of None \<Rightarrow> RecvOk | Some e \<Rightarrow> RecvErr e)))"

definition receive_effect :: "'s hub \<Rightarrow> message \<Rightarrow> subscriber \<Rightarrow> wire list" where
  "receive_effect st msg sub =
     (case hub_clients st (sub_handle sub) of
        None \<Rightarrow> [Did (SubReceive sub)]
      | Some c \<Rightarrow>
          (if cl_closed c then []
           else case message_push msg of None \<Rightarrow> [] | Some data \<Rightarrow> [Wrote (sub_handle sub) data]))"

fun wires_of :: "'s hub \<Rightarrow> message \<Rightarrow> effect list \<Rightarrow> wire list" where
  "wires_of st msg [] = []"
| "wires_of st msg (SubReceive sub # es) = receive_effect st msg sub @ wires_of st msg es"
| "wires_of st msg (e # es) = Did e # wires_of st msg es"

text \<open>
  \<open>Relay.Publish\<close> of the message at \<open>a\<close>.  Whether a handler can encode a message does not depend on the
  ID it gets, so what \<open>Receive\<close> returns is known before the ID.  A held room blocks after the
  message was persisted.
\<close>

definition hub_Publish ::
    "'s env \<Rightarrow> (nat \<Rightarrow> gotime) \<Rightarrow> string \<Rightarrow> nat \<Rightarrow> publish_options option \<Rightarrow> 's hub \<Rightarrow>
     (relay_error, delivery_result list) outcome \<times> 's hub \<times> wire list" where
  "hub_Publish en clk roomID a opts st =
     (if hub_relayHeld st then (Blocks, st, [])
      else
        let r = hub_relay st;
            rx = client_Receive en st (dated (clk 0) roomID (rl_msgs r a))
        in case rl_Publish (en_exec en) (en_fields en) clk rx (en_fin en) roomID a opts r of
             (Returns results, r', es) \<Rightarrow>
               (if (case rl_GetRoom r roomID of None \<Rightarrow> False | Some h \<Rightarrow> h \<in> hub_held st)
                then (Blocks, set_relay (r'\<lparr>rl_totalMessages := rl_totalMessages r\<rparr>) st, [])
                else (Returns results, set_relay r' st, wires_of st (rl_msgs r' a) es))
           | (x, r', es) \<Rightarrow> (x, set_relay r' st, []))"

end
