(* ===== verification/Handler.thy ===== *)
theory Handler
  imports Hub
begin

text \<open>
  The commands of \<open>engine/handler.go\<close>.  Each handler is a function of the surroundings, the handle of the
  client, the command and the hub; it gives what \<open>HandleMessage\<close> returns, the hub after it and the calls
  to transports.  The clock is read in the order of \<open>en_clk\<close>.  A transport's \<open>Write\<close> returns an
  error or nothing, and does not panic.
\<close>

section \<open>Sending\<close>

type_synonym 's call = "(go_error, unit) outcome \<times> 's hub \<times> wire list"

definition write_result :: "go_error option \<Rightarrow> (go_error, unit) outcome" where
  "write_result x = (case x of None \<Rightarrow> Returns () | Some e \<Rightarrow> Fails e)"

definition send_data :: "'s env \<Rightarrow> nat \<Rightarrow> string option \<Rightarrow> 's hub \<Rightarrow> 's call" where
  "send_data en i data st =
     (case data of
        None \<Rightarrow> (Fails marshal_failed, st, [])
      | Some d \<Rightarrow> (write_result (en_reply en), st, [Wrote i d]))"

definition sendReply :: "'s env \<Rightarrow> nat \<Rightarrow> reply \<Rightarrow> 's hub \<Rightarrow> 's call" where
  "sendReply en i rp st = send_data en i (EncodeReply rp) st"

definition sendPush :: "'s env \<Rightarrow> nat \<Rightarrow> push \<Rightarrow> 's hub \<Rightarrow> 's call" where
  "sendPush en i p st = send_data en i (EncodePush p) st"

definition sendResult :: "'s env \<Rightarrow> nat \<Rightarrow> nat \<Rightarrow> string option \<Rightarrow> 's hub \<Rightarrow> 's call" where
  "sendResult en i cid result st =
     (case SuccessReply cid result of
        None \<Rightarrow> (Fails marshal_failed, st, [])
      | Some rp \<Rightarrow> sendReply en i rp st)"

definition sendError :: "'s env \<Rightarrow> nat \<Rightarrow> nat \<Rightarrow> int \<Rightarrow> string \<Rightarrow> 's hub \<Rightarrow> 's call" where
  "sendError en i cid code message st = sendReply en i (ErrorReply cid code message) st"

text \<open>A call after others that wrote \<open>es\<close>.\<close>

definition wrote_before :: "wire list \<Rightarrow> 's call \<Rightarrow> 's call" where
  "wrote_before es x = (case x of (res, st, es') \<Rightarrow> (res, st, es @ es'))"

definition extractUserFromToken :: "string \<Rightarrow> string" where
  "extractUserFromToken token = (if token = '''' then ''anonymous'' else token)"

text \<open>The whole seconds of a duration below \<open>2 ^ 24\<close> seconds, where \<open>Seconds\<close> loses nothing.\<close>

definition whole_seconds :: "duration \<Rightarrow> int" where
  "whole_seconds d = sgn d * (\<bar>d\<bar> div second)"

definition startPingTimer :: "client \<Rightarrow> client" where
  "startPingTimer c = (if cl_pingInterval c \<le> 0 then c else c\<lparr>cl_pingTimer := Some True\<rparr>)"

text \<open>The callback of a ping timer.\<close>

definition ping_timeout :: "client \<Rightarrow> duration" where
  "ping_timeout c = wrap64 (cl_pingInterval c + cl_pongTimeout c)"

definition ping_fired :: "'s env \<Rightarrow> gotime \<Rightarrow> nat \<Rightarrow> 's hub \<Rightarrow> progress \<times> 's hub \<times> wire list" where
  "ping_fired en now i st =
     (case hub_clients st i of
        None \<Rightarrow> (Done, st, [])
      | Some c \<Rightarrow>
          (if ping_timeout c < time_Sub now (cl_lastActivity c) then client_Close en i st
           else (Done, set_client i (c\<lparr>cl_pingTimer := Some True\<rparr>) st, [])))"

section \<open>Join and leave notifications\<close>

text \<open>The handlers a notification is written to; the ID of a handler is its user at that moment.\<close>

definition current_ID :: "'s hub \<Rightarrow> subscriber \<Rightarrow> string" where
  "current_ID st sub =
     (case hub_clients st (sub_handle sub) of Some c \<Rightarrow> cl_userID c | None \<Rightarrow> sub_ID sub)"

definition notify ::
    "'s env \<Rightarrow> (subscriber \<Rightarrow> bool) \<Rightarrow> string \<Rightarrow> push option \<Rightarrow> 's hub \<Rightarrow> progress \<times> wire list" where
  "notify en pick channel p st =
     (if hub_relayHeld st then (Stuck, [])
      else case rl_GetRoom (hub_relay st) channel of
             None \<Rightarrow> (Done, [])
           | Some h \<Rightarrow>
               (case (case p of None \<Rightarrow> None | Some q \<Rightarrow> EncodePush q) of
                  None \<Rightarrow> (Done, [])
                | Some data \<Rightarrow>
                    (if h \<in> hub_held st then (Stuck, [])
                     else (Done,
                       map (\<lambda>sub. Wrote (sub_handle sub) data)
                         (filter (\<lambda>sub. pick sub \<and> hub_clients st (sub_handle sub) \<noteq> None)
                           (Room_GetSubscribers (en_users en) (room_at st h)))))))"

definition own_info :: "client \<Rightarrow> client_info" where
  "own_info c =
     \<lparr>nf_User = cl_userID c, nf_Client = cl_clientID c, nf_ConnInfo = None, nf_ChanInfo = None\<rparr>"

definition broadcastJoin :: "'s env \<Rightarrow> client \<Rightarrow> string \<Rightarrow> 's hub \<Rightarrow> progress \<times> wire list" where
  "broadcastJoin en c channel st =
     notify en (\<lambda>sub. current_ID st sub \<noteq> cl_userID c) channel (NewJoinPush channel (own_info c)) st"

definition broadcastLeave :: "'s env \<Rightarrow> client \<Rightarrow> string \<Rightarrow> 's hub \<Rightarrow> progress \<times> wire list" where
  "broadcastLeave en c channel st =
     notify en (\<lambda>_. True) channel (NewLeavePush channel (own_info c)) st"

section \<open>Commands\<close>

text \<open>A request whose data is missing keeps its zero value.\<close>

definition optional_request :: "(string \<times> 'a field) list \<Rightarrow> string option \<Rightarrow> 'a \<Rightarrow> 'a \<times> bool" where
  "optional_request fs data x = (case data of None \<Rightarrow> (x, True) | Some d \<Rightarrow> unmarshal fs d x)"

definition handleConnect :: "'s env \<Rightarrow> nat \<Rightarrow> client \<Rightarrow> client_command \<Rightarrow> 's hub \<Rightarrow> 's call" where
  "handleConnect en i c cmd st =
     (let (req, ok) = optional_request connect_fields (cmd_Data cmd) zero_connect
      in if \<not> ok then sendError en i (cmd_ID cmd) ErrCodeBadRequest ''invalid connect request'' st
         else
           let userID = extractUserFromToken (cq_Token req);
               (allowed, err) = chk_Connect (hub_perms st (cl_perm c)) userID (cq_Token req)
           in if err \<noteq> None \<or> \<not> allowed
              then sendError en i (cmd_ID cmd) ErrCodeUnauthorized ''connection denied'' st
              else
                let c' = startPingTimer (c\<lparr>cl_userID := userID, cl_connected := True,
                           cl_connectedAt := en_clk en 1, cl_connInfo := cq_Data req\<rparr>)
                in sendResult en i (cmd_ID cmd)
                     (marshal_connect_result
                       \<lparr>cs_Client = cl_clientID c', cs_Version = ProtocolVersion, cs_Expires = 0, cs_TTL = 0,
                        cs_Data = None, cs_Ping = whole_seconds (cl_pingInterval c'), cs_Pong = True\<rparr>)
                     (set_client i c' st))"

text \<open>The checks every channel command starts with.\<close>

definition on_channel ::
    "'s env \<Rightarrow> nat \<Rightarrow> client \<Rightarrow> client_command \<Rightarrow> 's hub \<Rightarrow> (string \<Rightarrow> 's call) \<Rightarrow> 's call" where
  "on_channel en i c cmd st k =
     (if \<not> cl_connected c then sendError en i (cmd_ID cmd) ErrCodeUnauthorized ''not connected'' st
      else if cmd_Channel cmd = '''' then sendError en i (cmd_ID cmd) ErrCodeBadRequest ''channel required'' st
      else k (cmd_Channel cmd))"

text \<open>What a recovery adds to the result of a subscription.\<close>

definition publications_of :: "message list \<Rightarrow> publication list" where
  "publications_of messages = map publication_of messages"

definition last_id :: "message list \<Rightarrow> string" where
  "last_id messages = (if messages = [] then '''' else msg_ID (last messages))"

definition recover_result :: "message list \<Rightarrow> subscribe_result \<Rightarrow> subscribe_result" where
  "recover_result messages result =
     result\<lparr>sr_Recovered := True, sr_WasRecovering := True, sr_Publications := publications_of messages,
            sr_Offset := last_id messages\<rparr>"

definition handler_recover ::
    "'s env \<Rightarrow> string \<Rightarrow> string \<Rightarrow> string \<Rightarrow> int \<Rightarrow> 's hub \<Rightarrow>
     (relay_error, message list) outcome \<times> 's hub" where
  "handler_recover en channel userID fromID limit st =
     (case rl_RecoverMessages (en_exec en) channel userID
             (Some \<lparr>ro_FromID = fromID, ro_Limit = limit, ro_Since = zero_time\<rparr>) (hub_relay st) of
        (x, r) \<Rightarrow> (x, set_relay r st))"

definition initial_result :: "namespace \<Rightarrow> subscribe_result" where
  "initial_result ns =
     \<lparr>sr_Expires = 0, sr_TTL = 0, sr_Recoverable = no_HistoryRecover (ns_Options ns), sr_Offset = '''',
      sr_Epoch = '''', sr_Publications = [], sr_Recovered = False, sr_Data = None, sr_WasRecovering = False\<rparr>"

text \<open>The rest of \<open>handleSubscribe\<close> once the handler is a subscriber of the room.\<close>

definition subscribed ::
    "'s env \<Rightarrow> nat \<Rightarrow> client_command \<Rightarrow> namespace \<Rightarrow> permission \<Rightarrow> subscribe_request \<Rightarrow> 's hub \<Rightarrow> 's call" where
  "subscribed en i cmd ns perm req st =
     (case hub_clients st i of
        None \<Rightarrow> (Panics, st, [])
      | Some c \<Rightarrow>
          (let channel = cmd_Channel cmd;
               c' = c\<lparr>cl_subscriptions := (cl_subscriptions c)(channel \<mapsto> perm),
                      cl_chanInfo := (cl_chanInfo c)(channel \<mapsto> sq_Data req)\<rparr>;
               st1 = set_client i c' st;
               finish = (\<lambda>result st2.
                 case (if no_JoinLeave (ns_Options ns) \<and> perm_Has perm PermJoinLeave
                       then broadcastJoin en c' channel st2 else (Done, [])) of
                   (Done, es) \<Rightarrow>
                     wrote_before es (sendResult en i (cmd_ID cmd) (marshal_subscribe_result result) st2)
                 | (_, es) \<Rightarrow> (Blocks, st2, es))
           in if sq_Recover req \<and> no_HistoryRecover (ns_Options ns) \<and> sq_Offset req \<noteq> '''' then
                (case handler_recover en channel (cl_userID c') (sq_Offset req) 100 st1 of
                   (Returns messages, st2) \<Rightarrow>
                     finish (if messages = [] then initial_result ns
                             else recover_result messages (initial_result ns)) st2
                 | (Fails _, st2) \<Rightarrow> finish (initial_result ns) st2
                 | (Panics, st2) \<Rightarrow> (Panics, st2, [])
                 | (Blocks, st2) \<Rightarrow> (Blocks, st2, []))
              else finish (initial_result ns) st1))"

definition room_config_of :: "string \<Rightarrow> namespace \<Rightarrow> room_config" where
  "room_config_of channel ns =
     \<lparr>rc_ID = channel, rc_Type = RoomTypeGroup, rc_HistorySize = no_HistorySize (ns_Options ns),
      rc_HistoryTTL = no_HistoryTTL (ns_Options ns), rc_Members = []\<rparr>"

definition self_sub :: "nat \<Rightarrow> client \<Rightarrow> subscriber" where
  "self_sub i c = \<lparr>sub_handle = i, sub_ID = cl_userID c\<rparr>"

definition subscribe_channel :: "'s env \<Rightarrow> nat \<Rightarrow> client \<Rightarrow> client_command \<Rightarrow> 's hub \<Rightarrow> string \<Rightarrow> 's call" where
  "subscribe_channel en i c cmd st channel =
     (let req = fst (optional_request subscribe_fields (cmd_Data cmd) zero_subscribe);
         ns = GetByChannel (en_prefixes en) (hub_nss st (cl_ns c)) channel
     in if ValidateChannel ns channel \<noteq> None
        then sendError en i (cmd_ID cmd) ErrCodeBadRequest ''invalid channel name'' st
        else case chk_Subscribe (hub_perms st (cl_perm c)) (cl_userID c) channel (sq_Token req) of
          (_, Some err) \<Rightarrow>
            sendError en i (cmd_ID cmd)
              (if err = ErrUnauthorized then ErrCodeUnauthorized else ErrCodePermissionDenied)
              (error_text err) st
        | (perm, None) \<Rightarrow>
            if hub_relayHeld st then (Blocks, st, [])
            else case rl_GetOrCreateRoom (en_clk en 1) (room_config_of channel ns) (hub_relay st) of
              (Returns h, r) \<Rightarrow>
                let st1 = set_relay r st
                in if 0 < no_MaxSubscribers (ns_Options ns) \<and> h \<in> hub_held st then (Blocks, st1, [])
                   else if 0 < no_MaxSubscribers (ns_Options ns) \<and>
                           no_MaxSubscribers (ns_Options ns) \<le> Room_SubscriberCount (room_at st1 h)
                   then sendError en i (cmd_ID cmd) ErrCodePermissionDenied ''channel is full'' st1
                   else (case hub_Subscribe en (\<lambda>k. en_clk en (3 + k)) h (self_sub i c)
                            (Some \<lparr>pi_UserID = cl_userID c, pi_ClientID = cl_clientID c,
                                   pi_ConnectedAt = en_clk en 2\<rparr>) st1 of
                           (Done, st2, es) \<Rightarrow> wrote_before es (subscribed en i cmd ns perm req st2)
                         | (_, st2, es) \<Rightarrow> (Blocks, st2, es))
            | (Panics, r) \<Rightarrow> (Panics, set_relay r st, [])
            | (Blocks, r) \<Rightarrow> (Blocks, set_relay r st, [])
            | (Fails _, r) \<Rightarrow>
                sendError en i (cmd_ID cmd) ErrCodeInternal ''failed to access channel'' (set_relay r st))"

definition handleSubscribe :: "'s env \<Rightarrow> nat \<Rightarrow> client \<Rightarrow> client_command \<Rightarrow> 's hub \<Rightarrow> 's call" where
  "handleSubscribe en i c cmd st = on_channel en i c cmd st (subscribe_channel en i c cmd st)"

definition unsubscribe_channel :: "'s env \<Rightarrow> nat \<Rightarrow> client \<Rightarrow> client_command \<Rightarrow> 's hub \<Rightarrow> string \<Rightarrow> 's call" where
  "unsubscribe_channel en i c cmd st channel =
     (case cl_subscriptions c channel of
       None \<Rightarrow> sendError en i (cmd_ID cmd) ErrCodeNotFound ''not subscribed'' st
     | Some perm \<Rightarrow>
         let c' = c\<lparr>cl_subscriptions := (cl_subscriptions c)(channel := None),
                    cl_chanInfo := (cl_chanInfo c)(channel := None)\<rparr>
         in case hub_Unsubscribe en channel (cl_userID c) (set_client i c' st) of
              (Done, st1, es) \<Rightarrow>
                let ns = GetByChannel (en_prefixes en) (hub_nss st1 (cl_ns c)) channel
                in (case (if no_JoinLeave (ns_Options ns) \<and> perm_Has perm PermJoinLeave
                          then broadcastLeave en c channel st1 else (Done, [])) of
                      (Done, es') \<Rightarrow>
                        wrote_before (es @ es') (sendResult en i (cmd_ID cmd) marshal_empty st1)
                    | (_, es') \<Rightarrow> (Blocks, st1, es @ es'))
            | (_, st1, es) \<Rightarrow> (Blocks, st1, es))"

definition handleUnsubscribe :: "'s env \<Rightarrow> nat \<Rightarrow> client \<Rightarrow> client_command \<Rightarrow> 's hub \<Rightarrow> 's call" where
  "handleUnsubscribe en i c cmd st = on_channel en i c cmd st (unsubscribe_channel en i c cmd st)"

definition publish_message :: "'s env \<Rightarrow> client \<Rightarrow> string \<Rightarrow> string option \<Rightarrow> message" where
  "publish_message en c channel data =
     \<lparr>msg_ID = '''', msg_RoomID = channel, msg_SenderID = cl_userID c, msg_Type = MessageTypeText,
      msg_Content = data, msg_Metadata = Map.empty, msg_Timestamp = en_clk en 1\<rparr>"

text \<open>The message is a new object.\<close>

definition new_message :: "message \<Rightarrow> 's hub \<Rightarrow> nat \<times> 's hub" where
  "new_message msg st =
     (hub_next st,
      (set_relay ((hub_relay st)\<lparr>rl_msgs := (rl_msgs (hub_relay st))(hub_next st := msg)\<rparr>) st)
        \<lparr>hub_next := hub_next st + 1\<rparr>)"

definition may_publish :: "client \<Rightarrow> checker \<Rightarrow> string \<Rightarrow> bool" where
  "may_publish c pc channel \<longleftrightarrow>
     perm_Has (case cl_subscriptions c channel of None \<Rightarrow> PermNone | Some perm \<Rightarrow> perm) PermPublish \<or>
     chk_Publish pc (cl_userID c) channel = (True, None)"

definition publish_channel :: "'s env \<Rightarrow> nat \<Rightarrow> client \<Rightarrow> client_command \<Rightarrow> 's hub \<Rightarrow> string \<Rightarrow> 's call" where
  "publish_channel en i c cmd st channel =
     (let (req, ok) = unmarshal publish_fields (content_text (cmd_Data cmd)) zero_publish;
         ns = GetByChannel (en_prefixes en) (hub_nss st (cl_ns c)) channel
     in if \<not> ok then sendError en i (cmd_ID cmd) ErrCodeBadRequest ''invalid publish request'' st
        else if \<not> no_Publish (ns_Options ns)
        then sendError en i (cmd_ID cmd) ErrCodePermissionDenied ''publishing not allowed'' st
        else if no_SubscribeToPublish (ns_Options ns) \<and> cl_subscriptions c channel = None
        then sendError en i (cmd_ID cmd) ErrCodePermissionDenied ''must subscribe to publish'' st
        else if \<not> may_publish c (hub_perms st (cl_perm c)) channel
        then sendError en i (cmd_ID cmd) ErrCodePermissionDenied ''publish not allowed'' st
        else
          let (a, st1) = new_message (publish_message en c channel (pq_Data req)) st
          in case hub_Publish en (\<lambda>k. en_clk en (2 + k)) channel a
                  (Some \<lparr>po_SkipSender = True, po_Priority = 0, po_TTL = 0,
                         po_Persist = 0 < no_HistorySize (ns_Options ns)\<rparr>) st1 of
               (Returns _, st2, es) \<Rightarrow>
                 wrote_before es
                   (sendResult en i (cmd_ID cmd)
                     (marshal_publish_result \<lparr>pr_Offset = msg_ID (rl_msgs (hub_relay st2) a)\<rparr>) st2)
             | (Fails _, st2, es) \<Rightarrow>
                 wrote_before es (sendError en i (cmd_ID cmd) ErrCodeInternal ''failed to publish'' st2)
             | (Panics, st2, es) \<Rightarrow> (Panics, st2, es)
             | (Blocks, st2, es) \<Rightarrow> (Blocks, st2, es))"

definition handlePublish :: "'s env \<Rightarrow> nat \<Rightarrow> client \<Rightarrow> client_command \<Rightarrow> 's hub \<Rightarrow> 's call" where
  "handlePublish en i c cmd st = on_channel en i c cmd st (publish_channel en i c cmd st)"

text \<open>The presence of a channel by client ID; entries with the same one overwrite each other.\<close>

definition presence_map :: "presence_info list \<Rightarrow> (string \<rightharpoonup> client_info)" where
  "presence_map ps =
     foldl (\<lambda>m p. m(pi_ClientID p \<mapsto>
       \<lparr>nf_User = pi_UserID p, nf_Client = pi_ClientID p, nf_ConnInfo = None, nf_ChanInfo = None\<rparr>))
       Map.empty ps"

text \<open>The checks of the two reading commands.\<close>

definition on_subscription ::
    "'s env \<Rightarrow> nat \<Rightarrow> client \<Rightarrow> client_command \<Rightarrow> permission \<Rightarrow> string \<Rightarrow> 's hub \<Rightarrow> (string \<Rightarrow> 's call) \<Rightarrow> 's call" where
  "on_subscription en i c cmd perm refusal st k =
     on_channel en i c cmd st (\<lambda>channel.
       case cl_subscriptions c channel of
         None \<Rightarrow> sendError en i (cmd_ID cmd) ErrCodePermissionDenied ''not subscribed'' st
       | Some p \<Rightarrow>
           (if \<not> perm_Has p perm then sendError en i (cmd_ID cmd) ErrCodePermissionDenied refusal st
            else k channel))"

definition handlePresence :: "'s env \<Rightarrow> nat \<Rightarrow> client \<Rightarrow> client_command \<Rightarrow> 's hub \<Rightarrow> 's call" where
  "handlePresence en i c cmd st =
     on_subscription en i c cmd PermPresence ''presence not allowed'' st (\<lambda>channel.
       if hub_relayHeld st then (Blocks, st, [])
       else case rl_GetRoom (hub_relay st) channel of
              None \<Rightarrow> sendError en i (cmd_ID cmd) ErrCodeInternal ''failed to get presence'' st
            | Some h \<Rightarrow>
                (if h \<in> hub_held st then (Blocks, st, [])
                 else sendResult en i (cmd_ID cmd)
                        (marshal_presence_result (presence_map (Room_GetPresence (en_users en) (room_at st h)))) st))"

definition page_limit :: "int \<Rightarrow> int" where
  "page_limit limit = (if limit \<le> 0 \<or> 100 < limit then 100 else limit)"

definition history_channel :: "'s env \<Rightarrow> nat \<Rightarrow> client \<Rightarrow> client_command \<Rightarrow> 's hub \<Rightarrow> string \<Rightarrow> 's call" where
  "history_channel en i c cmd st channel =
     (let req = fst (optional_request history_fields (cmd_Data cmd) zero_history)
     in case handler_recover en channel (cl_userID c) (hq_Since req) (page_limit (hq_Limit req)) st of
          (Returns messages, st1) \<Rightarrow>
            sendResult en i (cmd_ID cmd)
              (marshal_history_result
                \<lparr>hr_Publications = publications_of messages, hr_Offset = last_id messages, hr_Epoch = ''''\<rparr>) st1
        | (Fails _, st1) \<Rightarrow> sendError en i (cmd_ID cmd) ErrCodeInternal ''failed to get history'' st1
        | (Panics, st1) \<Rightarrow> (Panics, st1, [])
        | (Blocks, st1) \<Rightarrow> (Blocks, st1, []))"

definition handleHistory :: "'s env \<Rightarrow> nat \<Rightarrow> client \<Rightarrow> client_command \<Rightarrow> 's hub \<Rightarrow> 's call" where
  "handleHistory en i c cmd st =
     on_subscription en i c cmd PermHistory ''history not allowed'' st (history_channel en i c cmd st)"

definition handlePing :: "'s env \<Rightarrow> nat \<Rightarrow> client \<Rightarrow> client_command \<Rightarrow> 's hub \<Rightarrow> 's call" where
  "handlePing en i c cmd st =
     sendPush en i NewPongPush (set_client i (c\<lparr>cl_lastActivity := en_clk en 1\<rparr>) st)"

section \<open>Dispatch\<close>

definition handleCommand :: "'s env \<Rightarrow> nat \<Rightarrow> client \<Rightarrow> client_command \<Rightarrow> 's hub \<Rightarrow> 's call" where
  "handleCommand en i c cmd st =
     (if cmd_Type cmd = CmdConnect then handleConnect en i c cmd st
      else if cmd_Type cmd = CmdSubscribe then handleSubscribe en i c cmd st
      else if cmd_Type cmd = CmdUnsubscribe then handleUnsubscribe en i c cmd st
      else if cmd_Type cmd = CmdPublish then handlePublish en i c cmd st
      else if cmd_Type cmd = CmdPresence then handlePresence en i c cmd st
      else if cmd_Type cmd = CmdHistory then handleHistory en i c cmd st
      else if cmd_Type cmd = CmdPing then handlePing en i c cmd st
      else sendError en i (cmd_ID cmd) ErrCodeBadRequest ''unknown command type'' st)"

definition HandleMessage :: "'s env \<Rightarrow> nat \<Rightarrow> string \<Rightarrow> 's hub \<Rightarrow> 's call" where
  "HandleMessage en i data st =
     (case hub_clients st i of
        None \<Rightarrow> (Panics, st, [])
      | Some c0 \<Rightarrow>
          (let c = c0\<lparr>cl_lastActivity := en_clk en 0\<rparr>;
               st1 = set_client i c st
           in case ParseCommand data of
                None \<Rightarrow> sendError en i 0 ErrCodeBadRequest ''invalid command format'' st1
              | Some cmd \<Rightarrow> handleCommand en i c cmd st1))"

end
