(* ===== verification/Closing.thy ===== *)
theory Closing
  imports Hub
begin

text \<open>
  Closing handlers, rooms and the relay: what a close may change (\<open>closes_only\<close>: handlers become closed and lose their
  places in rooms, nothing else), that the fuel of the mutual recursion is never used up, that what ends releases the
  mutexes it took, and which subscribers a clean close removes.
\<close>

definition closes_only :: "'s hub \<Rightarrow> 's hub \<Rightarrow> bool" where
  "closes_only st st' \<longleftrightarrow>
     hub_perms st' = hub_perms st \<and> hub_nss st' = hub_nss st \<and> hub_next st' = hub_next st \<and>
     hub_relayHeld st' = hub_relayHeld st \<and> hub_held st \<subseteq> hub_held st' \<and>
     hub_relay st' = (hub_relay st)\<lparr>rl_heap := rl_heap (hub_relay st')\<rparr> \<and>
     (\<forall>h \<in> hub_held st. room_at st' h = room_at st h) \<and>
     (\<forall>i. hub_clients st' i = hub_clients st i \<or>
        (\<exists>c. hub_clients st i = Some c \<and> \<not> cl_closed c \<and> hub_clients st' i = Some (closing c)))"

lemma closing_simps [simp]:
  "cl_closed (closing c)" "cl_subscriptions (closing c) = cl_subscriptions c"
  "cl_userID (closing c) = cl_userID c" "cl_connected (closing c) = cl_connected c"
  by (simp_all add: closing_def)

lemma closes_only_refl [simp]: "closes_only st st"
  by (simp add: closes_only_def)

lemma closes_only_open: "closes_only st st' \<Longrightarrow> open_clients st' \<subseteq> open_clients st"
proof
  fix i
  assume st: "closes_only st st'" and "i \<in> open_clients st'"
  then obtain c where "hub_clients st' i = Some c" "\<not> cl_closed c" by (auto simp: open_clients_def)
  moreover from st have "hub_clients st' i = hub_clients st i \<or>
      (\<exists>c. hub_clients st i = Some c \<and> \<not> cl_closed c \<and> hub_clients st' i = Some (closing c))"
    by (simp add: closes_only_def)
  ultimately show "i \<in> open_clients st" by (cases "hub_clients st i") (auto simp: open_clients_def)
qed

lemma closes_only_trans: 
  assumes "closes_only st st'" and "closes_only st' st''"
  shows "closes_only st st''"
proof -
  have r: "hub_relay st'' = (hub_relay st)\<lparr>rl_heap := rl_heap (hub_relay st'')\<rparr>"
  proof -
    have "hub_relay st'' = ((hub_relay st)\<lparr>rl_heap := rl_heap (hub_relay st')\<rparr>)\<lparr>rl_heap := rl_heap (hub_relay st'')\<rparr>"
      using assms by (metis closes_only_def)
    then show ?thesis by simp
  qed
  have c: "hub_clients st'' i = hub_clients st i \<or>
        (\<exists>c. hub_clients st i = Some c \<and> \<not> cl_closed c \<and> hub_clients st'' i = Some (closing c))" for i
  proof -
    have 1: "hub_clients st' i = hub_clients st i \<or>
        (\<exists>c. hub_clients st i = Some c \<and> \<not> cl_closed c \<and> hub_clients st' i = Some (closing c))"
      and 2: "hub_clients st'' i = hub_clients st' i \<or>
        (\<exists>c. hub_clients st' i = Some c \<and> \<not> cl_closed c \<and> hub_clients st'' i = Some (closing c))"
      using assms by (auto simp: closes_only_def)
    show ?thesis
    proof (cases "hub_clients st' i = hub_clients st i")
      case True
      with 2 show ?thesis by simp
    next
      case False
      with 1 obtain c where c: "hub_clients st i = Some c" "\<not> cl_closed c" "hub_clients st' i = Some (closing c)"
        by auto
      with 2 have "hub_clients st'' i = Some (closing c)" by auto
      with c show ?thesis by blast
    qed
  qed
  with r assms show ?thesis unfolding closes_only_def by (auto dest: subsetD)
qed

lemma closes_only_closing:
  "hub_clients st i = Some c \<Longrightarrow> \<not> cl_closed c \<Longrightarrow> closes_only st (set_client i (closing c) st)"
  by (simp add: closes_only_def set_client_def)

text \<open>An operation under a room's mutex, after which the room is updated and the mutex released.\<close>

lemma closes_only_locked:
  assumes "closes_only (hold_room h st) st'" and "hub_held st' = hub_held (hold_room h st)" and "h \<notin> hub_held st"
  shows "closes_only st (release_room h (set_room h room st'))"
    and "hub_held (release_room h (set_room h room st')) = hub_held st"
proof -
  have "hub_relay st' = (hub_relay st)\<lparr>rl_heap := rl_heap (hub_relay st')\<rparr>"
    using assms(1) by (simp add: closes_only_def hold_room_def)
  then have "(hub_relay st')\<lparr>rl_heap := f\<rparr> = (hub_relay st)\<lparr>rl_heap := f\<rparr>" for f
    by (metis relay.surjective relay.update_convs(2))
  with assms show "closes_only st (release_room h (set_room h room st'))"
    by (auto simp: closes_only_def hold_room_def release_room_def set_room_def set_relay_def)
  show "hub_held (release_room h (set_room h room st')) = hub_held st"
    using assms by (auto simp: hold_room_def release_room_def set_room_def set_relay_def)
qed

lemma closes_only_held: "closes_only (hold_room h st) st' \<Longrightarrow> closes_only st st'"
  by (auto simp: closes_only_def hold_room_def)

definition fuelled :: "nat \<Rightarrow> 's hub \<Rightarrow> bool" where
  "fuelled n st \<longleftrightarrow> finite (open_clients st) \<and> card (open_clients st) \<le> n"

lemma fuelled_mono: "fuelled n st \<Longrightarrow> closes_only st st' \<Longrightarrow> fuelled n st'"
  unfolding fuelled_def using closes_only_open card_mono finite_subset by (metis le_trans)

lemma open_hold [simp]: "open_clients (hold_room h st) = open_clients st"
  by (simp add: open_clients_def hold_room_def)

lemma fuelled_hold [simp]: "fuelled n (hold_room h st) = fuelled n st"
  by (simp add: fuelled_def)

lemma fuelled_closing:
  assumes "fuelled n st" "hub_clients st i = Some c" "\<not> cl_closed c"
  shows "n \<noteq> 0" and "n = Suc m \<Longrightarrow> fuelled m (set_client i (closing c) st)"
proof -
  have i: "i \<in> open_clients st" using assms by (simp add: open_clients_def)
  with assms(1) have "0 < card (open_clients st)" by (auto simp: fuelled_def card_gt_0_iff)
  with assms(1) show "n \<noteq> 0" by (auto simp: fuelled_def)
  have "open_clients (set_client i (closing c) st) = open_clients st - {i}"
    by (auto simp: open_clients_def set_client_def)
  moreover have "card (open_clients st - {i}) = card (open_clients st) - 1" by (rule card_Diff_singleton [OF i])
  ultimately show "n = Suc m \<Longrightarrow> fuelled m (set_client i (closing c) st)"
    using assms(1) unfolding fuelled_def by (metis Suc_eq_plus1 finite_Diff le_diff_conv)
qed

definition well_closed :: "nat \<Rightarrow> 's hub \<Rightarrow> progress \<times> 's hub \<times> wire list \<Rightarrow> bool" where
  "well_closed n st x \<longleftrightarrow>
     (case x of (p, st', es) \<Rightarrow>
        closes_only st st' \<and> (p = Done \<longrightarrow> hub_held st' = hub_held st) \<and> (fuelled n st \<longrightarrow> p \<noteq> OutOfFuel))"

lemma close_well:
  "well_closed n st (close_sub en n sub st)"
  "well_closed n st (leave_all en n chs i st)"
  "well_closed n st (leave_room en n roomID userID st)"
proof (induction en n sub st and en n chs i st and en n roomID userID st
    rule: close_sub_leave_all_leave_room.induct)
  case (1 en n sub st)
  show ?case
  proof (cases "hub_clients st (sub_handle sub)")
    case None
    then show ?thesis by (simp add: close_sub.simps well_closed_def)
  next
    case (Some c)
    show ?thesis
    proof (cases "cl_closed c")
      case True
      with Some show ?thesis by (simp add: close_sub.simps well_closed_def)
    next
      case False
      show ?thesis
      proof (cases n)
        case 0
        with Some False fuelled_closing(1) [of n st] show ?thesis
          by (auto simp: close_sub.simps well_closed_def)
      next
        case (Suc m)
        let ?st = "set_client (sub_handle sub) (closing c) st"
        define chs where "chs = filter (\<lambda>ch. cl_subscriptions c ch \<noteq> None) (en_subs en (sub_handle sub))"
        obtain p st' es where l: "leave_all en m chs (sub_handle sub) ?st = (p, st', es)"
          by (metis prod_cases3)
        with 1 [OF Some False Suc chs_def] have w: "well_closed m ?st (p, st', es)" by simp
        have "closes_only st ?st" using Some False by (rule closes_only_closing)
        moreover have "fuelled n st \<longrightarrow> fuelled m ?st"
          using Some False Suc fuelled_closing(2) by blast
        moreover have "hub_held ?st = hub_held st" by (simp add: set_client_def)
        moreover have "closes_only ?st st'" using w by (simp add: well_closed_def)
        ultimately have "well_closed n st (p, st', es')" for es'
          using w closes_only_trans [of st ?st st'] by (simp add: well_closed_def)
        moreover have "close_sub en n sub st = (p, st', if p = Done then es @ [TransportClosed (sub_handle sub)] else es)"
          using l by (cases p) (simp_all add: close_sub.simps Some False Suc chs_def)
        ultimately show ?thesis by simp
      qed
    qed
  qed
next
  case (2 en n i st)
  then show ?case by (simp add: well_closed_def)
next
  case (3 en n ch chs i st)
  show ?case
  proof (cases "hub_clients st i")
    case None
    then show ?thesis by (simp add: well_closed_def)
  next
    case (Some c)
    obtain p1 st1 es1 where r: "leave_room en n ch (cl_userID c) st = (p1, st1, es1)" by (metis prod_cases3)
    obtain p2 st2 es2 where a: "leave_all en n chs i st1 = (p2, st2, es2)" by (metis prod_cases3)
    from 3(1) [OF Some] r have w1: "well_closed n st (p1, st1, es1)" by simp
    show ?thesis
    proof (cases p1)
      case Done
      with 3(2) [OF Some r [symmetric, simplified Done]] a have "well_closed n st1 (p2, st2, es2)"
        by (simp add: Done r)
      moreover have "closes_only st st1" using w1 by (simp add: well_closed_def)
      ultimately show ?thesis
        using w1 Done closes_only_trans [of st st1 st2] fuelled_mono [of n st st1] by (simp add: Some r a well_closed_def)
    qed (use w1 in \<open>simp_all add: Some r well_closed_def\<close>)
  qed
next
  case (4 en n roomID userID st)
  show ?case
  proof (cases "hub_relayHeld st")
    case True
    then show ?thesis by (simp add: leave_room.simps well_closed_def)
  next
    case False
    show ?thesis
    proof (cases "rl_GetRoom (hub_relay st) roomID")
      case None
      with False show ?thesis by (simp add: leave_room.simps well_closed_def)
    next
      case (Some h)
      show ?thesis
      proof (cases "h \<in> hub_held st \<or> rm_subscribers (room_at st h) userID = None")
        case True
        with False Some show ?thesis by (auto simp: leave_room.simps well_closed_def)
      next
        case free: False
        then obtain sub where sub: "rm_subscribers (room_at st h) userID = Some sub" by auto
        obtain p st' es where l: "close_sub en n sub (hold_room h st) = (p, st', es)" by (metis prod_cases3)
        have w: "well_closed n (hold_room h st) (p, st', es)"
          using 4 [OF False Some _ sub] free l by simp
        show ?thesis
        proof (cases p)
          case Done
          with w have "closes_only (hold_room h st) st'" "hub_held st' = hub_held (hold_room h st)"
            by (simp_all add: well_closed_def)
          with closes_only_locked [OF this] free have "closes_only st (release_room h (set_room h room st'))"
              "hub_held (release_room h (set_room h room st')) = hub_held st" for room
            by auto
          with Done free False Some sub show ?thesis
            by (auto simp: leave_room.simps l well_closed_def split: prod.split)
        qed (use w free False Some sub closes_only_held in \<open>auto simp: leave_room.simps l well_closed_def\<close>)
      qed
    qed
  qed
qed

lemma close_frame:
  assumes "close_sub en n sub st = (p, st', es)"
  shows "closes_only st st'" and "p = Done \<Longrightarrow> hub_held st' = hub_held st" and "fuelled n st \<Longrightarrow> p \<noteq> OutOfFuel"
  using close_well(1) [of n st en sub] assms by (simp_all add: well_closed_def)

lemma leave_all_frame:
  assumes "leave_all en n chs i st = (p, st', es)"
  shows "closes_only st st'" and "p = Done \<Longrightarrow> hub_held st' = hub_held st" and "fuelled n st \<Longrightarrow> p \<noteq> OutOfFuel"
  using close_well(2) [of n st en chs i] assms by (simp_all add: well_closed_def)

lemma leave_frame:
  assumes "leave_room en n ch u st = (p, st', es)"
  shows "closes_only st st'" and "p = Done \<Longrightarrow> hub_held st' = hub_held st" and "fuelled n st \<Longrightarrow> p \<noteq> OutOfFuel"
  using close_well(3) [of n st en ch u] assms by (simp_all add: well_closed_def)

text \<open>Handles are given out in order, so the open handlers can be counted.\<close>

definition clients_below :: "'s hub \<Rightarrow> bool" where
  "clients_below st \<longleftrightarrow> dom (hub_clients st) \<subseteq> {..<hub_next st}"

lemma open_count_enough: "clients_below st \<Longrightarrow> fuelled (open_count st) st"
proof -
  assume "clients_below st"
  then have sub: "open_clients st \<subseteq> {..<hub_next st}"
    by (auto simp: clients_below_def open_clients_def)
  then have "open_clients st = set (filter (\<lambda>i. case hub_clients st i of None \<Rightarrow> False | Some c \<Rightarrow> \<not> cl_closed c) [0..<hub_next st])"
    by (auto simp: open_clients_def atLeast0LessThan split: option.splits)
  then have "card (open_clients st) = open_count st"
    unfolding open_count_def by (metis distinct_card distinct_filter distinct_upt)
  with sub show ?thesis by (auto simp: fuelled_def dest: finite_subset)
qed

lemma closes_only_next: "closes_only st st' \<Longrightarrow> hub_next st' = hub_next st"
  unfolding closes_only_def by blast

lemma closes_only_clients: "closes_only st st' \<Longrightarrow> dom (hub_clients st') = dom (hub_clients st)"
proof -
  assume "closes_only st st'"
  then have "hub_clients st' i = hub_clients st i \<or> (\<exists>c. hub_clients st i = Some c \<and> hub_clients st' i = Some (closing c))" for i
    by (auto simp: closes_only_def)
  then show ?thesis by (auto simp: dom_def) (metis option.distinct(1))+
qed

lemma clients_below_mono: "clients_below st \<Longrightarrow> closes_only st st' \<Longrightarrow> clients_below st'"
  using closes_only_clients [of st st'] closes_only_next [of st st'] by (simp add: clients_below_def)

lemma closes_only_client:
  "closes_only st st' \<Longrightarrow> hub_clients st i = Some c \<Longrightarrow>
   \<exists>c'. hub_clients st' i = Some c' \<and> (c' = c \<or> c' = closing c)"
proof -
  assume "closes_only st st'" and c: "hub_clients st i = Some c"
  then have "hub_clients st' i = hub_clients st i \<or>
      (\<exists>c. hub_clients st i = Some c \<and> \<not> cl_closed c \<and> hub_clients st' i = Some (closing c))"
    unfolding closes_only_def by blast
  with c show ?thesis by auto
qed

lemma closes_only_rooms: "closes_only st st' \<Longrightarrow> rl_GetRoom (hub_relay st') = rl_GetRoom (hub_relay st)"
proof -
  assume "closes_only st st'"
  then obtain f where "hub_relay st' = (hub_relay st)\<lparr>rl_heap := f\<rparr>"
    unfolding closes_only_def by blast
  then show ?thesis by (simp add: rl_GetRoom_def fun_eq_iff)
qed

section \<open>Deadlocks\<close>

text \<open>Leaving a room whose mutex is held, or any room while the relay's is held, never ends.\<close>

definition blocked :: "'s hub \<Rightarrow> string \<Rightarrow> bool" where
  "blocked st ch \<longleftrightarrow> hub_relayHeld st \<or> (\<exists>h. rl_GetRoom (hub_relay st) ch = Some h \<and> h \<in> hub_held st)"

lemma blocked_mono: "blocked st ch \<Longrightarrow> closes_only st st' \<Longrightarrow> blocked st' ch"
  using closes_only_rooms [of st st'] by (auto simp: blocked_def closes_only_def)

lemma leave_blocked: "blocked st ch \<Longrightarrow> leave_room en n ch u st = (Stuck, st, [])"
  by (auto simp: leave_room.simps blocked_def)

lemma leave_all_blocked:
  "ch \<in> set chs \<Longrightarrow> blocked st ch \<Longrightarrow> hub_clients st i \<noteq> None \<Longrightarrow> fst (leave_all en n chs i st) \<noteq> Done"
proof (induction chs arbitrary: st)
  case (Cons ch' chs)
  then obtain c where c: "hub_clients st i = Some c" by auto
  obtain p st1 es where r: "leave_room en n ch' (cl_userID c) st = (p, st1, es)" by (metis prod_cases3)
  show ?case
  proof (cases p)
    case Done
    with Cons.prems r leave_blocked have ch: "ch \<in> set chs" by fastforce
    have "fst (leave_all en n chs i st1) \<noteq> Done"
      using Cons.IH [OF ch] blocked_mono [OF Cons.prems(2)] closes_only_client [OF _ c] leave_frame(1) [OF r] by fastforce
    with Done show ?thesis by (auto simp: c r split: prod.split)
  qed (simp_all add: c r)
qed simp

text \<open>Closing an open handler with a subscription in a blocked room never ends.\<close>

lemma close_blocked:
  assumes c: "hub_clients st (sub_handle sub) = Some c" "\<not> cl_closed c"
    and ch: "cl_subscriptions c ch \<noteq> None" "ch \<in> set (en_subs en (sub_handle sub))"
    and b: "blocked st ch" and n: "fuelled n st"
  shows "\<exists>st' es. close_sub en n sub st = (Stuck, st', es) \<and> closes_only st st'"
proof -
  obtain m where m: "n = Suc m" using fuelled_closing(1) [OF n c] by (cases n) auto
  let ?st = "set_client (sub_handle sub) (closing c) st"
  let ?chs = "filter (\<lambda>ch. cl_subscriptions c ch \<noteq> None) (en_subs en (sub_handle sub))"
  obtain p st' es where l: "leave_all en m ?chs (sub_handle sub) ?st = (p, st', es)" by (metis prod_cases3)
  have "blocked ?st ch" using b closes_only_closing [OF c] by (rule blocked_mono)
  moreover have "hub_clients ?st (sub_handle sub) \<noteq> None" by (simp add: set_client_def)
  ultimately have "p \<noteq> Done" using leave_all_blocked [of ch ?chs ?st "sub_handle sub" en m] ch l by simp
  moreover have "p \<noteq> OutOfFuel" using leave_all_frame(3) [OF l] fuelled_closing(2) [OF n c m] by simp
  ultimately have "p = Stuck" by (cases p) simp_all
  moreover have "closes_only st st'"
    using closes_only_closing [OF c] leave_all_frame(1) [OF l] by (rule closes_only_trans)
  ultimately show ?thesis using l by (simp add: close_sub.simps c m del: not_None_eq)
qed

section \<open>Room operations with handlers\<close>

lemma hub_Subscribe_frame:
  assumes "hub_Subscribe en clk h sub info st = (p, st', es)" and "clients_below st"
  shows "closes_only st st'" and "p = Done \<Longrightarrow> hub_held st' = hub_held st" and "p \<noteq> OutOfFuel"
proof -
  have f: "fuelled (open_count st) (hold_room h st)" using assms(2) by (simp add: open_count_enough)
  have "closes_only st st' \<and> (p = Done \<longrightarrow> hub_held st' = hub_held st) \<and> p \<noteq> OutOfFuel"
  proof (cases "h \<in> hub_held st")
    case True
    with assms(1) show ?thesis by (auto simp: hub_Subscribe_def)
  next
    case False
    obtain p1 st1 es1 where m: "(case rm_subscribers (room_at st h) (sub_ID sub) of
          None \<Rightarrow> (Done, hold_room h st, [])
        | Some old \<Rightarrow> close_sub en (open_count st) old (hold_room h st)) = (p1, st1, es1)"
      by (metis prod_cases3)
    have c: "closes_only (hold_room h st) st1" and d: "p1 = Done \<Longrightarrow> hub_held st1 = hub_held (hold_room h st)"
      and o: "p1 \<noteq> OutOfFuel"
      using m close_frame [of en "open_count st"] f by (auto split: option.splits)
    show ?thesis
    proof (cases p1)
      case Done
      from closes_only_locked [OF c d [OF Done] False] Done assms(1) False show ?thesis
        by (auto simp: hub_Subscribe_def m split: prod.splits)
    qed (use assms(1) False m c o closes_only_held in \<open>auto simp: hub_Subscribe_def\<close>)
  qed
  then show "closes_only st st'" "p = Done \<Longrightarrow> hub_held st' = hub_held st" "p \<noteq> OutOfFuel" by auto
qed

lemma hub_Unsubscribe_frame:
  assumes "hub_Unsubscribe en ch u st = (p, st', es)" and "clients_below st"
  shows "closes_only st st'" and "p = Done \<Longrightarrow> hub_held st' = hub_held st" and "p \<noteq> OutOfFuel"
  using leave_frame [OF assms(1) [unfolded hub_Unsubscribe_def]] open_count_enough [OF assms(2)] by auto

lemma close_subs_frame:
  assumes "close_subs en n subs st = (p, st', es)" and "fuelled n st"
  shows "closes_only st st' \<and> (p = Done \<longrightarrow> hub_held st' = hub_held st) \<and> p \<noteq> OutOfFuel"
  using assms
proof (induction subs arbitrary: st p st' es)
  case (Cons sub subs)
  obtain p1 st1 es1 where c: "close_sub en n sub st = (p1, st1, es1)" by (metis prod_cases3)
  obtain p2 st2 es2 where r: "close_subs en n subs st1 = (p2, st2, es2)" by (metis prod_cases3)
  note f = close_frame [OF c]
  show ?case
  proof (cases p1)
    case Done
    from Cons.IH [OF r fuelled_mono [OF Cons.prems(2) f(1)]] f Done Cons.prems(1) show ?thesis
      by (auto simp: c r intro: closes_only_trans)
  qed (use Cons.prems f c in auto)
qed simp

text \<open>Subscribing when the user's previous handler is subscribed to this very channel never ends.\<close>

lemma hub_Subscribe_deadlock:
  assumes room: "rl_GetRoom (hub_relay st) ch = Some h" "h \<notin> hub_held st"
    and old: "rm_subscribers (room_at st h) (sub_ID sub) = Some old"
    and c: "hub_clients st (sub_handle old) = Some c" "\<not> cl_closed c"
    and ch: "cl_subscriptions c ch \<noteq> None" "ch \<in> set (en_subs en (sub_handle old))"
    and below: "clients_below st"
  shows "\<exists>st' es. hub_Subscribe en clk h sub info st = (Stuck, st', es) \<and> closes_only st st' \<and> h \<in> hub_held st'"
proof -
  have "hub_clients (hold_room h st) (sub_handle old) = Some c" using c by (simp add: hold_room_def)
  moreover have "blocked (hold_room h st) ch" using room by (auto simp: blocked_def hold_room_def)
  ultimately obtain st' es where s: "close_sub en (open_count st) old (hold_room h st) = (Stuck, st', es)"
      "closes_only (hold_room h st) st'"
    using close_blocked [of "hold_room h st" old c ch en "open_count st"] c(2) ch open_count_enough [OF below]
    by auto
  moreover from s(2) have "h \<in> hub_held st'" unfolding closes_only_def by (auto simp: hold_room_def)
  ultimately show ?thesis
    using room(2) old closes_only_held by (auto simp: hub_Subscribe_def)
qed

section \<open>A clean close\<close>

text \<open>The rooms of some channels have, under one user, the handler \<open>i\<close> or nobody.\<close>

definition owns :: "'s hub \<Rightarrow> nat \<Rightarrow> string \<Rightarrow> string set \<Rightarrow> bool" where
  "owns st i u chs \<longleftrightarrow> \<not> hub_relayHeld st \<and>
     (\<forall>ch \<in> chs. \<forall>h. rl_GetRoom (hub_relay st) ch = Some h \<longrightarrow> h \<notin> hub_held st \<and>
        (\<forall>sub. rm_subscribers (room_at st h) u = Some sub \<longrightarrow> sub_handle sub = i))"

lemma leave_own:
  assumes "owns st i u chs" and "ch \<in> chs" and c: "hub_clients st i = Some c" "cl_closed c"
  shows "\<exists>st' es. leave_room en n ch u st = (Done, st', map Did es) \<and> hub_clients st' = hub_clients st \<and>
    hub_held st' = hub_held st \<and> owns st' i u chs \<and> rl_GetRoom (hub_relay st') = rl_GetRoom (hub_relay st) \<and>
    (\<forall>h v. rm_subscribers (room_at st' h) v =
       (if v = u \<and> rl_GetRoom (hub_relay st) ch = Some h then None else rm_subscribers (room_at st h) v))"
proof (cases "rl_GetRoom (hub_relay st) ch")
  case None
  with assms(1) have "leave_room en n ch u st = (Done, st, map Did [])" by (simp add: leave_room.simps owns_def)
  with assms(1) None show ?thesis by fastforce
next
  case (Some h)
  with assms have h: "h \<notin> hub_held st" "\<not> hub_relayHeld st" by (auto simp: owns_def)
  show ?thesis
  proof (cases "rm_subscribers (room_at st h) u")
    case None
    with Some h have "leave_room en n ch u st = (Done, st, map Did [])" by (simp add: leave_room.simps)
    with assms(1) None Some show ?thesis by fastforce
  next
    case sub: (Some sub)
    with assms Some have i: "sub_handle sub = i" by (auto simp: owns_def)
    have "close_sub en n sub (hold_room h st) = (Done, hold_room h st, [])"
      using c by (simp add: close_sub.simps i hold_room_def)
    moreover obtain room es where u: "Room_Unsubscribe (en_uclk en h u) (rl_hasHandler (hub_relay st)) u (room_at st h) = (room, es)"
      by fastforce
    moreover from u sub have "rm_subscribers room = (rm_subscribers (room_at st h))(u := None)"
        "\<exists>evs. events_of es = map Did evs"
      by (auto simp: Room_Unsubscribe_def emit_def split: if_splits intro: exI [of _ "[]"] exI [of _ "[Emit _]"])
    ultimately show ?thesis
      using assms(1) h Some sub
      by (auto simp: leave_room.simps hold_room_def release_room_def set_room_def set_relay_def owns_def rl_GetRoom_def)
  qed
qed

text \<open>A handler that is the subscriber of all its rooms leaves them all.\<close>

lemma leave_all_own:
  assumes "owns st i (cl_userID c) chs" and "set ls \<subseteq> chs" and "hub_clients st i = Some c" and "cl_closed c"
  shows "\<exists>st' es. leave_all en n ls i st = (Done, st', map Did es) \<and> hub_clients st' = hub_clients st \<and>
    hub_held st' = hub_held st \<and> rl_GetRoom (hub_relay st') = rl_GetRoom (hub_relay st) \<and>
    (\<forall>h v. rm_subscribers (room_at st' h) v =
       (if v = cl_userID c \<and> (\<exists>ch \<in> set ls. rl_GetRoom (hub_relay st) ch = Some h) then None
        else rm_subscribers (room_at st h) v))"
  using assms
proof (induction ls arbitrary: st)
  case Nil
  show ?case by (rule exI [of _ st], rule exI [of _ "[]"]) simp
next
  case (Cons ch ls)
  from leave_own [OF Cons.prems(1) _ Cons.prems(3,4), of ch en n] Cons.prems(2)
  obtain st1 es1 where 1: "leave_room en n ch (cl_userID c) st = (Done, st1, map Did es1)"
      "hub_clients st1 = hub_clients st" "hub_held st1 = hub_held st" "owns st1 i (cl_userID c) chs"
      "rl_GetRoom (hub_relay st1) = rl_GetRoom (hub_relay st)"
      "\<And>h v. rm_subscribers (room_at st1 h) v =
       (if v = cl_userID c \<and> rl_GetRoom (hub_relay st) ch = Some h then None else rm_subscribers (room_at st h) v)"
    by auto
  from Cons.IH [OF 1(4)] Cons.prems 1(2)
  obtain st2 es2 where 2: "leave_all en n ls i st1 = (Done, st2, map Did es2)" "hub_clients st2 = hub_clients st1"
      "hub_held st2 = hub_held st1" "rl_GetRoom (hub_relay st2) = rl_GetRoom (hub_relay st1)"
      "\<And>h v. rm_subscribers (room_at st2 h) v =
       (if v = cl_userID c \<and> (\<exists>ch \<in> set ls. rl_GetRoom (hub_relay st1) ch = Some h) then None
        else rm_subscribers (room_at st1 h) v)"
    by auto
  have "leave_all en n (ch # ls) i st = (Done, st2, map Did (es1 @ es2))"
    using Cons.prems(3) 1(1) 2(1) by simp
  then show ?case using 1 2 by (intro exI [of _ st2] exI [of _ "es1 @ es2"]) auto
qed

lemma set_client_simps:
  "hub_clients (set_client i c st) = (hub_clients st)(i \<mapsto> c)" "hub_relay (set_client i c st) = hub_relay st"
  "hub_held (set_client i c st) = hub_held st" "hub_relayHeld (set_client i c st) = hub_relayHeld st"
  "hub_next (set_client i c st) = hub_next st" "hub_perms (set_client i c st) = hub_perms st"
  "hub_nss (set_client i c st) = hub_nss st"
  by (simp_all add: set_client_def)

lemma close_own:
  assumes c: "hub_clients st (sub_handle sub) = Some c" "\<not> cl_closed c" and n: "fuelled n st"
    and own: "owns st (sub_handle sub) (cl_userID c) (dom (cl_subscriptions c))"
    and ord: "dom (cl_subscriptions c) \<subseteq> set (en_subs en (sub_handle sub))"
  shows "\<exists>st' es. close_sub en n sub st = (Done, st', map Did es @ [TransportClosed (sub_handle sub)]) \<and>
    hub_clients st' = (hub_clients st)(sub_handle sub \<mapsto> closing c) \<and> hub_held st' = hub_held st \<and>
    (\<forall>h v. rm_subscribers (room_at st' h) v =
       (if v = cl_userID c \<and> (\<exists>ch \<in> dom (cl_subscriptions c). rl_GetRoom (hub_relay st) ch = Some h) then None
        else rm_subscribers (room_at st h) v))"
proof -
  define i where "i = sub_handle sub"
  define st1 where "st1 = set_client i (closing c) st"
  define ls where "ls = filter (\<lambda>ch. cl_subscriptions c ch \<noteq> None) (en_subs en i)"
  have ls: "set ls = dom (cl_subscriptions c)" using ord by (auto simp: ls_def i_def)
  obtain m where m: "n = Suc m"
    using fuelled_closing(1) [OF n c] by (cases n) auto
  have st1: "hub_clients st1 = (hub_clients st)(i \<mapsto> closing c)" "hub_relay st1 = hub_relay st"
      "hub_held st1 = hub_held st" "hub_relayHeld st1 = hub_relayHeld st"
    by (simp_all add: st1_def set_client_simps)
  have own1: "owns st1 i (cl_userID (closing c)) (dom (cl_subscriptions c))"
    using own unfolding owns_def st1 i_def closing_simps by blast
  have sub: "set ls \<subseteq> dom (cl_subscriptions c)" unfolding ls by (rule subset_refl)
  have cl: "hub_clients st1 i = Some (closing c)" unfolding st1 by (rule fun_upd_same)
  from leave_all_own [OF own1 sub cl closing_simps(1), of en m]
  obtain st' es where l: "leave_all en m ls i st1 = (Done, st', map Did es)"
      and r: "hub_clients st' = (hub_clients st)(i \<mapsto> closing c)" "hub_held st' = hub_held st"
      "\<forall>h v. rm_subscribers (room_at st' h) v =
       (if v = cl_userID c \<and> (\<exists>ch \<in> dom (cl_subscriptions c). rl_GetRoom (hub_relay st) ch = Some h) then None
        else rm_subscribers (room_at st h) v)"
    unfolding st1 ls closing_simps by blast
  have "close_sub en n sub st = (Done, st', map Did es @ [TransportClosed i])"
    using c m l [unfolded ls_def st1_def i_def] by (simp add: close_sub.simps i_def del: not_None_eq)
  with r show ?thesis unfolding i_def by blast
qed

text \<open>While the relay's mutex is held no handler with a subscription can be closed.\<close>

lemma close_relay_held:
  assumes "close_sub en n sub st = (p, st', es)" and "hub_relayHeld st"
    and d: "hub_clients st j = Some d" "\<not> cl_closed d" and ch: "cl_subscriptions d ch \<noteq> None" "ch \<in> set (en_subs en j)"
    and n: "fuelled n st"
  shows "if sub_handle sub = j then p = Stuck else p = Done \<longrightarrow> hub_clients st' j = Some d"
proof (cases "sub_handle sub = j")
  case True
  have "blocked st ch" using assms(2) by (simp add: blocked_def)
  with close_blocked [of st sub d ch en n] d ch n assms(1) True show ?thesis by auto
next
  case False
  show ?thesis
  proof (cases "hub_clients st (sub_handle sub)")
    case None
    with assms(1) d False show ?thesis by (simp add: close_sub.simps)
  next
    case (Some c)
    show ?thesis
    proof (cases "cl_closed c")
      case True
      with assms(1) d False Some show ?thesis by (simp add: close_sub.simps)
    next
      case still: False
      then obtain m where m: "n = Suc m" using fuelled_closing(1) [OF n Some] by (cases n) auto
      define ls where "ls = filter (\<lambda>ch. cl_subscriptions c ch \<noteq> None) (en_subs en (sub_handle sub))"
      have "ls \<noteq> [] \<Longrightarrow> fst (leave_all en m ls (sub_handle sub) (set_client (sub_handle sub) (closing c) st)) \<noteq> Done"
        using assms(2) leave_all_blocked [of "hd ls" ls "set_client (sub_handle sub) (closing c) st" "sub_handle sub" en m]
        by (simp add: blocked_def set_client_def)
      with assms(1) d False Some still show ?thesis
        by (cases "ls = []")
          (auto simp: close_sub.simps m ls_def [symmetric] set_client_def simp del: not_None_eq
            split: prod.splits progress.splits)
    qed
  qed
qed

lemma close_subs_relay_held:
  assumes "sub \<in> set subs" and "hub_relayHeld st" and "hub_clients st (sub_handle sub) = Some d" and "\<not> cl_closed d"
    and "cl_subscriptions d ch \<noteq> None" and "ch \<in> set (en_subs en (sub_handle sub))" and "fuelled n st"
  shows "fst (close_subs en n subs st) = Stuck"
  using assms
proof (induction subs arbitrary: st)
  case (Cons s subs)
  obtain p st1 es where c: "close_sub en n s st = (p, st1, es)" by (metis prod_cases3)
  note k = close_relay_held [OF c Cons.prems(2-7)] close_frame [OF c]
  show ?case
  proof (cases p)
    case Done
    with k(1) Cons.prems have sub: "sub \<in> set subs" "hub_clients st1 (sub_handle sub) = Some d"
      by (auto split: if_splits)
    have "hub_relayHeld st1" using k(2) Cons.prems(2) unfolding closes_only_def by simp
    with Cons.IH [OF sub(1) _ sub(2) Cons.prems(4-6) fuelled_mono [OF Cons.prems(7) k(2)]] Done
    show ?thesis by (auto simp: c split: prod.split)
  qed (use k(4) Cons.prems(7) in \<open>auto simp: c\<close>)
qed simp

end
