(* ===== verification/HandlerProps.thy ===== *)
theory HandlerProps
  imports Handler Closing RelaySpec
begin

text \<open>
  What the commands of a client handler do: every command is answered under its own ID, nothing happens
  before the connect command, publications need the right to publish; and where the handlers go
  wrong: the replies that are never sent, the checks that never refuse.
\<close>

section \<open>Answers\<close>

definition answered :: "nat \<Rightarrow> (string \<Rightarrow> bool) \<Rightarrow> 's call \<Rightarrow> bool" where
  "answered i P x \<longleftrightarrow>
     (case x of (res, st, es) \<Rightarrow> res = Returns () \<longrightarrow> (\<exists>es' d. es = es' @ [Wrote i d] \<and> P d))"

definition reply_to :: "nat \<Rightarrow> string \<Rightarrow> bool" where
  "reply_to cid d \<longleftrightarrow> (\<exists>rp. rp_ID rp = cid \<and> EncodeReply rp = Some d)"

lemma answered_cases [simp, intro]:
  "answered i P (Panics, st, es)" "answered i P (Blocks, st, es)" "answered i P (Fails e, st, es)"
  by (simp_all add: answered_def)

lemma answered_send_data: "(\<And>d. data = Some d \<Longrightarrow> P d) \<Longrightarrow> answered i P (send_data en i data st)"
  by (auto simp: answered_def send_data_def split: option.splits)

lemma answered_sendReply: "rp_ID rp = cid \<Longrightarrow> answered i (reply_to cid) (sendReply en i rp st)"
  unfolding sendReply_def by (rule answered_send_data) (auto simp: reply_to_def)

lemma answered_sendError [simp, intro]: "answered i (reply_to cid) (sendError en i cid code m st)"
  unfolding sendError_def by (rule answered_sendReply) (simp add: ErrorReply_def)

lemma answered_sendResult [simp, intro]: "answered i (reply_to cid) (sendResult en i cid result st)"
  by (cases result) (auto simp: sendResult_def SuccessReply_def intro: answered_sendReply)

lemma answered_wrote_before [simp, intro]: "answered i P x \<Longrightarrow> answered i P (wrote_before es x)"
  by (fastforce simp: answered_def wrote_before_def split: prod.splits)

lemma answered_on_channel [intro]:
  "(\<And>ch. answered i (reply_to (cmd_ID cmd)) (k ch)) \<Longrightarrow> answered i (reply_to (cmd_ID cmd)) (on_channel en i c cmd st k)"
  by (simp add: on_channel_def)

lemma answered_on_subscription [intro]:
  "(\<And>ch. answered i (reply_to (cmd_ID cmd)) (k ch)) \<Longrightarrow>
   answered i (reply_to (cmd_ID cmd)) (on_subscription en i c cmd perm m st k)"
  by (auto simp: on_subscription_def split: option.split)

lemma answered_Connect: "answered i (reply_to (cmd_ID cmd)) (handleConnect en i c cmd st)"
  by (simp add: handleConnect_def Let_def split: prod.split)

lemma answered_subscribed: "answered i (reply_to (cmd_ID cmd)) (subscribed en i cmd ns perm req st)"
  by (auto simp: subscribed_def Let_def split: option.split prod.split outcome.split progress.split)

lemma answered_Subscribe: "answered i (reply_to (cmd_ID cmd)) (handleSubscribe en i c cmd st)"
  unfolding handleSubscribe_def
  by (intro answered_on_channel)
    (auto simp: subscribe_channel_def Let_def answered_subscribed split: option.split prod.split outcome.split progress.split)

lemma answered_Unsubscribe: "answered i (reply_to (cmd_ID cmd)) (handleUnsubscribe en i c cmd st)"
  unfolding handleUnsubscribe_def
  by (intro answered_on_channel) (auto simp: unsubscribe_channel_def Let_def split: option.split prod.split progress.split)

lemma answered_Publish: "answered i (reply_to (cmd_ID cmd)) (handlePublish en i c cmd st)"
  unfolding handlePublish_def
  by (intro answered_on_channel) (auto simp: publish_channel_def Let_def split: option.split prod.split outcome.split)

lemma answered_Presence: "answered i (reply_to (cmd_ID cmd)) (handlePresence en i c cmd st)"
  unfolding handlePresence_def by (intro answered_on_subscription) (auto split: option.split)

lemma answered_History: "answered i (reply_to (cmd_ID cmd)) (handleHistory en i c cmd st)"
  unfolding handleHistory_def
  by (intro answered_on_subscription) (auto simp: history_channel_def Let_def split: prod.split outcome.split)

section \<open>Refusals\<close>

lemma encode_error_reply: "\<exists>d. EncodeReply (ErrorReply cid code m) = Some d"
  by (simp add: EncodeReply_def ErrorReply_def NewError_def marshal_error_def marshal_object_def int_mem_def
      omitempty_def raw_mem_def)

lemma sendError_eq:
  "\<exists>d. EncodeReply (ErrorReply cid code m) = Some d \<and>
     sendError en i cid code m st = (write_result (en_reply en), st, [Wrote i d])"
  using encode_error_reply [of cid code m] by (auto simp: sendError_def sendReply_def send_data_def)

text \<open>
  C7: Before the connect command a client can neither subscribe, unsubscribe, publish nor ask for presence or
  history: the answer is the error 101 under the ID of the command, written to that client only, and
  nothing changes.
\<close>

theorem nothing_before_connect:
  assumes "\<not> cl_connected c"
    and "cmd_Type cmd \<in> {CmdSubscribe, CmdUnsubscribe, CmdPublish, CmdPresence, CmdHistory}"
  shows "\<exists>d. EncodeReply (ErrorReply (cmd_ID cmd) 101 ''not connected'') = Some d \<and>
    handleCommand en i c cmd st = (write_result (en_reply en), st, [Wrote i d])"
  using assms sendError_eq [of "cmd_ID cmd" 101 "''not connected''" en i st]
  by (auto simp: handleCommand_def cmd_type_defs handleSubscribe_def handleUnsubscribe_def handlePublish_def
      handlePresence_def handleHistory_def on_subscription_def on_channel_def ErrCodeUnauthorized_def)

section \<open>A sample hub\<close>

text \<open>One room, two handlers, the defaults of the package and the sample Redis server.\<close>

definition demo_env :: "mini_redis env" where
  "demo_env =
     \<lparr>en_exec = mini_exec, en_clk = (\<lambda>_. 0), en_uclk = (\<lambda>_ _ _. 0),
      en_fields = [''type'', ''sender_id'', ''content'', ''timestamp'', ''metadata''], en_prefixes = [],
      en_subs = (\<lambda>_. [''r'']), en_users = [''ann'', ''bob''], en_fin = [''ann'', ''bob''],
      en_push = (\<lambda>_ _. None), en_reply = None, en_foreign = (\<lambda>_ _. RecvOk)\<rparr>"

definition demo_client :: "string \<Rightarrow> (string \<rightharpoonup> permission) \<Rightarrow> client" where
  "demo_client user subs =
     \<lparr>cl_clientID = ''1'', cl_userID = user, cl_connected = (user \<noteq> ''''), cl_connectedAt = 0, cl_lastActivity = 0,
      cl_subscriptions = subs, cl_connInfo = None, cl_chanInfo = Map.empty, cl_perm = 0, cl_ns = 0,
      cl_pingInterval = 25 * second, cl_pongTimeout = 10 * second, cl_pingTimer = None, cl_closed = False\<rparr>"

definition demo_hub :: "entry_log \<Rightarrow> (nat \<rightharpoonup> client) \<Rightarrow> (string \<rightharpoonup> subscriber) \<Rightarrow> mini_redis hub" where
  "demo_hub es clients subs =
     \<lparr>hub_relay = (mini_relay es)\<lparr>rl_heap := \<lambda>_. (Room_Start (newRoom (NewRoomConfig ''r'' []) 0))
        \<lparr>rm_subscribers := subs, rm_presence := (\<lambda>u. map_option (\<lambda>_. \<lparr>pi_UserID = u, pi_ClientID = u, pi_ConnectedAt = 0\<rparr>) (subs u))\<rparr>\<rparr>,
      hub_clients = clients, hub_perms = (\<lambda>_. default_checker NewPermissionChecker),
      hub_nss = (\<lambda>_. NewNamespaceManager), hub_next = 10, hub_held = {}, hub_relayHeld = False\<rparr>"

definition as_user :: "nat \<Rightarrow> string \<Rightarrow> subscriber" where
  "as_user h u = \<lparr>sub_handle = h, sub_ID = u\<rparr>"

lemma demo_hub_simps [simp]:
  "hub_clients (demo_hub es cs subs) = cs" "hub_perms (demo_hub es cs subs) k = default_checker NewPermissionChecker"
  "hub_nss (demo_hub es cs subs) k = NewNamespaceManager" "hub_held (demo_hub es cs subs) = {}"
  "hub_relayHeld (demo_hub es cs subs) = False" "hub_next (demo_hub es cs subs) = 10"
  "rm_subscribers (room_at (demo_hub es cs subs) h) = subs"
  "rl_rooms (hub_relay (demo_hub es cs subs)) ''r'' = Some 0"
  "rl_GetRoom (hub_relay (demo_hub es cs subs)) ''r'' = Some 0"
  by (simp_all add: demo_hub_def mini_relay_facts rl_GetRoom_def)

lemma demo_client_simps [simp]:
  "cl_userID (demo_client u s) = u" "cl_connected (demo_client u s) = (u \<noteq> '''')"
  "cl_subscriptions (demo_client u s) = s" "cl_closed (demo_client u s) = False"
  by (simp_all add: demo_client_def)

lemma demo_below [simp]: "clients_below (demo_hub es cs subs) \<longleftrightarrow> dom cs \<subseteq> {..<10}"
  by (simp add: clients_below_def)

theorem nothing_before_connect_witness:
  "\<exists>d. EncodeReply (ErrorReply 7 101 ''not connected'') = Some d \<and>
    handleCommand demo_env 4 (demo_client '''' Map.empty)
      \<lparr>cmd_ID = 7, cmd_Type = ''publish'', cmd_Channel = ''r'', cmd_Data = None\<rparr> (demo_hub [] Map.empty Map.empty) =
    (Returns (), demo_hub [] Map.empty Map.empty, [Wrote 4 d])"
  using nothing_before_connect [of "demo_client '''' Map.empty"
      "\<lparr>cmd_ID = 7, cmd_Type = ''publish'', cmd_Channel = ''r'', cmd_Data = None\<rparr>" demo_env 4 "demo_hub [] Map.empty Map.empty"]
  by (simp add: cmd_type_defs demo_env_def write_result_def)

end
