(* ===== verification/HandlerRights.thy ===== *)
theory HandlerRights
  imports HandlerProps
begin

text \<open>
  Who may do what: the contract of the permission checker, the invariant of the clients after any sequence of
  operations, and the rights behind a publication.
\<close>

section \<open>The permission checker\<close>

text \<open>What the handlers rely on: a subscription is granted with the user's permissions, which allow it, and a
  publication is allowed by those permissions.\<close>

locale access_control =
  fixes ck :: checker
  assumes subscribe_grants: "chk_Subscribe ck u ch t = (p, None) \<Longrightarrow>
      p = chk_Permissions ck u ch \<and> perm_Has p PermSubscribe"
    and publish_right: "chk_Publish ck u ch = (True, None) \<longleftrightarrow> perm_Has (chk_Permissions ck u ch) PermPublish"
begin

lemma may_publish_right:
  assumes "\<And>p. cl_subscriptions c ch = Some p \<Longrightarrow> p = chk_Permissions ck (cl_userID c) ch"
  shows "may_publish c ck ch \<longleftrightarrow> perm_Has (chk_Permissions ck (cl_userID c) ch) PermPublish"
  using assms publish_right [of "cl_userID c" ch]
  by (cases "cl_subscriptions c ch") (auto simp: may_publish_def perm_Has_def perm_defs)

end

interpretation default_access: access_control "default_checker pc" for pc
  by unfold_locales
    (auto simp: default_checker_def CheckSubscribe_def GetUserPermissions_def CheckPublish_def Let_def split: if_splits)

section \<open>The clients after any operations\<close>

definition good_client :: "client \<Rightarrow> bool" where
  "good_client c \<longleftrightarrow>
     (cl_connected c \<longrightarrow> cl_userID c \<noteq> '''') \<and>
     (\<forall>ch p. cl_subscriptions c ch = Some p \<longrightarrow> cl_connected c \<and> perm_Has p PermSubscribe)"

definition hub_inv :: "'s hub \<Rightarrow> bool" where
  "hub_inv st \<longleftrightarrow>
     clients_below st \<and> (\<forall>k. access_control (hub_perms st k)) \<and>
     (\<forall>i c. hub_clients st i = Some c \<longrightarrow> good_client c)"

lemma inv_client: "hub_inv st \<Longrightarrow> hub_clients st i = Some c \<Longrightarrow> good_client c"
  by (simp add: hub_inv_def)

lemma good_closing [simp]: "good_client (closing c) = good_client c"
  by (simp add: good_client_def)

lemma inv_set_client: "hub_inv st \<Longrightarrow> good_client c \<Longrightarrow> i \<in> dom (hub_clients st) \<Longrightarrow> hub_inv (set_client i c st)"
  by (auto simp: hub_inv_def clients_below_def set_client_simps)

lemma inv_set_relay [simp]: "hub_inv (set_relay r st) = hub_inv st"
  by (simp add: hub_inv_def set_relay_def clients_below_def)

lemma inv_closes_only:
  assumes "hub_inv st" and "closes_only st st'"
  shows "hub_inv st'"
proof -
  have "good_client c" if "hub_clients st' i = Some c" for i c
  proof -
    from assms(2) have "hub_clients st' i = hub_clients st i \<or>
        (\<exists>c. hub_clients st i = Some c \<and> \<not> cl_closed c \<and> hub_clients st' i = Some (closing c))"
      unfolding closes_only_def by blast
    with that inv_client [OF assms(1), of i] show ?thesis by (cases "hub_clients st i") auto
  qed
  moreover have "hub_perms st' = hub_perms st" using assms(2) unfolding closes_only_def by blast
  ultimately show ?thesis
    using clients_below_mono [OF _ assms(2)] assms(1) by (simp add: hub_inv_def)
qed

lemma set_relay_frame [simp]:
  "hub_clients (set_relay r st) = hub_clients st" "hub_relay (set_relay r st) = r"
  "hub_perms (set_relay r st) = hub_perms st" "hub_nss (set_relay r st) = hub_nss st"
  "hub_held (set_relay r st) = hub_held st" "hub_relayHeld (set_relay r st) = hub_relayHeld st"
  "hub_next (set_relay r st) = hub_next st"
  by (simp_all add: set_relay_def)

text \<open>A call keeps the invariant, and if it returns no mutex stays held that was not.\<close>

definition call_ok :: "'s hub \<Rightarrow> 's call \<Rightarrow> bool" where
  "call_ok st x \<longleftrightarrow>
     (case x of (res, st', es) \<Rightarrow>
        hub_inv st' \<and>
        (res \<noteq> Blocks \<and> res \<noteq> Panics \<longrightarrow>
           hub_held st' = hub_held st \<and> hub_relayHeld st' = hub_relayHeld st))"

definition same_locks :: "'s hub \<Rightarrow> 's hub \<Rightarrow> bool" where
  "same_locks st st' \<longleftrightarrow> hub_held st' = hub_held st \<and> hub_relayHeld st' = hub_relayHeld st"

lemma same_locks_simps [simp]:
  "same_locks st st" "same_locks st (set_client i c st') = same_locks st st'"
  "same_locks st (set_relay r st') = same_locks st st'"
  "same_locks (set_client i c st) st' = same_locks st st'" "same_locks (set_relay r st) st' = same_locks st st'"
  by (simp_all add: same_locks_def set_client_simps set_relay_def)

lemma call_ok_send_data [intro]: "hub_inv st' \<Longrightarrow> same_locks st st' \<Longrightarrow> call_ok st (send_data en i d st')"
  by (auto simp: call_ok_def send_data_def same_locks_def split: option.split)

lemma call_ok_send [intro]:
  assumes "hub_inv st'" and "same_locks st st'"
  shows "call_ok st (sendError en i cid code m st')" and "call_ok st (sendResult en i cid result st')"
    and "call_ok st (sendPush en i p st')"
  using assms
  by (auto simp: sendError_def sendResult_def sendReply_def sendPush_def call_ok_def send_data_def same_locks_def
      split: option.split)

lemma call_ok_error [simp]: "hub_inv st \<Longrightarrow> call_ok st (sendError en i cid code m st)"
  by (rule call_ok_send) simp_all

lemma call_ok_stopped [intro]:
  "hub_inv st' \<Longrightarrow> call_ok st (Blocks, st', es)" "hub_inv st' \<Longrightarrow> call_ok st (Panics, st', es)"
  by (simp_all add: call_ok_def)

lemma call_ok_wrote_before [simp]: "call_ok st (wrote_before es x) = call_ok st x"
  by (simp add: call_ok_def wrote_before_def split: prod.split)

lemma call_ok_from: "call_ok st' x \<Longrightarrow> same_locks st st' \<Longrightarrow> call_ok st x"
  by (auto simp: call_ok_def same_locks_def split: prod.splits)

lemma call_ok_on_channel:
  "hub_inv st \<Longrightarrow> (\<And>ch. cl_connected c \<Longrightarrow> call_ok st (k ch)) \<Longrightarrow> call_ok st (on_channel en i c cmd st k)"
  by (auto simp: on_channel_def)

lemma call_ok_on_subscription:
  "hub_inv st \<Longrightarrow> (\<And>ch. call_ok st (k ch)) \<Longrightarrow> call_ok st (on_subscription en i c cmd perm m st k)"
  by (auto simp: on_subscription_def intro!: call_ok_on_channel split: option.split)

lemma call_ok_recover:
  assumes "hub_inv st" and "handler_recover en ch u f l st = (x, st')"
  shows "hub_inv st'" and "same_locks st st'" and "dom (hub_clients st') = dom (hub_clients st)"
  using assms by (auto simp: handler_recover_def split: prod.splits)

lemma hub_Publish_state: "\<exists>r. fst (snd (hub_Publish en clk roomID a opts st)) = set_relay r st"
proof -
  have "\<exists>r. st = set_relay r st" by (rule exI [of _ "hub_relay st"]) (simp add: set_relay_def)
  then show ?thesis by (auto simp: hub_Publish_def Let_def simp del: set_relay_frame split: prod.split outcome.split)
qed

lemma call_ok_Connect:
  assumes "hub_inv st" and "good_client c" and "i \<in> dom (hub_clients st)"
  shows "call_ok st (handleConnect en i c cmd st)"
proof -
  let ?c = "\<lambda>u d. startPingTimer (c\<lparr>cl_userID := extractUserFromToken u, cl_connected := True,
      cl_connectedAt := en_clk en 1, cl_connInfo := d\<rparr>)"
  have "good_client (?c u d)" for u d
    using assms(2) by (auto simp: good_client_def startPingTimer_def extractUserFromToken_def)
  then have "hub_inv (set_client i (?c u d) st)" for u d
    using inv_set_client assms(1,3) by blast
  then show ?thesis
    using assms(1) by (auto simp: handleConnect_def Let_def split: prod.split)
qed

lemma call_ok_subscribed:
  assumes "hub_inv st" and "perm_Has perm PermSubscribe"
    and "\<And>c. hub_clients st i = Some c \<Longrightarrow> cl_connected c"
  shows "call_ok st (subscribed en i cmd ns perm req st)"
proof (cases "hub_clients st i")
  case None
  with assms(1) show ?thesis by (auto simp: subscribed_def)
next
  case (Some c)
  define c' where "c' = c\<lparr>cl_subscriptions := (cl_subscriptions c)(cmd_Channel cmd \<mapsto> perm),
                      cl_chanInfo := (cl_chanInfo c)(cmd_Channel cmd \<mapsto> sq_Data req)\<rparr>"
  have "good_client c'"
    using inv_client [OF assms(1) Some] assms(2) assms(3) [OF Some] by (auto simp: good_client_def c'_def)
  with assms(1) Some have inv: "hub_inv (set_client i c' st)" by (auto intro!: inv_set_client)
  obtain x st2 where r: "handler_recover en (cmd_Channel cmd) (cl_userID c') (sq_Offset req) 100 (set_client i c' st) = (x, st2)"
    by fastforce
  have "hub_inv st2" "same_locks st st2" using call_ok_recover [OF inv r] by auto
  with inv show ?thesis
    unfolding subscribed_def Some option.case Let_def c'_def [symmetric] r
    by (auto split: prod.split outcome.split progress.split)
qed

lemma call_ok_Subscribe:
  assumes "hub_inv st" and "hub_clients st i = Some c"
  shows "call_ok st (handleSubscribe en i c cmd st)"
  unfolding handleSubscribe_def
proof (rule call_ok_on_channel [OF assms(1)])
  fix ch
  assume con: "cl_connected c"
  define ns where "ns = GetByChannel (en_prefixes en) (hub_nss st (cl_ns c)) ch"
  define req where "req = fst (optional_request subscribe_fields (cmd_Data cmd) zero_subscribe)"
  obtain perm e where p: "chk_Subscribe (hub_perms st (cl_perm c)) (cl_userID c) ch (sq_Token req) = (perm, e)"
    by fastforce
  obtain x r where g: "rl_GetOrCreateRoom (en_clk en 1) (room_config_of ch ns) (hub_relay st) = (x, r)" by fastforce
  have inv1: "hub_inv (set_relay r st)" using assms(1) by simp
  have right: "perm_Has perm PermSubscribe" if "e = None"
    using assms(1) p that access_control.subscribe_grants by (fastforce simp: hub_inv_def)
  have sub: "call_ok st (case hub_Subscribe en clk h s info (set_relay r st) of
      (Done, st2, es) \<Rightarrow> wrote_before es (subscribed en i cmd ns perm req st2)
    | (_, st2, es) \<Rightarrow> (Blocks, st2, es))" if "e = None" for clk h s info
  proof -
    obtain q st2 es where s: "hub_Subscribe en clk h s info (set_relay r st) = (q, st2, es)" by (metis prod_cases3)
    note f = hub_Subscribe_frame [OF s]
    have below: "clients_below (set_relay r st)" using inv1 by (simp add: hub_inv_def)
    have inv2: "hub_inv st2" by (rule inv_closes_only [OF inv1 f(1) [OF below]])
    have con2: "cl_connected c2" if "hub_clients st2 i = Some c2" for c2
    proof -
      have "hub_clients (set_relay r st) i = Some c" using assms(2) by (simp add: set_relay_def)
      from closes_only_client [OF f(1) [OF below] this] that con show ?thesis by auto
    qed
    show ?thesis
    proof (cases q)
      case Done
      have "same_locks st st2"
        using f(2) [OF below Done] f(1) [OF below] unfolding closes_only_def
        by (simp add: same_locks_def set_relay_def)
      with call_ok_from [OF call_ok_subscribed [OF inv2 right [OF that] con2]] Done s show ?thesis by simp
    qed (use s inv2 in auto)
  qed
  show "call_ok st (subscribe_channel en i c cmd st ch)"
    unfolding subscribe_channel_def req_def [symmetric] Let_def ns_def [symmetric] p g
    using assms(1) inv1 sub
    by (cases e; cases x) auto
qed

lemma call_ok_Unsubscribe:
  assumes "hub_inv st" and "hub_clients st i = Some c"
  shows "call_ok st (handleUnsubscribe en i c cmd st)"
  unfolding handleUnsubscribe_def
proof (rule call_ok_on_channel [OF assms(1)])
  fix ch
  define c' where "c' = c\<lparr>cl_subscriptions := (cl_subscriptions c)(ch := None), cl_chanInfo := (cl_chanInfo c)(ch := None)\<rparr>"
  have "good_client c'" using inv_client [OF assms] by (auto simp: good_client_def c'_def)
  then have inv1: "hub_inv (set_client i c' st)" using assms by (auto intro!: inv_set_client)
  then have below: "clients_below (set_client i c' st)" by (simp add: hub_inv_def)
  obtain q st1 es where u: "hub_Unsubscribe en ch (cl_userID c) (set_client i c' st) = (q, st1, es)" by (metis prod_cases3)
  note f = hub_Unsubscribe_frame [OF u below]
  have inv2: "hub_inv st1" by (rule inv_closes_only [OF inv1 f(1)])
  have "same_locks st st1" if "q = Done"
    using f(1) f(2) [OF that] unfolding closes_only_def by (simp add: same_locks_def set_client_simps)
  with assms(1) inv2 show "call_ok st (unsubscribe_channel en i c cmd st ch)"
    unfolding unsubscribe_channel_def Let_def c'_def [symmetric] u
    by (auto split: option.split progress.split prod.split)
qed

lemma inv_new_message:
  "hub_inv st \<Longrightarrow> new_message msg st = (a, st') \<Longrightarrow> hub_inv st' \<and> same_locks st st'"
  by (auto simp: new_message_def hub_inv_def clients_below_def same_locks_def) (metis domI less_SucI lessThan_iff subsetD)

lemma call_ok_Publish:
  assumes "hub_inv st"
  shows "call_ok st (handlePublish en i c cmd st)"
  unfolding handlePublish_def
proof (rule call_ok_on_channel [OF assms])
  fix ch
  define ns where "ns = GetByChannel (en_prefixes en) (hub_nss st (cl_ns c)) ch"
  obtain req ok where r: "unmarshal publish_fields (content_text (cmd_Data cmd)) zero_publish = (req, ok)" by fastforce
  obtain a st1 where m: "new_message (publish_message en c ch (pq_Data req)) st = (a, st1)" by fastforce
  have 1: "hub_inv st1" "same_locks st st1" using inv_new_message [OF assms m] by auto
  let ?o = "Some \<lparr>po_SkipSender = True, po_Priority = 0, po_TTL = 0, po_Persist = 0 < no_HistorySize (ns_Options ns)\<rparr>"
  obtain x st2 es where p: "hub_Publish en (\<lambda>k. en_clk en (2 + k)) ch a ?o st1 = (x, st2, es)" by (metis prod_cases3)
  then have "hub_inv st2" "same_locks st st2"
    using hub_Publish_state [of en "\<lambda>k. en_clk en (2 + k)" ch a ?o st1] 1 by auto
  with assms show "call_ok st (publish_channel en i c cmd st ch)"
    unfolding publish_channel_def Let_def r prod.case ns_def [symmetric] m p
    by (auto split: outcome.split)
qed

lemma call_ok_Presence: "hub_inv st \<Longrightarrow> call_ok st (handlePresence en i c cmd st)"
  unfolding handlePresence_def
  by (rule call_ok_on_subscription) (auto split: option.split)

lemma call_ok_History:
  assumes "hub_inv st"
  shows "call_ok st (handleHistory en i c cmd st)"
  unfolding handleHistory_def
proof (rule call_ok_on_subscription [OF assms])
  fix ch
  let ?req = "fst (optional_request history_fields (cmd_Data cmd) zero_history)"
  obtain x st1 where r: "handler_recover en ch (cl_userID c) (hq_Since ?req) (page_limit (hq_Limit ?req)) st = (x, st1)"
    by fastforce
  from call_ok_recover [OF assms r]
  show "call_ok st (history_channel en i c cmd st ch)"
    unfolding history_channel_def Let_def r by (auto split: outcome.split)
qed

lemma call_ok_Message:
  assumes "hub_inv st"
  shows "call_ok st (HandleMessage en i data st)"
proof (cases "hub_clients st i")
  case None
  with assms show ?thesis by (auto simp: HandleMessage_def)
next
  case (Some c0)
  define c where "c = c0\<lparr>cl_lastActivity := en_clk en 0\<rparr>"
  define st1 where "st1 = set_client i c st"
  have good: "good_client c" using inv_client [OF assms Some] by (auto simp: good_client_def c_def)
  have inv: "hub_inv st1" unfolding st1_def using good assms Some by (auto intro: inv_set_client)
  have c: "hub_clients st1 i = Some c" "i \<in> dom (hub_clients st1)" by (simp_all add: st1_def set_client_simps)
  have ping: "call_ok st1 (handlePing en i c cmd st1)" for cmd
  proof -
    have "good_client (c\<lparr>cl_lastActivity := en_clk en 1\<rparr>)" using good by (simp add: good_client_def)
    then have "hub_inv (set_client i (c\<lparr>cl_lastActivity := en_clk en 1\<rparr>) st1)" using inv c by (auto intro: inv_set_client)
    then show ?thesis by (auto simp: handlePing_def)
  qed
  have "call_ok st1 (handleCommand en i c cmd st1)" for cmd
    using inv good c ping
    by (simp add: handleCommand_def call_ok_Connect call_ok_Subscribe call_ok_Unsubscribe call_ok_Publish call_ok_Presence
        call_ok_History)
  then have "call_ok st1 (HandleMessage en i data st)"
    using inv by (simp add: HandleMessage_def Some c_def [symmetric] st1_def [symmetric] Let_def split: option.split)
  then show ?thesis by (rule call_ok_from) (simp add: st1_def)
qed

section \<open>The hub as a machine\<close>

datatype 's hub_op =
    NewClient gotime gotime "permission_checker option" "namespace_manager option" duration duration
  | Incoming "'s env" nat string
  | CloseClient "'s env" nat
  | PingTimer "'s env" gotime nat
  | DropUser "'s env" string string
  | DropRoom "'s env" "string list" string
  | PublishTo "'s env" "nat \<Rightarrow> gotime" string nat "publish_options option"

text \<open>A new client comes with a checker and a manager of its own, new objects too.\<close>

definition add_checker :: "permission_checker option \<Rightarrow> 's hub \<Rightarrow> nat option \<times> 's hub" where
  "add_checker pc st =
     (case pc of
        None \<Rightarrow> (None, st)
      | Some c \<Rightarrow> (Some (hub_next st),
                  st\<lparr>hub_perms := (hub_perms st)(hub_next st := default_checker c), hub_next := hub_next st + 1\<rparr>))"

definition add_manager :: "namespace_manager option \<Rightarrow> 's hub \<Rightarrow> nat option \<times> 's hub" where
  "add_manager m st =
     (case m of
        None \<Rightarrow> (None, st)
      | Some n \<Rightarrow> (Some (hub_next st),
                  st\<lparr>hub_nss := (hub_nss st)(hub_next st := n), hub_next := hub_next st + 1\<rparr>))"

fun hub_step :: "'s hub \<Rightarrow> 's hub_op \<Rightarrow> 's hub" where
  "hub_step st (NewClient t1 t2 pc m pi pt) =
     (let (p, st1) = add_checker pc st; (n, st2) = add_manager m st1
      in snd (NewClientHandler t1 t2 p n pi pt st2))"
| "hub_step st (Incoming en i data) = fst (snd (HandleMessage en i data st))"
| "hub_step st (CloseClient en i) = fst (snd (client_Close en i st))"
| "hub_step st (PingTimer en now i) = fst (snd (ping_fired en now i st))"
| "hub_step st (DropUser en roomID u) = fst (snd (hub_Unsubscribe en roomID u st))"
| "hub_step st (DropRoom en ord roomID) = fst (snd (hub_DeleteRoom en ord roomID st))"
| "hub_step st (PublishTo en clk roomID a opts) = fst (snd (hub_Publish en clk roomID a opts st))"

text \<open>A relay without clients.\<close>

definition empty_hub :: "'s relay \<Rightarrow> 's hub" where
  "empty_hub r =
     \<lparr>hub_relay = r, hub_clients = Map.empty, hub_perms = (\<lambda>_. default_checker NewPermissionChecker),
      hub_nss = (\<lambda>_. NewNamespaceManager), hub_next = 0, hub_held = {}, hub_relayHeld = False\<rparr>"

lemma inv_mutexes [simp]:
  "hub_inv (hold_room h st) = hub_inv st" "hub_inv (release_room h st) = hub_inv st"
  "hub_inv (st\<lparr>hub_relayHeld := b\<rparr>) = hub_inv st" "hub_inv (set_room h room st) = hub_inv st"
  by (simp_all add: hub_inv_def hold_room_def release_room_def set_room_def set_relay_def clients_below_def)

lemma inv_CloseRoom:
  assumes "hub_inv st" and "hub_CloseRoom en ord h st = (p, st', es)"
  shows "hub_inv st'"
proof (cases "h \<in> hub_held st")
  case True
  with assms show ?thesis by (simp add: hub_CloseRoom_def)
next
  case False
  define st0 where "st0 = hold_room h (set_room h (Room_Stop (room_at st h)) st)"
  define subs where "subs = List.map_filter (rm_subscribers (room_at st h)) ord"
  have inv: "hub_inv st0" using assms(1) by (simp add: st0_def)
  have "fuelled (open_count st) st0"
    using open_count_enough [of st] assms(1)
    by (simp add: hub_inv_def fuelled_def open_clients_def st0_def hold_room_def set_room_def)
  moreover obtain q st1 es1 where c: "close_subs en (open_count st) subs st0 = (q, st1, es1)" by (metis prod_cases3)
  ultimately have "closes_only st0 st1" using close_subs_frame by blast
  with inv have "hub_inv st1" by (rule inv_closes_only)
  then show ?thesis
    using assms(2) False by (cases q) (auto simp: hub_CloseRoom_def Let_def c subs_def [symmetric] st0_def [symmetric])
qed

lemma inv_NewClient:
  assumes "hub_inv st"
  shows "hub_inv (snd (NewClientHandler t1 t2 p n pi pt st))"
  using assms default_access.access_control_axioms
  by (auto simp: hub_inv_def NewClientHandler_def Let_def clients_below_def good_client_def dest: subsetD)

lemma inv_add:
  "hub_inv st \<Longrightarrow> hub_inv (snd (add_checker pc st))" "hub_inv st \<Longrightarrow> hub_inv (snd (add_manager m st))"
  using default_access.access_control_axioms
  by (auto simp: hub_inv_def add_checker_def add_manager_def clients_below_def dest: subsetD split: option.splits)

lemma inv_client_Close:
  assumes "hub_inv st"
  shows "hub_inv (fst (snd (client_Close en i st)))"
proof -
  obtain p st' es where c: "client_Close en i st = (p, st', es)" by (metis prod_cases3)
  with close_frame(1) assms inv_closes_only show ?thesis by (fastforce simp: client_Close_def)
qed

lemma hub_inv_step: "hub_inv st \<Longrightarrow> hub_inv (hub_step st ev)"
proof (cases ev)
  case (NewClient t1 t2 pc m pi pt)
  assume inv: "hub_inv st"
  obtain p st1 where 1: "add_checker pc st = (p, st1)" by fastforce
  obtain n st2 where 2: "add_manager m st1 = (n, st2)" by fastforce
  from inv_add(1) [OF inv, of pc] 1 have "hub_inv st1" by simp
  from inv_add(2) [OF this, of m] 2 have "hub_inv st2" by simp
  with 1 2 show ?thesis by (simp add: NewClient inv_NewClient)
next
  case (Incoming en i data)
  assume "hub_inv st"
  from call_ok_Message [OF this, of en i data] show ?thesis
    by (auto simp: Incoming call_ok_def split: prod.splits)
next
  case (CloseClient en i)
  assume "hub_inv st"
  then show ?thesis by (simp add: CloseClient inv_client_Close)
next
  case (PingTimer en now i)
  assume inv: "hub_inv st"
  show ?thesis
  proof (cases "hub_clients st i")
    case (Some c)
    have "good_client (c\<lparr>cl_pingTimer := Some True\<rparr>)" using inv_client [OF inv Some] by (simp add: good_client_def)
    with inv Some show ?thesis
      by (auto simp: PingTimer ping_fired_def inv_client_Close intro: inv_set_client)
  qed (use inv in \<open>simp add: PingTimer ping_fired_def\<close>)
next
  case (DropUser en roomID u)
  assume inv: "hub_inv st"
  obtain p st' es where l: "leave_room en (open_count st) roomID u st = (p, st', es)" by (metis prod_cases3)
  from inv_closes_only [OF inv leave_frame(1) [OF l]] l show ?thesis by (simp add: DropUser hub_Unsubscribe_def)
next
  case (DropRoom en ord roomID)
  assume inv: "hub_inv st"
  show ?thesis
  proof (cases "hub_relayHeld st \<or> rl_rooms (hub_relay st) roomID = None")
    case True
    with inv show ?thesis by (auto simp: DropRoom hub_DeleteRoom_def)
  next
    case False
    then obtain h where h: "rl_rooms (hub_relay st) roomID = Some h" by auto
    obtain p st1 es where c: "hub_CloseRoom en ord h (st\<lparr>hub_relayHeld := True\<rparr>) = (p, st1, es)" by (metis prod_cases3)
    have "hub_inv st1" using inv by (intro inv_CloseRoom [OF _ c]) simp
    with False h c show ?thesis by (cases p) (simp_all add: DropRoom hub_DeleteRoom_def)
  qed
next
  case (PublishTo en clk roomID a opts)
  assume "hub_inv st"
  with hub_Publish_state [of en clk roomID a opts st] show ?thesis by (auto simp: PublishTo)
qed

interpretation hub_machine: machine hub_step hub_inv "empty_hub r" for r :: "'s relay"
proof unfold_locales
  show "hub_inv (hub_step st ev)" if "hub_inv st" for st :: "'s hub" and ev
    using that by (rule hub_inv_step)
  show "hub_inv (empty_hub r)"
    using default_access.access_control_axioms by (simp add: hub_inv_def empty_hub_def clients_below_def)
qed

text \<open>
  C16: After any sequence of new clients, messages of clients, closed connections, ping timers, dropped users and
  rooms and publications, a connected client has a user that is not empty, and a client holds a
  subscription only if it connected and its permissions allowed the subscription.
\<close>

theorem clients_stay_good:
  assumes "hub_clients (foldl hub_step (empty_hub r) evs) i = Some c"
  shows "(cl_connected c \<longrightarrow> cl_userID c \<noteq> '''') \<and>
    (\<forall>ch p. cl_subscriptions c ch = Some p \<longrightarrow> cl_connected c \<and> perm_Has p PermSubscribe)"
  using inv_client [OF hub_machine.run_inv assms] by (simp add: good_client_def)

theorem clients_stay_good_witness:
  "let c = demo_client '''' Map.empty in
   \<exists>d. hub_clients (foldl hub_step (empty_hub (mini_relay [])) [NewClient 0 0 None None 0 0]) 0 = Some d \<and>
     cl_pingInterval d = 25 * second \<and> (cl_connected d \<longrightarrow> cl_userID d \<noteq> '''')"
proof -
  let ?d = "\<lparr>cl_clientID = generateClientID 0 0, cl_userID = '''', cl_connected = False,
               cl_connectedAt = zero_time, cl_lastActivity = zero_time, cl_subscriptions = Map.empty,
               cl_connInfo = None, cl_chanInfo = Map.empty, cl_perm = 1, cl_ns = 2,
               cl_pingInterval = 25 * second, cl_pongTimeout = 10 * second, cl_pingTimer = None, cl_closed = False\<rparr>"
  have d: "hub_clients (foldl hub_step (empty_hub (mini_relay [])) [NewClient 0 0 None None 0 0]) 0 = Some ?d"
    by (simp add: empty_hub_def NewClientHandler_def add_checker_def add_manager_def Let_def)
  from clients_stay_good [OF d] d show ?thesis by (auto simp: Let_def)
qed

end
