(* ===== verification/Deadlocks.thy ===== *)
theory Deadlocks
  imports HandlerProps
begin

text \<open>
  Closing handlers: it always ends or deadlocks, a clean close leaves every room, and the calls that never
  return because a handler is closed while a mutex is held that its \<open>Close\<close> needs.
\<close>

section \<open>Calls that never return\<close>

text \<open>
  C32: A user that subscribes to a channel while a handler registered for the same user is subscribed to it, be it from
  another connection or the same one, never gets an answer: the room's mutex is held while the old
  handler is closed, which calls back into the room.  From then on nobody subscribes to the
  channel, leaves it or gets a publication through.
\<close>

theorem resubscribing_deadlocks:
  assumes "cl_connected c" and "cmd_Channel cmd \<noteq> ''''"
    and "ValidateChannel (GetByChannel (en_prefixes en) (hub_nss st (cl_ns c)) (cmd_Channel cmd)) (cmd_Channel cmd) = None"
    and "no_MaxSubscribers (ns_Options (GetByChannel (en_prefixes en) (hub_nss st (cl_ns c)) (cmd_Channel cmd))) \<le> 0"
    and "snd (chk_Subscribe (hub_perms st (cl_perm c)) (cl_userID c) (cmd_Channel cmd)
           (sq_Token (fst (optional_request subscribe_fields (cmd_Data cmd) zero_subscribe)))) = None"
    and "\<not> hub_relayHeld st" and "rl_GetRoom (hub_relay st) (cmd_Channel cmd) = Some h" and "h \<notin> hub_held st"
    and "rm_subscribers (room_at st h) (cl_userID c) = Some old"
    and "hub_clients st (sub_handle old) = Some d" and "\<not> cl_closed d"
    and "cl_subscriptions d (cmd_Channel cmd) \<noteq> None" and "cmd_Channel cmd \<in> set (en_subs en (sub_handle old))"
    and "clients_below st"
  shows "\<exists>st' es. handleSubscribe en i c cmd st = (Blocks, st', es) \<and>
    (\<forall>en' clk sub info u a opts.
       fst (hub_Subscribe en' clk h sub info st') = Stuck \<and>
       fst (hub_Unsubscribe en' (cmd_Channel cmd) u st') = Stuck \<and>
       (\<forall>results. fst (hub_Publish en' clk (cmd_Channel cmd) a opts st') \<noteq> Returns results))"
proof -
  obtain perm where p: "chk_Subscribe (hub_perms st (cl_perm c)) (cl_userID c) (cmd_Channel cmd)
      (sq_Token (fst (optional_request subscribe_fields (cmd_Data cmd) zero_subscribe))) = (perm, None)"
    using assms(5) by (metis prod.collapse)
  have r: "set_relay (hub_relay st) st = st" by (simp add: set_relay_def)
  have u: "sub_ID (self_sub i c) = cl_userID c" by (simp add: self_sub_def)
  let ?info = "Some \<lparr>pi_UserID = cl_userID c, pi_ClientID = cl_clientID c, pi_ConnectedAt = en_clk en 2\<rparr>"
  obtain st' es where s: "hub_Subscribe en (\<lambda>k. en_clk en (3 + k)) h (self_sub i c) ?info st = (Stuck, st', es)"
      "closes_only st st'" "h \<in> hub_held st'"
    using hub_Subscribe_deadlock [OF assms(7,8) _ assms(10-14), of "self_sub i c" "\<lambda>k. en_clk en (3 + k)" ?info] assms(9)
    by (auto simp: u)
  have "handleSubscribe en i c cmd st = (Blocks, st', es)"
    using assms(1-4,6,7) p s(1) r
    by (simp add: handleSubscribe_def subscribe_channel_def on_channel_def Let_def rl_GetOrCreateRoom_def room_config_of_def)
  moreover have b: "blocked st' (cmd_Channel cmd)"
    using closes_only_rooms [OF s(2)] assms(7) s(3) by (auto simp: blocked_def)
  moreover from closes_only_rooms [OF s(2)] assms(7) have "rl_GetRoom (hub_relay st') (cmd_Channel cmd) = Some h" by simp
  ultimately show ?thesis
    using s(3)
    by (intro exI [of _ st'] exI [of _ es])
      (auto simp: hub_Subscribe_def hub_Unsubscribe_def leave_blocked hub_Publish_def Let_def split: prod.splits outcome.splits)
qed

theorem resubscribing_deadlocks_witness:
  "fst (handleSubscribe demo_env 4 (demo_client ''bob'' Map.empty)
     \<lparr>cmd_ID = 2, cmd_Type = ''subscribe'', cmd_Channel = ''r'', cmd_Data = None\<rparr>
     (demo_hub [] [4 \<mapsto> demo_client ''bob'' Map.empty, 3 \<mapsto> demo_client ''bob'' [''r'' \<mapsto> PermStandard]]
        [''bob'' \<mapsto> as_user 3 ''bob''])) = Blocks"
proof -
  let ?st = "demo_hub [] [4 \<mapsto> demo_client ''bob'' Map.empty, 3 \<mapsto> demo_client ''bob'' [''r'' \<mapsto> PermStandard]]
        [''bob'' \<mapsto> as_user 3 ''bob'']"
  let ?cmd = "\<lparr>cmd_ID = 2, cmd_Type = ''subscribe'', cmd_Channel = ''r'', cmd_Data = None\<rparr>"
  have "\<exists>st' es. handleSubscribe demo_env 4 (demo_client ''bob'' Map.empty) ?cmd ?st = (Blocks, st', es) \<and>
    (\<forall>en' clk sub info u a opts.
       fst (hub_Subscribe en' clk 0 sub info st') = Stuck \<and>
       fst (hub_Unsubscribe en' (cmd_Channel ?cmd) u st') = Stuck \<and>
       (\<forall>results. fst (hub_Publish en' clk (cmd_Channel ?cmd) a opts st') \<noteq> Returns results))"
    by (rule resubscribing_deadlocks [where old = "as_user 3 ''bob''" and d = "demo_client ''bob'' [''r'' \<mapsto> PermStandard]"])
      (simp_all add: as_user_def demo_env_def NewNamespaceManager_def GetByChannel_def DefaultNamespaceOptions_def
        zero_options_def ValidateChannel_def default_checker_def CheckSubscribe_def NewPermissionChecker_def findRule_def
        zero_rule_def roles_of_def apply_user_def optional_request_def zero_subscribe_def perm_Has_def perm_defs)
  then show ?thesis by auto
qed

text \<open>
  C33: Deleting a room that has a subscriber whose handler is open and subscribed to some channel never returns:
  the relay's mutex is held while the handler is closed, which asks the relay for its rooms.  From
  then on no publication, departure or deletion on the whole relay returns.
\<close>

theorem delete_room_deadlocks:
  assumes "\<not> hub_relayHeld st" and "rl_GetRoom (hub_relay st) roomID = Some h"
    and "rm_subscribers (room_at st h) u = Some sub" and "u \<in> set ord"
    and "hub_clients st (sub_handle sub) = Some d" and "\<not> cl_closed d"
    and "cl_subscriptions d ch \<noteq> None" and "ch \<in> set (en_subs en (sub_handle sub))" and "clients_below st"
  shows "\<exists>st' es. hub_DeleteRoom en ord roomID st = (Blocks, st', es) \<and>
    (\<forall>en' clk r v a opts ord'.
       fst (hub_Publish en' clk r a opts st') = Blocks \<and> fst (hub_Unsubscribe en' r v st') = Stuck \<and>
       fst (hub_DeleteRoom en' ord' r st') = Blocks)"
proof -
  let ?st1 = "st\<lparr>hub_relayHeld := True\<rparr>"
  have rest: "fst (hub_Publish en' clk r a opts st') = Blocks \<and> fst (hub_Unsubscribe en' r v st') = Stuck \<and>
       fst (hub_DeleteRoom en' ord' r st') = Blocks" if "hub_relayHeld st'"
    for st' :: "'a hub" and en' clk r v a opts ord'
    using that by (simp add: hub_Publish_def hub_Unsubscribe_def hub_DeleteRoom_def leave_room.simps)
  have "\<exists>st' es. hub_CloseRoom en ord h ?st1 = (Stuck, st', es) \<and> hub_relayHeld st'"
  proof (cases "h \<in> hub_held st")
    case True
    then show ?thesis by (simp add: hub_CloseRoom_def)
  next
    case False
    let ?st2 = "hold_room h (set_room h (Room_Stop (room_at ?st1 h)) ?st1)"
    let ?subs = "List.map_filter (rm_subscribers (room_at ?st1 h)) ord"
    have f: "hub_clients ?st2 = hub_clients st" "hub_relayHeld ?st2" "hub_next ?st2 = hub_next st"
      by (simp_all add: hold_room_def set_room_def set_relay_def)
    have o: "open_count ?st1 = open_count st" by (simp add: open_count_def)
    have n: "fuelled (open_count st) ?st2"
      using open_count_enough [OF assms(9)] f by (simp add: fuelled_def open_clients_def)
    have "sub \<in> set ?subs" using assms(3,4) by (force simp: List.map_filter_def)
    from close_subs_relay_held [OF this f(2) _ assms(6-8) n] assms(5) f(1)
    have s: "fst (close_subs en (open_count st) ?subs ?st2) = Stuck" by simp
    obtain p st' es where c: "close_subs en (open_count st) ?subs ?st2 = (p, st', es)" by (metis prod_cases3)
    with s have "p = Stuck" by simp
    moreover have "hub_relayHeld st'"
      using close_subs_frame [OF c n] f(2) unfolding closes_only_def by simp
    ultimately show ?thesis using False c o by (simp add: hub_CloseRoom_def Let_def)
  qed
  then obtain st' es where "hub_CloseRoom en ord h ?st1 = (Stuck, st', es)" "hub_relayHeld st'" by blast
  moreover from this have "hub_DeleteRoom en ord roomID st = (Blocks, st', es)"
    using assms(1,2) by (simp add: hub_DeleteRoom_def rl_GetRoom_def)
  ultimately show ?thesis using rest by blast
qed

theorem delete_room_deadlocks_witness:
  "fst (hub_DeleteRoom demo_env [''bob''] ''r''
     (demo_hub [] [3 \<mapsto> demo_client ''bob'' [''r'' \<mapsto> PermStandard]] [''bob'' \<mapsto> as_user 3 ''bob''])) = Blocks"
proof -
  let ?st = "demo_hub [] [3 \<mapsto> demo_client ''bob'' [''r'' \<mapsto> PermStandard]] [''bob'' \<mapsto> as_user 3 ''bob'']"
  have "\<exists>st' es. hub_DeleteRoom demo_env [''bob''] ''r'' ?st = (Blocks, st', es) \<and>
    (\<forall>en' clk r v a opts ord'.
       fst (hub_Publish en' clk r a opts st') = Blocks \<and> fst (hub_Unsubscribe en' r v st') = Stuck \<and>
       fst (hub_DeleteRoom en' ord' r st') = Blocks)"
    by (rule delete_room_deadlocks [where u = "''bob''" and sub = "as_user 3 ''bob''" and ch = "''r''"
          and d = "demo_client ''bob'' [''r'' \<mapsto> PermStandard]"])
      (simp_all add: as_user_def demo_env_def)
  then show ?thesis by auto
qed

section \<open>Closing\<close>

definition ends_well :: "'s hub \<Rightarrow> progress \<times> 's hub \<times> wire list \<Rightarrow> bool" where
  "ends_well st x \<longleftrightarrow>
     (case x of (p, st', es) \<Rightarrow> p \<noteq> OutOfFuel \<and> (p = Done \<longrightarrow> hub_held st' = hub_held st))"

text \<open>
  C13: Closing handlers always ends or deadlocks: the recursion through the rooms closes one more open handler at
  each level, so it never exceeds the number of open handlers, and when it ends every mutex it took is
  released.  This holds for closing a connection, for leaving a room and for replacing a subscriber.
\<close>

theorem closing_terminates:
  assumes "clients_below st"
  shows "ends_well st (client_Close en i st) \<and> ends_well st (hub_Unsubscribe en ch u st) \<and>
    ends_well st (hub_Subscribe en clk h sub info st)"
proof (intro conjI)
  show "ends_well st (client_Close en i st)"
    using open_count_enough [OF assms]
    by (cases "client_Close en i st") (auto simp: ends_well_def client_Close_def dest: close_frame)
  show "ends_well st (hub_Unsubscribe en ch u st)"
    using hub_Unsubscribe_frame(2,3) [OF _ assms]
    by (cases "hub_Unsubscribe en ch u st") (auto simp: ends_well_def)
  show "ends_well st (hub_Subscribe en clk h sub info st)"
    using hub_Subscribe_frame(2,3) [OF _ assms]
    by (cases "hub_Subscribe en clk h sub info st") (auto simp: ends_well_def)
qed

theorem closing_terminates_witness:
  "let st = demo_hub [] [3 \<mapsto> demo_client ''bob'' [''r'' \<mapsto> PermStandard]] [''bob'' \<mapsto> as_user 3 ''bob'']
   in ends_well st (client_Close demo_env 3 st)"
proof -
  have "clients_below (demo_hub [] [3 \<mapsto> demo_client ''bob'' [''r'' \<mapsto> PermStandard]] [''bob'' \<mapsto> as_user 3 ''bob''])"
    by simp
  from closing_terminates [OF this] show ?thesis unfolding Let_def by blast
qed

text \<open>
  C15: Closing a connection that is the registered subscriber of every channel it is subscribed to removes its user from
  each of those rooms and from no other, closes the transport once, at the end, and leaves no
  mutex held.
\<close>

theorem close_leaves_all_rooms:
  assumes "hub_clients st i = Some c" and "\<not> cl_closed c" and "clients_below st"
    and "owns st i (cl_userID c) (dom (cl_subscriptions c))"
    and "dom (cl_subscriptions c) \<subseteq> set (en_subs en i)"
  shows "\<exists>st' es. client_Close en i st = (Done, st', map Did es @ [TransportClosed i]) \<and>
    hub_clients st' = (hub_clients st)(i \<mapsto> closing c) \<and> hub_held st' = hub_held st \<and>
    (\<forall>h v. rm_subscribers (room_at st' h) v =
       (if v = cl_userID c \<and> (\<exists>ch \<in> dom (cl_subscriptions c). rl_GetRoom (hub_relay st) ch = Some h) then None
        else rm_subscribers (room_at st h) v))"
proof -
  define s where "s = \<lparr>sub_handle = i, sub_ID = ''''\<rparr>"
  have s: "sub_handle s = i" by (simp add: s_def)
  show ?thesis
    using close_own [of st s c "open_count st" en, unfolded s] assms open_count_enough [OF assms(3)]
    unfolding client_Close_def s_def [symmetric] by blast
qed

theorem close_leaves_all_rooms_witness:
  "\<exists>st' es. client_Close demo_env 3
     (demo_hub [] [3 \<mapsto> demo_client ''bob'' [''r'' \<mapsto> PermStandard]] [''bob'' \<mapsto> as_user 3 ''bob'']) =
     (Done, st', map Did es @ [TransportClosed 3]) \<and> rm_subscribers (room_at st' 0) ''bob'' = None"
proof -
  let ?st = "demo_hub [] [3 \<mapsto> demo_client ''bob'' [''r'' \<mapsto> PermStandard]] [''bob'' \<mapsto> as_user 3 ''bob'']"
  let ?c = "demo_client ''bob'' [''r'' \<mapsto> PermStandard]"
  have "owns ?st 3 (cl_userID ?c) (dom (cl_subscriptions ?c))"
    by (simp add: owns_def as_user_def)
  from close_leaves_all_rooms [of ?st 3 ?c demo_env, OF _ _ _ this] show ?thesis
    by (fastforce simp: demo_env_def)
qed

text \<open>
  C35: Unsubscribing from one channel ends the whole connection: a client that is the registered subscriber of its
  channels is closed by the room it leaves, its user is removed from the rooms of all its channels,
  and its transport is closed before the answer is written to it.
\<close>

theorem unsubscribe_closes_connection:
  assumes c: "hub_clients st i = Some c" "\<not> cl_closed c" "cl_connected c"
    and ch: "cmd_Channel cmd \<noteq> ''''" "cl_subscriptions c (cmd_Channel cmd) = Some perm"
    and room: "rl_GetRoom (hub_relay st) (cmd_Channel cmd) = Some h"
    and sub: "rm_subscribers (room_at st h) (cl_userID c) = Some sub" "sub_handle sub = i"
    and own: "owns st i (cl_userID c) (dom (cl_subscriptions c))"
    and other: "\<forall>ch'. rl_GetRoom (hub_relay st) ch' = Some h \<longrightarrow> ch' = cmd_Channel cmd"
    and ord: "dom (cl_subscriptions c) \<subseteq> set (en_subs en i)"
    and below: "clients_below st"
    and quiet: "\<not> no_JoinLeave (ns_Options (GetByChannel (en_prefixes en) (hub_nss st (cl_ns c)) (cmd_Channel cmd)))"
  shows "\<exists>st' es1 es2 d. handleUnsubscribe en i c cmd st =
      (write_result (en_reply en), st', map Did es1 @ [TransportClosed i] @ map Did es2 @ [Wrote i d]) \<and>
    (\<exists>c'. hub_clients st' i = Some c' \<and> cl_closed c') \<and>
    (\<forall>ch' \<in> dom (cl_subscriptions c). \<forall>h'. rl_GetRoom (hub_relay st) ch' = Some h' \<longrightarrow>
       rm_subscribers (room_at st' h') (cl_userID c) = None)"
proof -
  define c1 where "c1 = c\<lparr>cl_subscriptions := (cl_subscriptions c)(cmd_Channel cmd := None),
                      cl_chanInfo := (cl_chanInfo c)(cmd_Channel cmd := None)\<rparr>"
  have c1: "cl_userID c1 = cl_userID c" "cl_closed c1 = cl_closed c"
      "cl_subscriptions c1 = (cl_subscriptions c)(cmd_Channel cmd := None)"
    by (simp_all add: c1_def)
  define st1 where "st1 = set_client i c1 st"
  have st1: "hub_relay st1 = hub_relay st" "hub_held st1 = hub_held st" "hub_relayHeld st1 = hub_relayHeld st"
      "hub_nss st1 = hub_nss st"
    by (simp_all add: st1_def set_client_simps)
  have below1: "clients_below st1" using below c(1) by (auto simp: clients_below_def st1_def set_client_simps)
  have free: "\<not> hub_relayHeld st" "h \<notin> hub_held st" using own room ch(2) unfolding owns_def by blast+
  let ?st2 = "hold_room h st1"
  have 2: "hub_clients ?st2 (sub_handle sub) = Some c1" using sub(2) by (simp add: hold_room_def st1_def set_client_simps)
  have own2: "owns ?st2 (sub_handle sub) (cl_userID c1) (dom (cl_subscriptions c1))"
    using own other unfolding owns_def c1 sub(2) by (auto simp: hold_room_def st1)
  have n2: "fuelled (open_count st1) ?st2" using open_count_enough [OF below1] by simp
  have ord2: "dom (cl_subscriptions c1) \<subseteq> set (en_subs en (sub_handle sub))" using ord by (auto simp: c1 sub(2))
  have still: "\<not> cl_closed c1" using c(2) c1 by simp
  have hr: "hub_relay ?st2 = hub_relay st" by (simp add: hold_room_def st1)
  from close_own [OF 2 still n2 own2 ord2]
  obtain st3 es where cl: "close_sub en (open_count st1) sub ?st2 = (Done, st3, map Did es @ [TransportClosed i])"
      and st3: "hub_clients st3 = (hub_clients ?st2)(i \<mapsto> closing c1)"
        "\<forall>h v. rm_subscribers (room_at st3 h) v =
           (if v = cl_userID c \<and> (\<exists>ch \<in> dom (cl_subscriptions c1). rl_GetRoom (hub_relay st) ch = Some h) then None
            else rm_subscribers (room_at st h) v)"
    unfolding c1 sub(2) hr by blast
  obtain room' es' where u: "Room_Unsubscribe (en_uclk en h (cl_userID c)) (rl_hasHandler (hub_relay st3)) (cl_userID c)
      (room_at st3 h) = (room', es')"
    by fastforce
  have keep: "rm_subscribers (room_at st3 h) (cl_userID c) = Some sub"
    using st3(2) other sub(1) by (auto simp: c1 dom_def)
  with u have room': "rm_subscribers room' = (rm_subscribers (room_at st3 h))(cl_userID c := None)"
      and "\<exists>evs. events_of es' = map Did evs"
    by (auto simp: Room_Unsubscribe_def emit_def split: if_splits intro: exI [of _ "[]"] exI [of _ "[Emit _]"])
  then obtain evs where evs: "events_of es' = map Did evs" by blast
  let ?st4 = "release_room h (set_room h room' st3)"
  have "hub_Unsubscribe en (cmd_Channel cmd) (cl_userID c) st1 =
      (Done, ?st4, (map Did es @ [TransportClosed i]) @ map Did evs)"
    using free room sub(1) cl u evs
    by (simp add: hub_Unsubscribe_def leave_room.simps st1 rl_GetRoom_def)
  moreover have "hub_nss ?st4 = hub_nss st"
    using close_frame(1) [OF cl] st1(4) unfolding closes_only_def
    by (simp add: release_room_def set_room_def set_relay_def hold_room_def)
  moreover obtain d where "EncodeReply \<lparr>rp_ID = cmd_ID cmd, rp_Error = None, rp_Result = Some ''{}''\<rparr> = Some d"
    by (cases "cmd_ID cmd = 0") (auto simp: EncodeReply_def marshal_object_def raw_mem_def omitempty_def int_mem_def marshal_raw_def
        json_parse_def max_depth_def skip_ws_def json_space_def parse_value.simps)
  ultimately have "handleUnsubscribe en i c cmd st = (write_result (en_reply en), ?st4,
      map Did es @ [TransportClosed i] @ map Did evs @ [Wrote i d])"
    using c(3) ch quiet
    by (simp add: handleUnsubscribe_def unsubscribe_channel_def on_channel_def Let_def c1_def [symmetric] st1_def [symmetric] wrote_before_def
        sendResult_def SuccessReply_def marshal_empty_def marshal_object_def json_object_def sendReply_def send_data_def)
  moreover have "hub_clients ?st4 i = Some (closing c1)"
    using st3(1) by (simp add: release_room_def set_room_def set_relay_def)
  moreover have "\<forall>ch' \<in> dom (cl_subscriptions c). \<forall>h'. rl_GetRoom (hub_relay st) ch' = Some h' \<longrightarrow>
       rm_subscribers (room_at ?st4 h') (cl_userID c) = None"
    using st3(2) room' by (auto simp: release_room_def set_room_def set_relay_def c1 room)
  ultimately show ?thesis by (metis closing_simps(1))
qed

theorem unsubscribe_closes_connection_witness:
  "\<exists>st' es1 es2 d. handleUnsubscribe demo_env 3 (demo_client ''bob'' [''r'' \<mapsto> PermStandard])
     \<lparr>cmd_ID = 2, cmd_Type = ''unsubscribe'', cmd_Channel = ''r'', cmd_Data = None\<rparr>
     (demo_hub [] [3 \<mapsto> demo_client ''bob'' [''r'' \<mapsto> PermStandard]] [''bob'' \<mapsto> as_user 3 ''bob'']) =
     (Returns (), st', map Did es1 @ [TransportClosed 3] @ map Did es2 @ [Wrote 3 d])"
proof -
  let ?c = "demo_client ''bob'' [''r'' \<mapsto> PermStandard]"
  let ?st = "demo_hub [] [3 \<mapsto> ?c] [''bob'' \<mapsto> as_user 3 ''bob'']"
  have own: "owns ?st 3 (cl_userID ?c) (dom (cl_subscriptions ?c))"
    by (simp add: owns_def as_user_def)
  have rooms: "\<forall>ch'. rl_GetRoom (hub_relay ?st) ch' = Some 0 \<longrightarrow> ch' = ''r''"
    by (simp add: demo_hub_def rl_GetRoom_def mini_relay_def rl_CreateRoom_def relay_over_def NewRoomConfig_def)
  show ?thesis
    using unsubscribe_closes_connection [of ?st 3 ?c "\<lparr>cmd_ID = 2, cmd_Type = ''unsubscribe'', cmd_Channel = ''r'', cmd_Data = None\<rparr>"
        PermStandard 0 "as_user 3 ''bob''" demo_env] own rooms
    by (simp add: as_user_def demo_env_def write_result_def GetByChannel_def NewNamespaceManager_def
        DefaultNamespaceOptions_def zero_options_def) blast
qed

end
