(* ===== verification/Canonical.thy ===== *)
theory Canonical
  imports Protocol
begin

text \<open>
  The texts the encoders of the protocol produce are canonical: the parser reads each back to one value,
  whatever follows it in a document, and compacting it again changes nothing.  A compacted raw message is
  canonical too, and has the value of the text it was made from.
\<close>

section \<open>Compacting quoted strings\<close>

definition plain_char :: "char \<Rightarrow> bool" where
  "plain_char c \<longleftrightarrow> c \<noteq> dquote \<and> c \<noteq> bslash \<and> c \<noteq> CHR ''<'' \<and> c \<noteq> CHR ''>'' \<and> c \<noteq> CHR ''&'' \<and> c \<noteq> CHR 0xE2"

lemma compact_plain: "plain_char c \<Longrightarrow> compact True (c # s) = c # compact True s"
  by (simp add: plain_char_def)

lemma compact_escape: "compact True (bslash # e # s) = bslash # e # compact True s"
  by simp

lemma hex_char_plain: "n < 16 \<Longrightarrow> plain_char (hex_char n)"
proof -
  have "\<forall>n \<in> {..<16}. plain_char (hex_char n)" by code_simp
  then show "n < 16 \<Longrightarrow> plain_char (hex_char n)" by simp
qed

declare compact.simps(2) [simp del]

lemma compact_plains: "list_all plain_char p \<Longrightarrow> compact True (p @ s) = p @ compact True s"
  by (induction p) (simp_all add: compact_plain)

lemma compact_u_escape: "compact True (u_escape r @ s) = u_escape r @ compact True s"
proof -
  have "list_all plain_char (hex4 r)" by (simp add: hex4_def hex_char_plain)
  then show ?thesis by (simp add: u_escape_def compact_escape compact_plains)
qed

lemma compact_quote_ascii:
  assumes "byte_of c < 0x80"
  shows "compact True (quote_ascii c @ s) = quote_ascii c @ compact True s"
proof -
  have E2: "c \<noteq> CHR 0xE2" using assms by auto
  have p: "compact True (c # s) = c # compact True s"
    if "c \<noteq> dquote" "c \<noteq> bslash" "c \<noteq> CHR ''<''" "c \<noteq> CHR ''>''" "c \<noteq> CHR ''&''"
    using that E2 by (intro compact_plain) (simp add: plain_char_def)
  show ?thesis
    using p compact_escape [of dquote s] compact_escape [of bslash s] compact_escape [of "CHR ''n''" s]
      compact_escape [of "CHR ''r''" s] compact_escape [of "CHR ''t''" s] compact_u_escape [of "byte_of c" s]
    unfolding quote_ascii_def by (auto simp del: of_char_of)
qed

text \<open>A rune of several bytes that is no line separator is copied.\<close>

lemma high_plain: "0x80 \<le> byte_of c \<Longrightarrow> c \<noteq> CHR 0xE2 \<Longrightarrow> plain_char c"
  by (auto simp: plain_char_def)

lemma cont_plain: "cont_byte c \<Longrightarrow> plain_char c"
  by (auto simp: plain_char_def cont_byte_def)

lemma compact_E2:
  assumes "take 3 (CHR 0xE2 # s) \<noteq> [CHR 0xE2, CHR 0x80, CHR 0xA8]" and "take 3 (CHR 0xE2 # s) \<noteq> [CHR 0xE2, CHR 0x80, CHR 0xA9]"
  shows "compact True (CHR 0xE2 # s) = CHR 0xE2 # compact True s"
  using assms by (simp add: compact.simps(2))

lemma compact_rune:
  assumes "\<not> byte_of c < 0x80" and "\<not> bad_rune (c # s)" and "fst (decode_rune (c # s)) \<notin> {0x2028, 0x2029}"
  shows "compact True (take (snd (decode_rune (c # s))) (c # s) @ t) =
    take (snd (decode_rune (c # s))) (c # s) @ compact True t"
proof -
  have ne: "c # s \<noteq> []" by simp
  from ne assms(2) show ?thesis
  proof (cases rule: decode_rune_cases)
    case (one c' u)
    with assms(1) show ?thesis by simp
  next
    case (two c0 c1 u)
    have "plain_char c0" using two(3,4) by (intro high_plain) auto
    with two cont_plain [of c1] show ?thesis by (simp add: compact_plain)
  next
    case (three c0 c1 c2 u)
    have p: "compact True (c1 # c2 # t) = c1 # c2 # compact True t"
      using three(2,3) by (simp add: compact_plain cont_plain)
    show ?thesis
    proof (cases "c0 = CHR 0xE2")
      case False
      with three(4) have "plain_char c0" by (intro high_plain) auto
      with three p show ?thesis by (simp add: compact_plain)
    next
      case True
      have "\<not> (c1 = CHR 0x80 \<and> (c2 = CHR 0xA8 \<or> c2 = CHR 0xA9))"
      proof
        assume "c1 = CHR 0x80 \<and> (c2 = CHR 0xA8 \<or> c2 = CHR 0xA9)"
        with three(8) True assms(3) show False by auto
      qed
      then have "compact True (CHR 0xE2 # c1 # c2 # t) = CHR 0xE2 # compact True (c1 # c2 # t)"
        by (intro compact_E2) auto
      with three True p show ?thesis by simp
    qed
  next
    case (four c0 c1 c2 c3 u)
    have "plain_char c0" using four(5) by (intro high_plain) auto
    with four show ?thesis by (simp add: compact_plain cont_plain)
  qed
qed

lemma compact_quote_body: "compact True (quote_body s @ t) = quote_body s @ compact True t"
proof (induction s rule: quote_body.induct)
  case 1
  then show ?case by simp
next
  case (2 c s)
  let ?d = "decode_rune (c # s)"
  show ?case
  proof (cases "byte_of c < 0x80")
    case True
    with 2(1) [OF True] show ?thesis
      by (simp add: quote_body.simps(2) compact_quote_ascii)
  next
    case False
    from 2(2) [OF False] have IH: "compact True (quote_body (drop (snd ?d) (c # s)) @ t) =
        quote_body (drop (snd ?d) (c # s)) @ compact True t" .
    show ?thesis
    proof (cases "bad_rune (c # s) \<or> fst ?d \<in> {0x2028, 0x2029}")
      case True
      with False IH show ?thesis
        by (auto simp add: quote_body.simps(2) compact_u_escape simp del: decode_rune.simps)
    next
      case good: False
      with False IH compact_rune [OF False] show ?thesis
        by (simp add: quote_body.simps(2) del: decode_rune.simps)
    qed
  qed
qed

lemma compact_quote: "compact False (quote s @ t) = quote s @ compact False t"
proof -
  have q: "compact True (dquote # t) = dquote # compact False t" by (simp add: compact.simps(2))
  have "compact False (dquote # u) = dquote # compact True u" for u
    by (simp add: compact.simps(2) json_space_def)
  then show ?thesis using compact_quote_body [of s "dquote # t"] q by (simp add: quote_def)
qed

section \<open>Canonical texts\<close>

text \<open>What may follow a value inside a document.\<close>

definition stops :: "string \<Rightarrow> bool" where
  "stops r \<longleftrightarrow> r = [] \<or> hd r \<in> set '',}]''"

definition prints :: "nat \<Rightarrow> string \<Rightarrow> jvalue \<Rightarrow> bool" where
  "prints d s v \<longleftrightarrow>
     (\<forall>r. stops r \<longrightarrow> parse_value d (s @ r) = Some (v, r)) \<and>
     (\<exists>c t. s = c # t \<and> \<not> json_space c \<and> c \<noteq> CHR '']'') \<and>
     (\<forall>t. compact False (s @ t) = s @ compact False t)"

lemma stops_simps [simp]: "stops []" "stops (CHR '','' # r)" "stops (CHR ''}'' # r)" "stops (CHR '']'' # r)"
  by (simp_all add: stops_def)

lemma prints_parse: "prints d s v \<Longrightarrow> stops r \<Longrightarrow> parse_value d (s @ r) = Some (v, r)"
  by (simp add: prints_def)

lemma prints_compact: "prints d s v \<Longrightarrow> compact False (s @ t) = s @ compact False t"
  by (simp add: prints_def)

lemma prints_skip: "prints d s v \<Longrightarrow> skip_ws (s @ r) = s @ r"
  by (auto simp: prints_def skip_ws_no_space)

lemma prints_document:
  assumes "prints max_depth s v"
  shows "json_parse s = Some v" and "compact False s = s" and "s \<noteq> []"
  using prints_parse [OF assms, of "[]"] prints_skip [OF assms, of "[]"] prints_compact [OF assms, of "[]"] assms
  by (auto simp: json_parse_def skip_ws_def prints_def)

lemma prints_quote: "prints d (quote s) (JStr (sanitize s))"
  unfolding prints_def by (simp add: parse_quoted compact_quote) (simp add: quote_def json_space_def)

text \<open>Characters outside strings that are no space are copied.\<close>

lemma compact_bare: "list_all (\<lambda>c. \<not> json_space c \<and> c \<noteq> dquote) p \<Longrightarrow> compact False (p @ t) = p @ compact False t"
  by (induction p) (simp_all add: compact.simps(2))

lemma prints_literals:
  "prints d ''true'' (JBool True)" "prints d ''false'' (JBool False)" "prints d ''null'' JNull"
  unfolding prints_def
  by (simp_all add: parse_value.simps parse_literal_def strip_prefix_def json_space_def compact.simps(2))

lemma nat_digits_zero [simp]: "nat_digits 0 = ''0''"
  by (simp add: nat_digits.simps digit_char_def)

lemma nat_digits_hd: "0 < n \<Longrightarrow> hd (nat_digits n) \<noteq> CHR ''0''"
proof (induction n rule: nat_digits.induct)
  case (1 n)
  show ?case
  proof (cases "n < 10")
    case True
    with 1(2) have "of_char (digit_char n) \<noteq> (48 :: nat)" by simp
    then have "digit_char n \<noteq> CHR ''0''" by auto
    with True show ?thesis by (simp add: nat_digits.simps [of n])
  next
    case False
    with 1(1) have "hd (nat_digits (n div 10)) \<noteq> CHR ''0''" by simp
    with False show ?thesis by (subst nat_digits.simps) simp
  qed
qed

lemma stops_number: "stops r \<Longrightarrow> (r = [] \<or> \<not> is_digit (hd r)) \<and> frac_part r = Some ([], r) \<and> exp_part r = Some ([], r)"
  by (cases r) (auto simp: stops_def is_digit_def frac_part_def exp_part_def)

lemma int_part_digits: "stops r \<Longrightarrow> int_part (nat_digits n @ r) = Some (nat_digits n, r)"
proof -
  assume "stops r"
  with stops_number have sp: "takeWhile is_digit (nat_digits n @ r) = nat_digits n"
    by (intro span_digits [OF nat_digits_digits]) auto
  show ?thesis
  proof (cases "n = 0")
    case True
    with sp show ?thesis by (simp add: int_part_def)
  next
    case False
    with nat_digits_hd [of n] sp show ?thesis by (simp add: int_part_def)
  qed
qed

lemma digit_bare: "is_digit c \<Longrightarrow> \<not> json_space c \<and> c \<noteq> dquote \<and> c \<noteq> CHR ''{'' \<and> c \<noteq> CHR ''['' \<and> c \<noteq> CHR '']'' \<and>
    c \<noteq> CHR ''n'' \<and> c \<noteq> CHR ''t'' \<and> c \<noteq> CHR ''f'' \<and> c \<noteq> CHR ''-''"
  by (auto simp: is_digit_def json_space_def)

lemma parse_number_int: "stops r \<Longrightarrow> parse_number (FormatInt n @ r) = Some (FormatInt n, r)"
proof -
  assume r: "stops r"
  show ?thesis
  proof (cases "n < 0")
    case True
    with int_part_digits [OF r, of "nat (- n)"] stops_number [OF r] show ?thesis
      by (simp add: FormatInt_def parse_number_def)
  next
    case False
    obtain c cs where c: "nat_digits (nat n) = c # cs" "is_digit c" using nat_digits_Cons [of "nat n"] by blast
    with False int_part_digits [OF r, of "nat n"] stops_number [OF r] digit_bare [OF c(2)] show ?thesis
      by (simp add: FormatInt_def parse_number_def)
  qed
qed

lemma FormatInt_head: "\<exists>c cs. FormatInt n = c # cs \<and> (is_digit c \<or> c = CHR ''-'')"
  using FormatInt_chars [of "hd (FormatInt n)" n] by (cases "FormatInt n") auto

lemma head_bare: "is_digit c \<or> c = CHR ''-'' \<Longrightarrow> \<not> json_space c \<and> c \<noteq> dquote \<and> c \<noteq> CHR ''{'' \<and> c \<noteq> CHR ''['' \<and>
    c \<noteq> CHR '']'' \<and> c \<noteq> CHR ''n'' \<and> c \<noteq> CHR ''t'' \<and> c \<noteq> CHR ''f''"
  by (auto simp: is_digit_def json_space_def)

lemma parse_literal_number:
  assumes "c \<noteq> CHR ''n'' \<and> c \<noteq> CHR ''t'' \<and> c \<noteq> CHR ''f''"
  shows "parse_literal (c # s) = map_option (\<lambda>(n, r). (JNum n, r)) (parse_number (c # s))"
  using assms by (simp add: parse_literal_def strip_prefix_def)

lemma parse_value_literal:
  assumes "c \<noteq> dquote \<and> c \<noteq> CHR ''{'' \<and> c \<noteq> CHR ''[''"
  shows "parse_value d (c # s) = parse_literal (c # s)"
  using assms by (subst parse_value.simps) simp

lemma prints_int: "prints d (FormatInt n) (JNum (FormatInt n))"
proof -
  obtain c cs where c: "FormatInt n = c # cs" "is_digit c \<or> c = CHR ''-''" using FormatInt_head [of n] by blast
  note b = head_bare [OF c(2)]
  have "parse_value d (FormatInt n @ r) = Some (JNum (FormatInt n), r)" if "stops r" for r
    using parse_number_int [OF that, of n] b unfolding c(1)
    by (simp only: append_Cons parse_value_literal parse_literal_number option.map prod.case simp_thms)
  moreover have "list_all (\<lambda>c. \<not> json_space c \<and> c \<noteq> dquote) (FormatInt n)"
  proof (rule list_all_iff [THEN iffD2], rule ballI)
    fix x assume "x \<in> set (FormatInt n)"
    from head_bare [OF FormatInt_chars [OF this]] show "\<not> json_space x \<and> x \<noteq> dquote" by blast
  qed
  then have "compact False (FormatInt n @ t) = FormatInt n @ compact False t" for t
    by (rule compact_bare)
  ultimately show ?thesis unfolding prints_def using b c(1) by blast
qed

text \<open>Objects, from the name, text and value of each member, and arrays.\<close>

definition object_members :: "(string \<times> string \<times> jvalue) list \<Rightarrow> (string \<times> string) list" where
  "object_members ms = map (\<lambda>(k, s, v). (k, s)) ms"

definition object_value :: "(string \<times> string \<times> jvalue) list \<Rightarrow> jvalue" where
  "object_value ms = JObj (map (\<lambda>(k, s, v). (sanitize k, s, v)) ms)"

lemma member_step:
  assumes "prints d s v"
  shows "parse_members d (quote k @ CHR '':'' # s @ CHR ''}'' # r) = Some ([(sanitize k, s, v)], r)"
    and "parse_members d (quote k @ CHR '':'' # s @ CHR '','' # r) =
      map_option (\<lambda>(ms, r). ((sanitize k, s, v) # ms, r)) (parse_members d (skip_ws r))"
proof -
  have p: "parse_string (quote_body k @ dquote # u) = Some (sanitize k, u)" for u
    by (rule parse_quote_body)
  have c: "parse_value d (s @ CHR '','' # r) = Some (v, CHR '','' # r)"
    using assms by (rule prints_parse) simp
  have e: "parse_value d (s @ CHR ''}'' # r) = Some (v, CHR ''}'' # r)"
    using assms by (rule prints_parse) simp
  have "s \<noteq> []" using assms by (auto simp: prints_def)
  then show "parse_members d (quote k @ CHR '':'' # s @ CHR ''}'' # r) = Some ([(sanitize k, s, v)], r)"
    "parse_members d (quote k @ CHR '':'' # s @ CHR '','' # r) =
      map_option (\<lambda>(ms, r). ((sanitize k, s, v) # ms, r)) (parse_members d (skip_ws r))"
    by (subst parse_members.simps,
        simp add: quote_def p skip_ws_no_space json_space_def prints_skip [OF assms] c e Let_def)+
qed

lemma parse_members_printed:
  "ms \<noteq> [] \<Longrightarrow> list_all (\<lambda>(k, s, v). prints d s v) ms \<Longrightarrow>
   parse_members d (join_with '','' (map (\<lambda>(k, s). quote k @ '':'' @ s) (object_members ms)) @ CHR ''}'' # r) =
     Some (map (\<lambda>(k, s, v). (sanitize k, s, v)) ms, r)"
proof (induction ms rule: list_nonempty_induct)
  case (single m)
  then show ?case by (cases m) (simp add: object_members_def member_step)
next
  case (cons m ms)
  obtain k s v where m: "m = (k, s, v)" by (cases m)
  from cons(1) obtain k' s' v' ms' where ms: "ms = (k', s', v') # ms'" by (cases ms) auto
  let ?rest = "join_with '','' (map (\<lambda>(k, s). quote k @ '':'' @ s) (object_members ms)) @ CHR ''}'' # r"
  have "skip_ws ?rest = ?rest"
    by (cases ms') (simp_all add: ms object_members_def skip_quote)
  moreover have "prints d s v" using cons.prems m by simp
  ultimately show ?case
    using cons m ms member_step(2) [of d s v k] by (simp add: object_members_def)
qed

lemma compact_join:
  assumes "list_all (\<lambda>s. \<forall>t. compact False (s @ t) = s @ compact False t) ss"
  shows "compact False (join_with '','' ss @ t) = join_with '','' ss @ compact False t"
  using assms
proof (induction "'','' :: string" ss rule: join_with.induct)
  case (3 s s' ss)
  have "compact False (CHR '','' # u) = CHR '','' # compact False u" for u
    by (simp add: compact.simps(2) json_space_def)
  with 3 show ?case by simp
qed simp_all

lemma compact_bracket:
  "compact False (CHR ''{'' # u) = CHR ''{'' # compact False u" "compact False (CHR ''}'' # u) = CHR ''}'' # compact False u"
  "compact False (CHR ''['' # u) = CHR ''['' # compact False u" "compact False (CHR '']'' # u) = CHR '']'' # compact False u"
  "compact False (CHR '':'' # u) = CHR '':'' # compact False u"
  by (simp_all add: compact.simps(2) json_space_def)

lemma prints_object:
  assumes "list_all (\<lambda>(k, s, v). prints d s v) ms"
  shows "prints (Suc d) (json_object (object_members ms)) (object_value ms)"
proof -
  let ?body = "join_with '','' (map (\<lambda>(k, s). quote k @ '':'' @ s) (object_members ms))"
  have "parse_value (Suc d) (json_object (object_members ms) @ r) = Some (object_value ms, r)" for r
  proof (cases "ms = []")
    case True
    then show ?thesis
      by (simp add: json_object_def object_members_def object_value_def parse_value.simps skip_ws_no_space json_space_def)
  next
    case False
    then obtain k s v ms' where "ms = (k, s, v) # ms'" by (cases ms) auto
    then obtain u where u: "?body @ CHR ''}'' # r = dquote # u"
      by (cases ms') (simp_all add: object_members_def quote_def)
    with parse_members_printed [OF False assms, of r] show ?thesis
      by (simp add: json_object_def object_value_def parse_value.simps skip_ws_no_space json_space_def)
  qed
  moreover have "compact False (?body @ t) = ?body @ compact False t" for t
  proof (rule compact_join)
    have "compact False ((quote k @ '':'' @ s) @ t) = (quote k @ '':'' @ s) @ compact False t" if "prints d s v" for k s v t
      using prints_compact [OF that] by (simp add: compact_quote compact_bracket)
    then show "list_all (\<lambda>s. \<forall>t. compact False (s @ t) = s @ compact False t)
        (map (\<lambda>(k, s). quote k @ '':'' @ s) (object_members ms))"
      using assms by (auto simp: object_members_def list_all_iff)
  qed
  ultimately show ?thesis by (simp add: prints_def json_object_def compact_bracket json_space_def)
qed

section \<open>Encoders\<close>

text \<open>The members an encoder writes, beside what they print and their values.\<close>

definition printed :: "nat \<Rightarrow> (string \<times> string option) list \<Rightarrow> (string \<times> string \<times> jvalue) list \<Rightarrow> bool" where
  "printed d fs ms \<longleftrightarrow> list_all2 (\<lambda>(k, t) (k', s, v). k = k' \<and> t = Some s \<and> prints d s v) fs ms"

lemma printed_Nil [simp, intro]: "printed d [] []"
  by (simp add: printed_def)

lemma printed_one [intro]: "prints d s v \<Longrightarrow> printed d [(k, Some s)] [(k, s, v)]"
  by (simp add: printed_def)

lemma printed_append [intro]: "printed d fs ms \<Longrightarrow> printed d gs ns \<Longrightarrow> printed d (fs @ gs) (ms @ ns)"
  by (simp add: printed_def list_all2_appendI)

definition str_value :: "string \<Rightarrow> string \<Rightarrow> (string \<times> string \<times> jvalue) list" where
  "str_value k s = (if s = '''' then [] else [(k, quote s, JStr (sanitize s))])"

definition int_value :: "string \<Rightarrow> int \<Rightarrow> (string \<times> string \<times> jvalue) list" where
  "int_value k n = (if n = 0 then [] else [(k, FormatInt n, JNum (FormatInt n))])"

lemma printed_members [intro]:
  "printed d (str_mem k s) (str_value k s)" "printed d (int_mem k n) (int_value k n)"
  by (auto simp: str_mem_def int_mem_def omitempty_def str_value_def int_value_def intro: prints_quote prints_int)

lemma all_some_printed:
  "printed d fs ms \<Longrightarrow> all_some (map snd fs) = Some (map (\<lambda>(k, s, v). s) ms) \<and> map fst fs = map fst ms \<and>
     list_all (\<lambda>(k, s, v). prints d s v) ms"
  unfolding printed_def by (induction fs ms rule: list_all2_induct) auto

lemma marshal_printed:
  assumes "printed d fs ms"
  shows "\<exists>s. marshal_object fs = Some s \<and> prints (Suc d) s (object_value ms)"
proof -
  note a = all_some_printed [OF assms]
  have "zip (map fst ms) (map (\<lambda>(k, s, v). s) ms) = object_members ms"
    by (induction ms) (auto simp: object_members_def)
  with a prints_object [of d ms] show ?thesis by (simp add: marshal_object_def)
qed

text \<open>A raw message that prints is copied as it is.\<close>

lemma prints_mono_document: "prints max_depth s v \<Longrightarrow> marshal_raw (Some s) = Some s"
  using prints_document by (simp add: marshal_raw_def)

lemma printed_raw:
  assumes "prints max_depth s v" and "prints d s v"
  shows "printed d (raw_mem k (Some s)) [(k, s, v)]"
  using prints_document(3) [OF assms(1)] prints_mono_document [OF assms(1)] assms(2)
  by (auto simp: raw_mem_def omitempty_def)

text \<open>Printing under every smaller nesting.\<close>

definition nested :: "nat \<Rightarrow> string \<Rightarrow> jvalue \<Rightarrow> bool" where
  "nested d s v \<longleftrightarrow> (\<forall>e. d \<le> e \<longrightarrow> prints e s v)"

lemma nested_leaf: "nested d (quote s) (JStr (sanitize s))" "nested d (FormatInt n) (JNum (FormatInt n))"
  "nested d ''true'' (JBool True)" "nested d ''false'' (JBool False)" "nested d ''null'' JNull"
  by (simp_all add: nested_def prints_quote prints_int prints_literals)

lemma nested_prints: "nested d s v \<Longrightarrow> d \<le> e \<Longrightarrow> prints e s v"
  by (simp add: nested_def)

lemma nested_object:
  assumes "list_all (\<lambda>(k, s, v). nested d s v) ms"
  shows "nested (Suc d) (json_object (object_members ms)) (object_value ms)"
  unfolding nested_def
proof (intro allI impI)
  fix e assume "Suc d \<le> e"
  then obtain f where f: "e = Suc f" "d \<le> f" by (cases e) auto
  have "list_all (\<lambda>(k, s, v). prints f s v) ms"
    using assms f(2) by (auto simp: list_all_iff nested_def)
  then show "prints e (json_object (object_members ms)) (object_value ms)"
    unfolding f(1) by (rule prints_object)
qed

lemma marshal_nested:
  assumes "\<And>e. d \<le> e \<Longrightarrow> printed e fs ms"
  shows "\<exists>s. marshal_object fs = Some s \<and> nested (Suc d) s (object_value ms)"
proof -
  from assms [of d] all_some_printed have a: "all_some (map snd fs) = Some (map (\<lambda>(k, s, v). s) ms)"
      "map fst fs = map fst ms" by auto
  have "zip (map fst ms) (map (\<lambda>(k, s, v). s) ms) = object_members ms"
    by (induction ms) (auto simp: object_members_def)
  moreover have "list_all (\<lambda>(k, s, v). nested d s v) ms"
    using all_some_printed [OF assms] by (fastforce simp: list_all_iff nested_def)
  ultimately show ?thesis using a nested_object by (simp add: marshal_object_def)
qed

section \<open>Commands\<close>

text \<open>How a client that uses the same struct writes a command.\<close>

definition marshal_command :: "client_command \<Rightarrow> string option" where
  "marshal_command cmd =
     marshal_object
       (int_mem ''id'' (int (cmd_ID cmd)) @ [(''type'', Some (quote (cmd_Type cmd)))] @
        str_mem ''channel'' (cmd_Channel cmd) @ raw_mem ''data'' (cmd_Data cmd))"

lemma ParseUint_FormatInt: "n < 2 ^ 64 \<Longrightarrow> ParseUint (FormatInt (int n)) = Some n"
  by (simp add: ParseUint_def FormatInt_def)

lemma ascii_valid: "list_all (\<lambda>c. byte_of c < 0x80) s \<Longrightarrow> valid_utf8 s"
proof (induction s)
  case (Cons c s)
  then have "decode_rune (c # s) = (byte_of c, 1)" "byte_of c \<noteq> rune_error" by (auto simp: rune_error_def Let_def)
  with Cons show ?case by (simp add: valid_utf8.simps(2) bad_rune_def del: decode_rune.simps)
qed simp

lemma sanitize_names [simp]:
  "sanitize ''id'' = ''id''" "sanitize ''type'' = ''type''" "sanitize ''channel'' = ''channel''"
  "sanitize ''data'' = ''data''" "sanitize ''info'' = ''info''" "sanitize ''offset'' = ''offset''"
  "sanitize ''user'' = ''user''" "sanitize ''client'' = ''client''" "sanitize ''message'' = ''message''"
  by (simp_all add: sanitize_valid ascii_valid)

lemma command_reads_back:
  assumes "cmd_ID cmd < 2 ^ 64" and "valid_utf8 (cmd_Type cmd)" and "valid_utf8 (cmd_Channel cmd)"
    and "\<forall>s. cmd_Data cmd = Some s \<longrightarrow> (\<exists>v. nested (max_depth - 1) s v)"
  shows "\<exists>text. marshal_command cmd = Some text \<and> ParseCommand text = Some cmd"
proof -
  let ?d = "max_depth - 1"
  obtain datas where data: "printed ?d (raw_mem ''data'' (cmd_Data cmd)) datas"
      "datas = [] \<and> cmd_Data cmd = None \<or> (\<exists>s v. cmd_Data cmd = Some s \<and> datas = [(''data'', s, v)])"
  proof (cases "cmd_Data cmd")
    case None
    then show ?thesis using that [of "[]"] by (simp add: raw_mem_def omitempty_def)
  next
    case (Some s)
    with assms(4) obtain v where "nested ?d s v" by blast
    then have "prints max_depth s v" "prints ?d s v" by (auto intro: nested_prints)
    from printed_raw [OF this, of "''data''"] Some have "printed ?d (raw_mem ''data'' (cmd_Data cmd)) [(''data'', s, v)]"
      by simp
    with that Some show ?thesis by blast
  qed
  let ?ms = "int_value ''id'' (int (cmd_ID cmd)) @ [(''type'', quote (cmd_Type cmd), JStr (sanitize (cmd_Type cmd)))] @
      str_value ''channel'' (cmd_Channel cmd) @ datas"
  have "printed ?d (int_mem ''id'' (int (cmd_ID cmd)) @ [(''type'', Some (quote (cmd_Type cmd)))] @
        str_mem ''channel'' (cmd_Channel cmd) @ raw_mem ''data'' (cmd_Data cmd)) ?ms"
    using data(1) by (intro printed_append printed_one prints_quote printed_members)
  from marshal_printed [OF this] obtain out where t: "marshal_command cmd = Some out"
      "prints (Suc ?d) out (object_value ?ms)"
    by (auto simp: marshal_command_def)
  have "Suc ?d = max_depth" by (simp add: max_depth_def)
  with t(2) have "json_parse out = Some (object_value ?ms)" by (metis prints_document(1))
  with data(2) assms(1-3) have "ParseCommand out = Some cmd"
    by (auto simp: ParseCommand_def unmarshal_def object_value_def int_value_def str_value_def command_fields_def
        find_field_def uint_field_def string_field_def raw_field_def ParseUint_FormatInt sanitize_valid zero_command_def)
  with t(1) show ?thesis by blast
qed

definition command_valid :: "client_command \<Rightarrow> bool" where
  "command_valid cmd \<longleftrightarrow>
     cmd_ID cmd < 2 ^ 64 \<and> valid_utf8 (cmd_Type cmd) \<and> valid_utf8 (cmd_Channel cmd) \<and>
     (\<forall>s. cmd_Data cmd = Some s \<longrightarrow> (\<exists>v. nested (max_depth - 1) s v))"

interpretation command_text: document marshal_command ParseCommand command_valid
  by unfold_locales (simp add: command_valid_def command_reads_back)

text \<open>
  C24: A command written with the struct's own encoder is read back exactly, for every ID of 64 bits, any type and
  channel in UTF-8 and any canonical JSON text as data, or none.
\<close>

theorem parse_command_roundtrip:
  assumes "cmd_ID cmd < 2 ^ 64" and "valid_utf8 (cmd_Type cmd)" and "valid_utf8 (cmd_Channel cmd)"
    and "\<forall>s. cmd_Data cmd = Some s \<longrightarrow> (\<exists>v. nested (max_depth - 1) s v)"
  shows "\<exists>text. marshal_command cmd = Some text \<and> ParseCommand text = Some cmd"
  using assms by (rule command_reads_back)

theorem parse_command_roundtrip_witness:
  "\<exists>text. marshal_command \<lparr>cmd_ID = 7, cmd_Type = ''publish'', cmd_Channel = ''r'', cmd_Data = Some ''42''\<rparr> = Some text \<and>
    ParseCommand text = Some \<lparr>cmd_ID = 7, cmd_Type = ''publish'', cmd_Channel = ''r'', cmd_Data = Some ''42''\<rparr>"
proof -
  have "FormatInt 42 = ''42''" by (simp add: FormatInt_def nat_digits.simps digit_char_def)
  with nested_leaf(2) [of "max_depth - 1" 42] have "\<exists>v. nested (max_depth - 1) ''42'' v" by auto
  then show ?thesis
    by (intro parse_command_roundtrip) (simp_all add: ascii_valid)
qed

end
