(* ===== verification/Wire.thy ===== *)
theory Wire
  imports HandlerRights Deadlocks Canonical RelayProps
begin

text \<open>
  From one client to the others: the push a handler writes for a message, what it reads back as, and that a publication
  accepted from one client is written once to every other handler subscribed to the channel.
\<close>

section \<open>Pushes\<close>

text \<open>The members of a publication as a client reads them.\<close>

definition user_value :: "string \<Rightarrow> jvalue" where
  "user_value u = object_value [(''user'', quote u, JStr (sanitize u)), (''client'', quote '''', JStr '''')]"

definition user_text :: "string \<Rightarrow> string" where
  "user_text u = json_object [(''user'', quote u), (''client'', quote '''')]"

definition publication_members :: "string \<Rightarrow> string \<Rightarrow> jvalue \<Rightarrow> string \<Rightarrow> (string \<times> string \<times> jvalue) list" where
  "publication_members i data v sender =
     str_value ''offset'' i @ [(''data'', data, v)] @
     (if sender = '''' then [] else [(''info'', user_text sender, user_value sender)])"

lemma sanitize_Nil [simp]: "sanitize '''' = ''''"
  by simp

lemma marshal_user: "marshal_client_info \<lparr>nf_User = u, nf_Client = '''', nf_ConnInfo = None, nf_ChanInfo = None\<rparr> = Some (user_text u)"
  by (simp add: marshal_client_info_def marshal_object_def raw_mem_def omitempty_def user_text_def)

lemma nested_user: "nested 1 (user_text u) (user_value u)"
proof -
  let ?ms = "[(''user'', quote u, JStr (sanitize u)), (''client'', quote '''', JStr '''')]"
  have "list_all (\<lambda>(k, s, v). nested 0 s v) ?ms"
    using nested_leaf(1) [of 0 u] nested_leaf(1) [of 0 "''''"] by simp
  from nested_object [OF this] show ?thesis
    by (simp add: user_text_def user_value_def object_members_def)
qed

lemma nested_mono: "nested d s v \<Longrightarrow> d \<le> e \<Longrightarrow> nested e s v"
  by (auto simp: nested_def)

lemma marshal_raw_nested: "nested d s v \<Longrightarrow> d \<le> max_depth \<Longrightarrow> marshal_raw (Some s) = Some s"
  using prints_mono_document nested_prints by blast

lemma printed_Cons [intro]: "prints d s v \<Longrightarrow> printed d fs ms \<Longrightarrow> printed d ((k, Some s) # fs) ((k, s, v) # ms)"
  by (simp add: printed_def)

lemma publication_prints:
  assumes "nested d data v" and "1 \<le> d" and "d \<le> max_depth" and "msg_Content msg = Some data"
  shows "\<exists>s. marshal_publication (publication_of msg) = Some s \<and>
    nested (Suc d) s (object_value (publication_members (msg_ID msg) data v (msg_SenderID msg)))"
proof -
  let ?fs = "str_mem ''offset'' (msg_ID msg) @ [(''data'', marshal_raw (Some data))] @
     (if msg_SenderID msg = '''' then [] else [(''info'', Some (user_text (msg_SenderID msg)))])"
  have "marshal_publication (publication_of msg) = marshal_object ?fs"
    using assms(4) by (simp add: marshal_publication_def publication_of_def omitempty_def marshal_user)
  moreover have "printed e ?fs (publication_members (msg_ID msg) data v (msg_SenderID msg))" if "d \<le> e" for e
  proof -
    have "prints e (user_text u) (user_value u)" for u
      using nested_prints [OF nested_user] assms(2) that by simp
    then show ?thesis
      unfolding publication_members_def marshal_raw_nested [OF assms(1,3)]
      using nested_prints [OF assms(1) that] by auto
  qed
  ultimately show ?thesis using marshal_nested [of d ?fs] by metis
qed

lemma push_reads_back:
  assumes "nested (max_depth - 2) data v" and "msg_Content msg = Some data" and "valid_utf8 (msg_RoomID msg)"
    and "msg_RoomID msg \<noteq> ''''"
  shows "\<exists>out raw. message_push msg = Some out \<and> json_parse out = Some (JObj
    [(''type'', quote ''message'', JStr ''message''), (''channel'', quote (msg_RoomID msg), JStr (msg_RoomID msg)),
     (''data'', raw, object_value (publication_members (msg_ID msg) data v (msg_SenderID msg)))])"
proof -
  let ?d = "max_depth - 2"
  have d: "1 \<le> ?d" "?d \<le> max_depth" "Suc (Suc ?d) = max_depth" by (simp_all add: max_depth_def)
  let ?v = "object_value (publication_members (msg_ID msg) data v (msg_SenderID msg))"
  from publication_prints [OF assms(1) d(1,2) assms(2)] obtain raw where
    raw: "marshal_publication (publication_of msg) = Some raw" "nested (Suc ?d) raw ?v" by blast
  have p: "prints max_depth raw ?v" "prints (Suc ?d) raw ?v"
    using raw(2) d(3) by (auto intro: nested_prints)
  let ?ms = "[(''type'', quote ''message'', JStr (sanitize ''message''))] @ str_value ''channel'' (msg_RoomID msg) @ [(''data'', raw, ?v)]"
  have "printed (Suc ?d) ([(''type'', Some (quote ''message''))] @ str_mem ''channel'' (msg_RoomID msg) @
      raw_mem ''data'' (Some raw)) ?ms"
    by (intro printed_append printed_one prints_quote printed_members printed_raw p)
  from marshal_printed [OF this] obtain out where o: "message_push msg = Some out" "prints max_depth out (object_value ?ms)"
    unfolding d(3) by (auto simp: message_push_def NewPublicationPush_def raw(1) EncodePush_def)
  with prints_document(1) [OF o(2)] assms(3,4) show ?thesis
    by (auto simp: object_value_def str_value_def sanitize_valid)
qed

text \<open>
  The push a handler writes for a message whose content is a canonical JSON text is a JSON object with the type
  "message", the room as its channel and, as its data, the message ID, that very text and the sender, if it has one.
\<close>

theorem message_push_reads_back:
  assumes "nested (max_depth - 2) data v" and "msg_Content msg = Some data" and "valid_utf8 (msg_RoomID msg)"
    and "msg_RoomID msg \<noteq> ''''"
  shows "\<exists>out raw. message_push msg = Some out \<and> json_parse out = Some (JObj
    [(''type'', quote ''message'', JStr ''message''), (''channel'', quote (msg_RoomID msg), JStr (msg_RoomID msg)),
     (''data'', raw, object_value (publication_members (msg_ID msg) data v (msg_SenderID msg)))])"
  using assms by (rule push_reads_back)

theorem message_push_reads_back_witness:
  "\<exists>out raw. message_push \<lparr>msg_ID = ''1-0'', msg_RoomID = ''r'', msg_SenderID = ''ann'', msg_Type = ''text'',
      msg_Content = Some (quote ''hi''), msg_Metadata = Map.empty, msg_Timestamp = 0\<rparr> = Some out \<and>
    json_parse out = Some (JObj
      [(''type'', quote ''message'', JStr ''message''), (''channel'', quote ''r'', JStr ''r''),
       (''data'', raw, object_value (publication_members ''1-0'' (quote ''hi'') (JStr ''hi'') ''ann''))])"
proof -
  have "sanitize ''hi'' = ''hi''" by (simp add: sanitize_valid ascii_valid)
  then have "nested (max_depth - 2) (quote ''hi'') (JStr ''hi'')" by (metis nested_leaf(1))
  from message_push_reads_back [OF this, of "\<lparr>msg_ID = ''1-0'', msg_RoomID = ''r'', msg_SenderID = ''ann'', msg_Type = ''text'',
      msg_Content = Some (quote ''hi''), msg_Metadata = Map.empty, msg_Timestamp = 0\<rparr>"]
  show ?thesis by (simp add: ascii_valid)
qed

section \<open>What a publication writes\<close>

lemma safeDeliver_receives_only: "SubReceive t \<in> set (snd (Room_safeDeliver now hh rid mid u s f)) \<Longrightarrow> t = s"
  by (auto simp: Room_safeDeliver_def emit_def split: prod.splits attempt_result.splits if_splits)

lemma Broadcast_receives_only:
  "SubReceive t \<in> set (snd (Room_Broadcast now hh rx fin r msg opts)) \<Longrightarrow> \<exists>u. rm_subscribers r u = Some t"
  by (auto simp: Room_Broadcast_def broadcast_def Let_def dest!: safeDeliver_receives_only split: option.splits if_splits)

definition writes_to :: "nat \<Rightarrow> wire \<Rightarrow> bool" where
  "writes_to j w \<longleftrightarrow> (case w of Wrote k _ \<Rightarrow> k = j | _ \<Rightarrow> False)"

lemma writes_to_simps [simp]:
  "writes_to j (Wrote k d) = (k = j)" "\<not> writes_to j (TransportClosed k)" "\<not> writes_to j (Did e)"
  by (simp_all add: writes_to_def)

lemma writes_of_receives:
  assumes c: "hub_clients st (sub_handle s) = Some d" "\<not> cl_closed d" "message_push msg = Some out"
  shows "(\<And>t. SubReceive t \<in> set es \<Longrightarrow> sub_handle t = sub_handle s \<Longrightarrow> t = s) \<Longrightarrow>
    filter (writes_to (sub_handle s)) (wires_of st msg es) = replicate (receives s es) (Wrote (sub_handle s) out)"
proof (induction es)
  case (Cons e es)
  have IH: "filter (writes_to (sub_handle s)) (wires_of st msg es) = replicate (receives s es) (Wrote (sub_handle s) out)"
    using Cons by (meson list.set_intros(2))
  show ?case
  proof (cases e)
    case (SubReceive t)
    show ?thesis
    proof (cases "t = s")
      case True
      have "filter (writes_to (sub_handle s)) (receive_effect st msg s) = [Wrote (sub_handle s) out]"
        using c by (simp add: receive_effect_def)
      with IH True SubReceive show ?thesis by simp
    next
      case False
      with Cons.prems SubReceive have "sub_handle t \<noteq> sub_handle s" by auto
      then have "filter (writes_to (sub_handle s)) (receive_effect st msg t) = []"
        by (auto simp: receive_effect_def split: option.splits)
      with IH SubReceive False show ?thesis by simp
    qed
  qed (use IH in \<open>simp_all add: receives_def\<close>)
qed simp

text \<open>Whether a handler can encode a message does not depend on the ID the message gets.\<close>

lemma all_some_None_iff: "all_some xs = None \<longleftrightarrow> None \<in> set xs"
  by (induction xs) (auto split: option.split)

lemma publication_encodable:
  "marshal_publication (publication_of msg) = None \<longleftrightarrow> marshal_raw (msg_Content msg) = None"
proof -
  have "marshal_publication (publication_of msg) = None \<longleftrightarrow>
      None \<in> set (map snd (str_mem ''offset'' (msg_ID msg))) \<or> marshal_raw (msg_Content msg) = None"
    by (auto simp: marshal_publication_def marshal_object_def all_some_None_iff publication_of_def omitempty_def marshal_user)
  then show ?thesis by (auto simp: str_mem_def omitempty_def)
qed

section \<open>From one client to the others\<close>

lemma hub_Publish_writes:
  assumes p: "hub_Publish en clk ch a (Some o') st = (Returns results, st', es)"
    and room: "rl_GetRoom (hub_relay st) ch = Some h" "table_ok (rm_subscribers (room_at st h)) (rm_presence (room_at st h))"
    and s: "rm_subscribers (room_at st h) (sub_ID s) = Some s" "sub_ID s \<in> set (en_fin en)"
      "\<And>t u. rm_subscribers (room_at st h) u = Some t \<Longrightarrow> sub_handle t = sub_handle s \<Longrightarrow> t = s"
      "\<not> skipped (Some o') (msg_SenderID (rl_msgs (hub_relay st) a)) (sub_ID s)"
    and d: "hub_clients st (sub_handle s) = Some d" "\<not> cl_closed d" "en_push en (sub_handle s) 0 = None"
    and data: "nested (max_depth - 2) data v" "msg_Content (rl_msgs (hub_relay st) a) = Some data"
    and name: "valid_utf8 ch" "ch \<noteq> ''''"
  shows "\<exists>i out raw. msg_ID (rl_msgs (hub_relay st') a) = i \<and> filter (writes_to (sub_handle s)) es = [Wrote (sub_handle s) out] \<and>
    json_parse out = Some (JObj
      [(''type'', quote ''message'', JStr ''message''), (''channel'', quote ch, JStr ch),
       (''data'', raw, object_value (publication_members i data v (msg_SenderID (rl_msgs (hub_relay st) a))))])"
proof -
  let ?r = "hub_relay st"
  let ?m0 = "dated (clk 0) ch (rl_msgs ?r a)"
  let ?rx = "client_Receive en st ?m0"
  have m0: "msg_Content ?m0 = Some data" "msg_RoomID ?m0 = ch" "msg_SenderID ?m0 = msg_SenderID (rl_msgs ?r a)"
    using data(2) by (simp_all add: dated_def)
  obtain x r' es0 where rp: "rl_Publish (en_exec en) (en_fields en) clk ?rx (en_fin en) ch a (Some o') ?r = (x, r', es0)"
    by (metis prod_cases3)
  have free: "\<not> hub_relayHeld st" using p by (auto simp: hub_Publish_def)
  with p rp obtain rs where x: "x = Returns rs" by (cases x) (auto simp: hub_Publish_def Let_def)
  with p rp free have st': "st' = set_relay r' st" and es: "es = wires_of st (rl_msgs r' a) es0"
    by (auto simp: hub_Publish_def Let_def split: if_splits)
  have given: "opts_or_default (Some o') = o'" for o' by (simp add: opts_or_default_def)
  from publish_returns [OF rp [unfolded x] room(1), unfolded given] obtain i ev where
    m: "rl_msgs r' a = ?m0\<lparr>msg_ID := i\<rparr>"
    and es0: "es0 = snd (Room_Broadcast (clk 1) (rl_hasHandler ?r) ?rx (en_fin en) (rl_heap ?r h) (rl_msgs r' a) (Some o')) @
         emit (rl_hasHandler ?r) ev"
    by blast
  from push_reads_back [of data v "?m0\<lparr>msg_ID := i\<rparr>"] data(1) m0 name obtain out raw where
    push: "message_push (?m0\<lparr>msg_ID := i\<rparr>) = Some out"
    and parsed: "json_parse out = Some (JObj
      [(''type'', quote ''message'', JStr ''message''), (''channel'', quote ch, JStr ch),
       (''data'', raw, object_value (publication_members i data v (msg_SenderID (rl_msgs ?r a))))])"
    by auto
  from push_reads_back [of data v ?m0] data(1) m0 name obtain out0 where push0: "message_push ?m0 = Some out0"
    by auto
  have "?rx s 0 = RecvOk" using d push0 by (simp add: client_Receive_def)
  from Room_Broadcast_receives [where rx = ?rx, OF room(2) s(1,2) this] s(4) m0(3) m
  have one: "receives s es0 = 1" by (simp add: es0)
  have only: "t = s" if "SubReceive t \<in> set es0" "sub_handle t = sub_handle s" for t
    using that Broadcast_receives_only s(3) unfolding es0 by (fastforce simp: emit_def split: if_splits)
  have "filter (writes_to (sub_handle s)) es = [Wrote (sub_handle s) out]"
    using writes_of_receives [OF d(1,2), of "rl_msgs r' a" out es0] push only one by (simp add: es m)
  with parsed m show ?thesis by (simp add: st' set_relay_def)
qed
text \<open>
  C1: A publish command that passes the checks and returns is answered with the error 105 only, or else every open
  handler subscribed to the channel under another user gets exactly one write: a push that reads back
  as the message, with the channel, the published data, the publisher and the very message ID that the
  publisher gets in the reply.
\<close>

theorem publish_reaches_subscribers:
  assumes run: "handlePublish en i c cmd st = (Returns (), st', es)"
    and may: "cl_connected c" "may_publish c (hub_perms st (cl_perm c)) (cmd_Channel cmd)" "cl_subscriptions c (cmd_Channel cmd) \<noteq> None"
      "no_Publish (ns_Options (GetByChannel (en_prefixes en) (hub_nss st (cl_ns c)) (cmd_Channel cmd)))"
    and data: "unmarshal publish_fields (content_text (cmd_Data cmd)) zero_publish = (\<lparr>pq_Data = Some data\<rparr>, True)"
      "nested (max_depth - 2) data v"
    and name: "valid_utf8 (cmd_Channel cmd)" "cmd_Channel cmd \<noteq> ''''"
    and room: "rl_GetRoom (hub_relay st) (cmd_Channel cmd) = Some h"
      "table_ok (rm_subscribers (room_at st h)) (rm_presence (room_at st h))"
    and s: "rm_subscribers (room_at st h) (sub_ID s) = Some s" "sub_ID s \<in> set (en_fin en)" "sub_handle s \<noteq> i" "sub_ID s \<noteq> cl_userID c"
      "\<forall>t u. rm_subscribers (room_at st h) u = Some t \<longrightarrow> sub_handle t = sub_handle s \<longrightarrow> t = s"
    and d: "hub_clients st (sub_handle s) = Some d" "\<not> cl_closed d" "en_push en (sub_handle s) 0 = None"
  shows "(\<exists>d. EncodeReply (ErrorReply (cmd_ID cmd) 105 ''failed to publish'') = Some d \<and> es = [Wrote i d]) \<or>
    (\<exists>mid raw out answer. filter (writes_to (sub_handle s)) es = [Wrote (sub_handle s) out] \<and>
      json_parse out = Some (JObj
        [(''type'', quote ''message'', JStr ''message''), (''channel'', quote (cmd_Channel cmd), JStr (cmd_Channel cmd)),
         (''data'', raw, object_value (publication_members mid data v (cl_userID c)))]) \<and>
      EncodeReply \<lparr>rp_ID = cmd_ID cmd, rp_Error = None, rp_Result = marshal_publish_result \<lparr>pr_Offset = mid\<rparr>\<rparr> = Some answer \<and>
      last es = Wrote i answer)"
proof -
  let ?ch = "cmd_Channel cmd"
  let ?m = "publish_message en c ?ch (Some data)"
  let ?o = "\<lparr>po_SkipSender = True, po_Priority = 0, po_TTL = 0, po_Persist = 0 < no_HistorySize
      (ns_Options (GetByChannel (en_prefixes en) (hub_nss st (cl_ns c)) ?ch))\<rparr>"
  obtain a st1 where a: "new_message ?m st = (a, st1)" by fastforce
  have st1: "rl_msgs (hub_relay st1) a = ?m" "rl_GetRoom (hub_relay st1) = rl_GetRoom (hub_relay st)"
      "rl_heap (hub_relay st1) = rl_heap (hub_relay st)" "hub_clients st1 = hub_clients st"
    using a by (auto simp: new_message_def set_relay_def rl_GetRoom_def fun_eq_iff)
  have m: "msg_SenderID ?m = cl_userID c" "msg_Content ?m = Some data" by (simp_all add: publish_message_def)
  obtain x st2 es2 where p: "hub_Publish en (\<lambda>k. en_clk en (2 + k)) ?ch a (Some ?o) st1 = (x, st2, es2)" by (metis prod_cases3)
  have run': "handlePublish en i c cmd st = (case (x, st2, es2) of
       (Returns _, st2, es) \<Rightarrow>
         wrote_before es (sendResult en i (cmd_ID cmd)
             (marshal_publish_result \<lparr>pr_Offset = msg_ID (rl_msgs (hub_relay st2) a)\<rparr>) st2)
     | (Fails _, st2, es) \<Rightarrow> wrote_before es (sendError en i (cmd_ID cmd) ErrCodeInternal ''failed to publish'' st2)
     | (Panics, st2, es) \<Rightarrow> (Panics, st2, es)
     | (Blocks, st2, es) \<Rightarrow> (Blocks, st2, es))"
    using may name(2) data(1) a p
    by (auto simp: handlePublish_def on_channel_def publish_channel_def Let_def)
  show ?thesis
  proof (cases x)
    case (Fails e)
    then have "es2 = []" using p by (auto simp: hub_Publish_def Let_def split: if_splits prod.splits outcome.splits option.splits)
    with Fails run run' sendError_eq [of "cmd_ID cmd" 105 "''failed to publish''" en i st2] show ?thesis
      by (auto simp: wrote_before_def ErrCodeInternal_def)
  next
    case (Returns rs)
    have "\<not> skipped (Some ?o) (msg_SenderID (rl_msgs (hub_relay st1) a)) (sub_ID s)"
      using s(4) m(1) st1(1) by (simp add: skipped_def)
    from hub_Publish_writes [OF p [unfolded Returns], of h s d data v] this room s(1,2,5) d data(2) name st1 m
    obtain mid out raw where w: "msg_ID (rl_msgs (hub_relay st2) a) = mid"
        "filter (writes_to (sub_handle s)) es2 = [Wrote (sub_handle s) out]"
      and parsed: "json_parse out = Some (JObj
        [(''type'', quote ''message'', JStr ''message''), (''channel'', quote ?ch, JStr ?ch),
         (''data'', raw, object_value (publication_members mid data v (cl_userID c)))])"
      by auto
    from run run' Returns w(1) obtain answer where
      "EncodeReply \<lparr>rp_ID = cmd_ID cmd, rp_Error = None, rp_Result = marshal_publish_result \<lparr>pr_Offset = mid\<rparr>\<rparr> = Some answer"
      "es = es2 @ [Wrote i answer]"
      by (auto simp: wrote_before_def sendResult_def SuccessReply_def sendReply_def send_data_def split: prod.splits option.splits)
    with w(2) parsed s(3) show ?thesis by (intro disjI2) (simp, blast)
  qed (use run run' in auto)
qed


section \<open>The publication on the sample hub\<close>

lemma publish_data:
  assumes "nested (max_depth - 1) data v"
  shows "unmarshal publish_fields (json_object [(''data'', data)]) zero_publish = (\<lparr>pq_Data = Some data\<rparr>, True)"
proof -
  have "list_all (\<lambda>(k, s, v). nested (max_depth - 1) s v) [(''data'', data, v)]" using assms by simp
  from nested_object [OF this] have "nested max_depth (json_object [(''data'', data)]) (object_value [(''data'', data, v)])"
    by (simp add: object_members_def max_depth_def)
  then have "json_parse (json_object [(''data'', data)]) = Some (object_value [(''data'', data, v)])"
    using prints_document(1) nested_prints by blast
  then show ?thesis
    by (simp add: unmarshal_def object_value_def publish_fields_def find_field_def raw_field_def zero_publish_def)
qed

lemma demo_publish_returns:
  assumes "rl_GetRoom (hub_relay st) ch = Some h" and "hub_held st = {}" and "\<not> hub_relayHeld st"
  shows "\<exists>rs st' es. hub_Publish demo_env clk ch a opts st = (Returns rs, st', es)"
proof -
  have ord: "set (en_fields demo_env) = dom (message_fields m)" for m
    by (auto simp: demo_env_def dom_message_fields)
  have p: "\<exists>i s'. publishToStream (en_exec demo_env) (en_fields demo_env) prefix ch m s = (Returns i, s')" for prefix m s
    using publishToStream_law [OF mini_redis_laws ord] by (simp add: demo_env_def) blast
  have "\<exists>i s'. on_redis (publishToStream (en_exec demo_env) (en_fields demo_env) prefix ch m) f r = (Returns i, r\<lparr>rl_redis := s'\<rparr>)"
    for prefix m f and r :: "mini_redis relay"
  proof -
    from p obtain i s' where "publishToStream (en_exec demo_env) (en_fields demo_env) prefix ch m (rl_redis r) = (Returns i, s')"
      by blast
    then show ?thesis by (simp add: on_redis_def) (metis surj_pair)
  qed
  note o' = this
  let ?rx = "client_Receive demo_env st (dated (clk 0) ch (rl_msgs (hub_relay st) a))"
  have "\<exists>rs r' es. rl_Publish (en_exec demo_env) (en_fields demo_env) clk ?rx (en_fin demo_env) ch a opts (hub_relay st) =
      (Returns rs, r', es)"
  proof (cases "po_Persist (opts_or_default opts)")
    case True
    let ?msg = "dated (clk 0) ch (rl_msgs (hub_relay st) a)"
    from o' obtain i s' where "on_redis (publishToStream (en_exec demo_env) (en_fields demo_env) (rl_prefix (hub_relay st)) ch ?msg)
        (\<lambda>e. Within ''failed to persist message'' (RedisErr e))
        ((hub_relay st)\<lparr>rl_msgs := (rl_msgs (hub_relay st))(a := ?msg)\<rparr>) =
      (Returns i, (hub_relay st)\<lparr>rl_msgs := (rl_msgs (hub_relay st))(a := ?msg)\<rparr>\<lparr>rl_redis := s'\<rparr>)" by blast
    with assms(1) True show ?thesis unfolding rl_Publish_def by (simp add: Let_def split: prod.split)
  next
    case False
    with assms(1) show ?thesis by (auto simp: rl_Publish_def Let_def split: prod.split)
  qed
  then show ?thesis using assms by (auto simp: hub_Publish_def Let_def)
qed

lemma publish_answer:
  "\<exists>answer. EncodeReply \<lparr>rp_ID = n, rp_Error = None, rp_Result = marshal_publish_result \<lparr>pr_Offset = m\<rparr>\<rparr> = Some answer"
proof -
  have "\<exists>s. marshal_object (str_mem ''offset'' m) = Some s \<and> nested (Suc 0) s (object_value (str_value ''offset'' m))"
    by (rule marshal_nested) blast
  then obtain s v where s: "marshal_publish_result \<lparr>pr_Offset = m\<rparr> = Some s" "nested 1 s v"
    by (auto simp: marshal_publish_result_def)
  have "marshal_raw (Some s) = Some s" by (rule marshal_raw_nested [OF s(2)]) (simp add: max_depth_def)
  then show ?thesis by (simp add: EncodeReply_def s(1) marshal_object_def int_mem_def raw_mem_def omitempty_def)
qed

lemma answer_is_no_error:
  assumes "EncodeReply (ErrorReply 0 code text') = Some d"
    and "EncodeReply \<lparr>rp_ID = 0, rp_Error = None, rp_Result = Some (CHR ''{'' # s)\<rparr> = Some d'"
  shows "d \<noteq> d'"
proof -
  have "take 3 d = [CHR ''{'', dquote, CHR ''e'']"
    using assms(1) by (auto simp: EncodeReply_def ErrorReply_def NewError_def marshal_error_def marshal_object_def int_mem_def
        omitempty_def raw_mem_def json_object_def quote_def quote_body.simps(2) quote_ascii_def)
  moreover obtain z where "marshal_raw (Some (CHR ''{'' # s)) = Some z"
    using assms(2) by (cases "marshal_raw (Some (CHR ''{'' # s))") (auto simp: EncodeReply_def marshal_object_def int_mem_def omitempty_def raw_mem_def content_text_def)
  then have "take 3 d' = [CHR ''{'', dquote, CHR ''r'']"
    using assms(2) by (auto simp: EncodeReply_def marshal_object_def int_mem_def omitempty_def raw_mem_def json_object_def
        quote_def quote_body.simps(2) quote_ascii_def split: if_splits)
  ultimately show ?thesis by force
qed

abbreviation "demo_pub \<equiv>
  \<lparr>cmd_ID = 0, cmd_Type = ''publish'', cmd_Channel = ''r'', cmd_Data = Some (json_object [(''data'', ''true'')])\<rparr>"

abbreviation "demo_room \<equiv>
  demo_hub [] [4 \<mapsto> demo_client ''ann'' [''r'' \<mapsto> PermStandard], 3 \<mapsto> demo_client ''bob'' [''r'' \<mapsto> PermStandard]]
    [''ann'' \<mapsto> as_user 4 ''ann'', ''bob'' \<mapsto> as_user 3 ''bob'']"

lemma demo_checks:
  "unmarshal publish_fields (content_text (cmd_Data demo_pub)) zero_publish = (\<lparr>pq_Data = Some ''true''\<rparr>, True)"
  "GetByChannel (en_prefixes demo_env) (hub_nss demo_room k) ch = nm_defaultNS NewNamespaceManager"
  "no_Publish (ns_Options (nm_defaultNS NewNamespaceManager))"
  "may_publish (demo_client ''ann'' [''r'' \<mapsto> PermStandard]) (hub_perms demo_room k) ''r''"
  using publish_data [OF nested_leaf(3)]
  by (simp_all add: content_text_def demo_env_def GetByChannel_def NewNamespaceManager_def DefaultNamespaceOptions_def
      zero_options_def may_publish_def perm_Has_def perm_defs)

lemma hub_Publish_next: "hub_next (fst (snd (hub_Publish en clk ch a opts st))) = hub_next st"
  by (auto simp: hub_Publish_def Let_def set_relay_def split: prod.split outcome.split)

lemma demo_publish_run:
  "\<exists>st' es answer. handlePublish demo_env 4 (demo_client ''ann'' [''r'' \<mapsto> PermStandard]) demo_pub demo_room =
      (Returns (), st', es @ [Wrote 4 answer]) \<and> st' \<noteq> demo_room \<and>
    (\<forall>d m. EncodeReply (ErrorReply 0 105 m) = Some d \<longrightarrow> d \<noteq> answer)"
proof -
  let ?c = "demo_client ''ann'' [''r'' \<mapsto> PermStandard]"
  let ?st = demo_room and ?cmd = demo_pub
  let ?m = "publish_message demo_env ?c ''r'' (Some ''true'')"
  obtain a st1 where a: "new_message ?m ?st = (a, st1)" by fastforce
  then have "rl_GetRoom (hub_relay st1) ''r'' = Some 0" "hub_held st1 = {}" "\<not> hub_relayHeld st1"
    by (auto simp: new_message_def set_relay_def rl_GetRoom_def)
  from demo_publish_returns [OF this] obtain rs st2 es2 where
    p: "hub_Publish demo_env (\<lambda>k. en_clk demo_env (2 + k)) ''r'' a (Some \<lparr>po_SkipSender = True, po_Priority = 0, po_TTL = 0,
      po_Persist = 0 < no_HistorySize (ns_Options (nm_defaultNS NewNamespaceManager))\<rparr>) st1 = (Returns rs, st2, es2)"
    by blast
  obtain answer where ans: "EncodeReply \<lparr>rp_ID = 0, rp_Error = None,
      rp_Result = marshal_publish_result \<lparr>pr_Offset = msg_ID (rl_msgs (hub_relay st2) a)\<rparr>\<rparr> = Some answer"
    using publish_answer by blast
  have res: "\<exists>s. marshal_publish_result \<lparr>pr_Offset = m\<rparr> = Some (CHR ''{'' # s)" for m
    by (auto simp: marshal_publish_result_def marshal_object_def str_mem_def omitempty_def json_object_def)
  have "no_SubscribeToPublish (ns_Options (nm_defaultNS NewNamespaceManager)) \<longrightarrow> cl_subscriptions ?c ''r'' \<noteq> None" by simp
  with demo_checks a p ans res [of "msg_ID (rl_msgs (hub_relay st2) a)"]
  have run: "handlePublish demo_env 4 ?c ?cmd ?st = (Returns (), st2, es2 @ [Wrote 4 answer])"
    by (auto simp: handlePublish_def on_channel_def publish_channel_def wrote_before_def sendResult_def SuccessReply_def
        sendReply_def send_data_def write_result_def)
      (simp add: demo_env_def)+
  have distinct: "d \<noteq> answer" if "EncodeReply (ErrorReply (cmd_ID ?cmd) 105 m) = Some d" for d m
  proof -
    from res obtain s where "marshal_publish_result \<lparr>pr_Offset = msg_ID (rl_msgs (hub_relay st2) a)\<rparr> = Some (CHR ''{'' # s)" by blast
    from answer_is_no_error [OF _ ans [unfolded this]] that show ?thesis by simp
  qed
  have "hub_next st2 = hub_next st1" using hub_Publish_next [of demo_env _ "''r''" a _ st1] p by (metis fst_conv snd_conv)
  then have "hub_next st2 = 11" using a by (auto simp: new_message_def set_relay_def)
  then have "st2 \<noteq> ?st" by auto
  with run distinct show ?thesis by (metis client_command.select_convs(1))
qed

theorem publish_reaches_subscribers_witness:
  "\<exists>st' es mid raw out. handlePublish demo_env 4 (demo_client ''ann'' [''r'' \<mapsto> PermStandard]) demo_pub demo_room = (Returns (), st', es) \<and>
    filter (writes_to 3) es = [Wrote 3 out] \<and>
    json_parse out = Some (JObj
      [(''type'', quote ''message'', JStr ''message''), (''channel'', quote ''r'', JStr ''r''),
       (''data'', raw, object_value (publication_members mid ''true'' (JBool True) ''ann''))])"
proof -
  let ?c = "demo_client ''ann'' [''r'' \<mapsto> PermStandard]" and ?st = demo_room and ?cmd = demo_pub
  obtain st2 es2 answer where run: "handlePublish demo_env 4 ?c ?cmd ?st = (Returns (), st2, es2 @ [Wrote 4 answer])"
    and distinct: "\<forall>d m. EncodeReply (ErrorReply 0 105 m) = Some d \<longrightarrow> d \<noteq> answer"
    using demo_publish_run by blast
  have n: "nested (max_depth - 2) ''true'' (JBool True)" by (rule nested_leaf)
  let ?s = "as_user 3 ''bob''" and ?d = "demo_client ''bob'' [''r'' \<mapsto> PermStandard]"
  have c: "cl_connected ?c" "may_publish ?c (hub_perms ?st (cl_perm ?c)) (cmd_Channel ?cmd)"
      "cl_subscriptions ?c (cmd_Channel ?cmd) \<noteq> None"
      "no_Publish (ns_Options (GetByChannel (en_prefixes demo_env) (hub_nss ?st (cl_ns ?c)) (cmd_Channel ?cmd)))"
    unfolding demo_checks(2) using demo_checks(3,4) by simp_all
  have ch: "valid_utf8 (cmd_Channel ?cmd)" "cmd_Channel ?cmd \<noteq> ''''" by (simp_all add: ascii_valid)
  have room: "rl_GetRoom (hub_relay ?st) (cmd_Channel ?cmd) = Some 0"
      "table_ok (rm_subscribers (room_at ?st 0)) (rm_presence (room_at ?st 0))"
    by (simp, auto simp: demo_hub_def table_ok_def as_user_def split: if_splits)
  have sub: "rm_subscribers (room_at ?st 0) (sub_ID ?s) = Some ?s" "sub_ID ?s \<in> set (en_fin demo_env)" "sub_handle ?s \<noteq> 4"
      "sub_ID ?s \<noteq> cl_userID ?c" "\<forall>t u. rm_subscribers (room_at ?st 0) u = Some t \<longrightarrow> sub_handle t = sub_handle ?s \<longrightarrow> t = ?s"
    by (auto simp: as_user_def demo_env_def)
  have d: "hub_clients ?st (sub_handle ?s) = Some ?d" "\<not> cl_closed ?d" "en_push demo_env (sub_handle ?s) 0 = None"
    by (simp_all add: as_user_def demo_env_def)
  note publish_reaches_subscribers [OF run c demo_checks(1) n ch room sub d]
  moreover have "\<not> (\<exists>d. EncodeReply (ErrorReply (cmd_ID ?cmd) 105 ''failed to publish'') = Some d \<and> es2 @ [Wrote 4 answer] = [Wrote 4 d])"
    using distinct by force
  ultimately obtain mid raw out where "filter (writes_to 3) (es2 @ [Wrote 4 answer]) = [Wrote 3 out]"
      "json_parse out = Some (JObj
        [(''type'', quote ''message'', JStr ''message''), (''channel'', quote ''r'', JStr ''r''),
         (''data'', raw, object_value (publication_members mid ''true'' (JBool True) ''ann''))])"
    by (simp add: as_user_def) blast
  with run show ?thesis by blast
qed

end
