(* ===== verification/HandlerFaults.thy ===== *)
theory HandlerFaults
  imports Wire
begin

text \<open>
  Whole messages of a client: every one that returns is answered and leaves the mutexes as they were.  What the
  permission checks of the handler let through and what they do not, and an answer that is never sent.
\<close>

section \<open>Whole messages\<close>

text \<open>
  C22: A message whose handling returns, with or without an error, leaves the mutexes of the relay and of the rooms as
  it found them.
\<close>

theorem returned_calls_release:
  assumes "HandleMessage en i data (foldl hub_step (empty_hub r) evs) = (res, st', es)"
    and "res \<noteq> Blocks" and "res \<noteq> Panics"
  shows "hub_held st' = hub_held (foldl hub_step (empty_hub r) evs) \<and>
    hub_relayHeld st' = hub_relayHeld (foldl hub_step (empty_hub r) evs)"
  using call_ok_Message [OF hub_machine.run_inv [where r = r and es = evs], of en i data] assms by (simp add: call_ok_def)

theorem returned_calls_release_witness:
  "\<exists>st' es. HandleMessage demo_env 0 ''?'' (foldl hub_step (empty_hub (mini_relay [])) [NewClient 0 0 None None 0 0]) =
      (Returns (), st', es) \<and> hub_held st' = {}"
proof -
  let ?st = "foldl hub_step (empty_hub (mini_relay [])) [NewClient 0 0 None None 0 0]"
  have p: "ParseCommand ''?'' = None"
    by (simp add: ParseCommand_def unmarshal_def json_parse_def skip_ws_def json_space_def parse_value.simps
        parse_literal_def strip_prefix_def parse_number_def int_part_def is_digit_def)
  obtain res st' es where h: "HandleMessage demo_env 0 ''?'' ?st = (res, st', es)" by (metis prod_cases3)
  have "\<exists>c. hub_clients ?st 0 = Some c"
    by (simp add: empty_hub_def NewClientHandler_def add_checker_def add_manager_def Let_def)
  then have "res = Returns ()"
    using h p sendError_eq [of 0 100 "''invalid command format''" demo_env 0]
    by (auto simp: HandleMessage_def ErrCodeBadRequest_def write_result_def demo_env_def Let_def
        simp del: foldl.simps) (metis prod.inject)
  with returned_calls_release [OF h] h show ?thesis
    by (simp add: empty_hub_def NewClientHandler_def add_checker_def add_manager_def Let_def)
qed



section \<open>Publishing\<close>

lemma publish_refused:
  assumes "\<not> (cl_connected c \<and> cmd_Channel cmd \<noteq> '''' \<and>
      no_Publish (ns_Options (GetByChannel (en_prefixes en) (hub_nss st (cl_ns c)) (cmd_Channel cmd))) \<and>
      may_publish c (hub_perms st (cl_perm c)) (cmd_Channel cmd))"
  shows "\<exists>d. handlePublish en i c cmd st = (write_result (en_reply en), st, [Wrote i d])"
  using assms sendError_eq [of "cmd_ID cmd" _ _ en i st]
  by (auto simp: handlePublish_def on_channel_def publish_channel_def Let_def split: prod.split) 



section \<open>Checks that never refuse\<close>

text \<open>
  C39: The checker's requirement to authenticate refuses nobody: the handler turns a missing token into the user
  "anonymous", so whatever the token, a connect command is accepted, and no subscription of a
  connected client is refused as unauthorized, even where the rule requires authentication and excludes
  anonymous users.
\<close>

theorem require_auth_refuses_nobody:
  assumes "hub_clients (foldl hub_step (empty_hub r) evs) i = Some c" and "cl_connected c"
  shows "CheckConnect (SetRequireAuth pc True) (extractUserFromToken token) token = (True, None) \<and>
    snd (CheckSubscribe pc (cl_userID c) channel token) \<noteq> Some ErrUnauthorized"
proof -
  have "cl_userID c \<noteq> ''''" using inv_client [OF hub_machine.run_inv assms(1)] assms(2) by (simp add: good_client_def)
  then show ?thesis
    by (simp add: CheckConnect_def CheckSubscribe_def extractUserFromToken_def Let_def)
qed

lemma sendResult_state: "fst (snd (sendResult en i n res st)) = st"
  by (auto simp: sendResult_def sendReply_def send_data_def split: option.split)

theorem require_auth_refuses_nobody_witness:
  "\<exists>message c. hub_clients (foldl hub_step (empty_hub (mini_relay []))
        [NewClient 0 0 None None 0 0, Incoming demo_env 0 message]) 0 = Some c \<and> cl_connected c \<and>
    snd (CheckSubscribe (AddRule NewPermissionChecker (zero_rule\<lparr>cr_Pattern := ''*'', cr_RequireAuth := True\<rparr>))
      (cl_userID c) ''r'' '''') \<noteq> Some ErrUnauthorized"
proof -
  let ?cmd = "\<lparr>cmd_ID = 1, cmd_Type = ''connect'', cmd_Channel = '''', cmd_Data = None\<rparr>"
  obtain message where p: "ParseCommand message = Some ?cmd"
    using command_reads_back [of ?cmd] by (auto simp: ascii_valid)
  let ?st = "foldl hub_step (empty_hub (mini_relay [])) [NewClient 0 0 None None 0 0, Incoming demo_env 0 message]"
  have "\<exists>c. hub_clients ?st 0 = Some c \<and> cl_connected c"
    by (simp add: empty_hub_def NewClientHandler_def add_checker_def add_manager_def Let_def HandleMessage_def p
        handleCommand_def cmd_type_defs handleConnect_def optional_request_def zero_connect_def extractUserFromToken_def
        default_checker_def CheckConnect_def sendResult_state set_client_simps startPingTimer_def)
  then obtain c where c: "hub_clients ?st 0 = Some c" "cl_connected c" by blast
  from require_auth_refuses_nobody [OF c] c show ?thesis by blast
qed

section \<open>Answers that are never sent\<close>

lemma parse_empty: "json_parse '''' = None"
  by (simp add: json_parse_def skip_ws_def parse_value.simps)

lemma bad_content: "pb_Data p = Some '''' \<Longrightarrow> marshal_publication p = None"
  by (simp add: marshal_publication_def marshal_object_def marshal_raw_def parse_empty all_some_None_iff)

text \<open>
  C40: A publication without data is accepted, and read back from the stream its content is empty instead of absent;
  from then on every history request whose answer would contain it gets no answer at all: nothing is
  written to the client.
\<close>

theorem empty_publication_silences_history:
  assumes "cl_connected c" and "cmd_Channel cmd \<noteq> ''''"
    and "cl_subscriptions c (cmd_Channel cmd) = Some p" and "perm_Has p PermHistory"
    and "handler_recover en (cmd_Channel cmd) (cl_userID c)
           (hq_Since (fst (optional_request history_fields (cmd_Data cmd) zero_history)))
           (page_limit (hq_Limit (fst (optional_request history_fields (cmd_Data cmd) zero_history)))) st =
         (Returns messages, st')"
    and "msg_Content m = None" and "set ord = field_names"
    and "parseStreamEntry room (entry_of (j, field_pairs ord (message_fields m))) \<in> set messages"
  shows "handleHistory en i c cmd st = (Fails marshal_failed, st', [])"
proof -
  have dom: "dom (message_fields m) = field_names" by (simp add: dom_message_fields field_names_def)
  have "msg_Content (parseStreamEntry room (entry_of (j, field_pairs ord (message_fields m)))) = Some ''''"
    using field_pairs_read_back [of ord "message_fields m"] assms(6,7) dom
    by (simp add: parseStreamEntry_def entry_of_def Let_def) (simp add: message_fields_def Let_def)
  then have bad: "marshal_publication (publication_of (parseStreamEntry room (entry_of (j, field_pairs ord (message_fields m))))) = None"
    using bad_content by (simp add: publication_of_def)
  have "marshal_history_result \<lparr>hr_Publications = publications_of messages, hr_Offset = last_id messages, hr_Epoch = ''''\<rparr> = None"
    using all_some_None_iff [of "map marshal_publication (publications_of messages)"] assms(8) bad
    by (force simp: marshal_history_result_def marshal_object_def marshal_publications_def publications_of_def)
  with assms(1-5) show ?thesis
    by (simp add: handleHistory_def on_subscription_def on_channel_def history_channel_def Let_def sendResult_def
        SuccessReply_def)
qed


theorem empty_publication_silences_history_witness:
  "let m = publish_message demo_env (demo_client ''ann'' Map.empty) ''r'' None;
       st = demo_hub [(''1-0'', field_pairs [''sender_id'', ''type'', ''content'', ''metadata'', ''timestamp''] (message_fields m))]
              [3 \<mapsto> demo_client ''bob'' [''r'' \<mapsto> PermHistory]] [''bob'' \<mapsto> as_user 3 ''bob'']
   in \<exists>st'. handleHistory demo_env 3 (demo_client ''bob'' [''r'' \<mapsto> PermHistory])
        \<lparr>cmd_ID = 9, cmd_Type = ''history'', cmd_Channel = ''r'', cmd_Data = None\<rparr> st = (Fails marshal_failed, st', [])"
proof -
  let ?ord = "[''sender_id'', ''type'', ''content'', ''metadata'', ''timestamp'']"
  let ?m = "publish_message demo_env (demo_client ''ann'' Map.empty) ''r'' None"
  let ?e = "(''1-0'', field_pairs ?ord (message_fields ?m))" and ?c = "demo_client ''bob'' [''r'' \<mapsto> PermHistory]"
  let ?st = "demo_hub [?e] [3 \<mapsto> ?c] [''bob'' \<mapsto> as_user 3 ''bob'']"
  let ?r = "hub_relay ?st"
  have r: "rl_redis ?r = (\<lambda>_. [?e], Map.empty)" by (simp add: demo_hub_def mini_relay_facts)
  from offset_or_empty_law [OF mini_redis_laws, of "''r''" "''bob''" ?r] obtain s' where
    o': "offset_or_empty mini_exec ''r'' ''bob'' ?r = (Returns '''', ?r\<lparr>rl_redis := s'\<rparr>)" "unchanged fst snd (rl_redis ?r) s'"
    by (auto simp: r)
  have l: "fst s' = (\<lambda>_. [?e])" using o'(2) by (simp add: unchanged_def r)
  obtain s2 where x: "XRange mini_exec (streamKey (rl_prefix ?r) ''r'') (range_start '''') ''+'' 100 s' = (Returns [entry_of ?e], s2)"
    using XRange_law [OF mini_redis_laws, of 100 "''''" s' "streamKey (rl_prefix ?r) ''r''"] by (auto simp: l log_from_def plain_id_def max_int64_def)
  have "\<exists>st'. handler_recover demo_env ''r'' ''bob'' '''' 100 ?st = (Returns [parseStreamEntry ''r'' (entry_of ?e)], st')"
    using o'(1) x by (simp add: handler_recover_def rl_RecoverMessages_def demo_env_def on_redis_def after_def)
  then obtain st' where rec: "handler_recover demo_env ''r'' ''bob'' '''' 100 ?st = (Returns [parseStreamEntry ''r'' (entry_of ?e)], st')"
    by blast
  have "handleHistory demo_env 3 ?c \<lparr>cmd_ID = 9, cmd_Type = ''history'', cmd_Channel = ''r'', cmd_Data = None\<rparr> ?st =
      (Fails marshal_failed, st', [])"
    by (rule empty_publication_silences_history [where p = PermHistory and m = ?m and ord = ?ord and j = "''1-0''" and room = "''r''"
          and messages = "[parseStreamEntry ''r'' (entry_of ?e)]"])
      (use rec in \<open>auto simp: optional_request_def zero_history_def page_limit_def publish_message_def perm_Has_def perm_defs
        field_names_def\<close>)
  then show ?thesis by (auto simp: Let_def)
qed

end
