(* ===== verification/Base64.thy ===== *)
theory Base64
  imports Json
begin

text \<open>
  How \<open>encoding/json\<close> writes a \<open>[]byte\<close>: the standard base64 of \<open>encoding/base64\<close> with padding, between quotes.
  The decoder skips line breaks, wants the padding complete and nothing after it, and ignores the bits
  that are cut off.
\<close>

section \<open>Digits\<close>

definition b64_char :: "nat \<Rightarrow> char" where
  "b64_char n =
     char_of (if n < 26 then n + 65 else if n < 52 then n + 71 else if n < 62 then n - 4
              else if n = 62 then 43 else 47)"

definition b64_val :: "char \<Rightarrow> nat option" where
  "b64_val c =
     (let b = byte_of c
      in if 65 \<le> b \<and> b \<le> 90 then Some (b - 65)
         else if 97 \<le> b \<and> b \<le> 122 then Some (b - 71)
         else if 48 \<le> b \<and> b \<le> 57 then Some (b + 4)
         else if b = 43 then Some 62
         else if b = 47 then Some 63
         else None)"

abbreviation b64_pad :: char where
  "b64_pad \<equiv> CHR ''=''"

lemma b64_val_char [simp]: "n < 64 \<Longrightarrow> b64_val (b64_char n) = Some n"
  by (auto simp: b64_val_def b64_char_def Let_def)

lemma b64_char_ascii: "byte_of (b64_char n) < 0x80 \<or> 64 \<le> n"
  by (auto simp: b64_char_def)

lemma b64_char_not:
  "n < 64 \<Longrightarrow> b64_char n \<noteq> b64_pad" "n < 64 \<Longrightarrow> b64_char n \<noteq> CHR 0x0A" "n < 64 \<Longrightarrow> b64_char n \<noteq> CHR 0x0D"
  using b64_val_char [of n] by (auto simp: b64_val_def)

section \<open>Encoding and decoding\<close>

fun b64_encode :: "string \<Rightarrow> string" where
  "b64_encode [] = []"
| "b64_encode [a] =
     [b64_char (byte_of a div 4), b64_char ((byte_of a mod 4) * 16), b64_pad, b64_pad]"
| "b64_encode [a, b] =
     [b64_char (byte_of a div 4), b64_char ((byte_of a mod 4) * 16 + byte_of b div 16),
      b64_char ((byte_of b mod 16) * 4), b64_pad]"
| "b64_encode (a # b # c # s) =
     b64_char (byte_of a div 4) # b64_char ((byte_of a mod 4) * 16 + byte_of b div 16) #
     b64_char ((byte_of b mod 16) * 4 + byte_of c div 64) # b64_char (byte_of c mod 64) # b64_encode s"

text \<open>The bytes of two, three or four digits.\<close>

definition b64_bytes :: "nat list \<Rightarrow> string" where
  "b64_bytes ns =
     (case ns of
        [p, q] \<Rightarrow> [char_of (p * 4 + q div 16)]
      | [p, q, r] \<Rightarrow> [char_of (p * 4 + q div 16), char_of ((q mod 16) * 16 + r div 4)]
      | [p, q, r, t] \<Rightarrow>
          [char_of (p * 4 + q div 16), char_of ((q mod 16) * 16 + r div 4), char_of ((r mod 4) * 64 + t)]
      | _ \<Rightarrow> [])"

definition b64_quantum :: "char list \<Rightarrow> string option" where
  "b64_quantum cs = (if None \<in> set (map b64_val cs) then None else Some (b64_bytes (map (the \<circ> b64_val) cs)))"

fun b64_quanta :: "string \<Rightarrow> string option" where
  "b64_quanta [] = Some []"
| "b64_quanta (p # q # r # t # s) =
     (if t = b64_pad
      then (if s \<noteq> [] then None
            else if r = b64_pad then b64_quantum [p, q] else b64_quantum [p, q, r])
      else case b64_quantum [p, q, r, t] of
             None \<Rightarrow> None | Some bs \<Rightarrow> map_option (\<lambda>rest. bs @ rest) (b64_quanta s))"
| "b64_quanta _ = None"

definition b64_decode :: "string \<Rightarrow> string option" where
  "b64_decode s = b64_quanta (filter (\<lambda>c. c \<noteq> CHR 0x0A \<and> c \<noteq> CHR 0x0D) s)"

section \<open>Round trip\<close>

lemma small_parts:
  fixes n :: nat
  assumes "n < 256"
  shows "n div 4 < 64" "n div 16 < 16" "n div 64 < 4" "n div 16 div 16 = 0" "n div 64 div 4 = 0" "n div 16 mod 16 = n div 16"
    "n div 64 mod 4 = n div 64"
  using assms by simp_all

lemma byte_parts [simp]:
  "byte_of c div 4 < 64"
 
  "byte_of c div 16 < 16" "byte_of c div 64 < 4" "byte_of c div 16 div 16 = 0" "byte_of c div 64 div 4 = 0"
  "byte_of c div 16 mod 16 = byte_of c div 16" "byte_of c div 64 mod 4 = byte_of c div 64"
  by (rule small_parts [OF byte_of_less])+

lemma digit_bounds:
  "byte_of a div 4 < 64" "(byte_of a mod 4) * 16 + byte_of b div 16 < 64" "(byte_of a mod 4) * 16 < 64"
  "(byte_of b mod 16) * 4 + byte_of c div 64 < 64" "(byte_of b mod 16) * 4 < 64" "byte_of c mod 64 < 64"
proof -
  have "byte_of a mod 4 \<le> 3" "byte_of b mod 16 \<le> 15" by (simp_all add: less_Suc_eq_le [symmetric])
  moreover have "byte_of b div 16 \<le> 15" "byte_of c div 64 \<le> 3"
    using byte_parts(2) [of b] byte_parts(3) [of c] by linarith+
  ultimately show "(byte_of a mod 4) * 16 + byte_of b div 16 < 64" "(byte_of a mod 4) * 16 < 64"
      "(byte_of b mod 16) * 4 + byte_of c div 64 < 64" "(byte_of b mod 16) * 4 < 64"
    by linarith+
qed simp_all

lemma joined_bytes [simp]:
  "char_of (byte_of a div 4 * 4 + ((byte_of a mod 4) * 16 + byte_of b div 16) div 16) = a"
  "char_of (byte_of a div 4 * 4 + ((byte_of a mod 4) * 16) div 16) = a"
  "char_of (((byte_of a mod 4) * 16 + byte_of b div 16) mod 16 * 16 + ((byte_of b mod 16) * 4 + byte_of c div 64) div 4) = b"
  "char_of (((byte_of a mod 4) * 16 + byte_of b div 16) mod 16 * 16 + ((byte_of b mod 16) * 4) div 4) = b"
  "char_of (((byte_of b mod 16) * 4 + byte_of c div 64) mod 4 * 64 + byte_of c mod 64) = c"
  by simp_all

lemma b64_quanta_encode: "b64_quanta (b64_encode s) = Some s"
proof (induction s rule: b64_encode.induct)
  case (2 a)
  show ?case by (simp only: b64_encode.simps b64_quanta.simps b64_quantum_def) (simp add: b64_bytes_def digit_bounds)
next
  case (3 a b)
  show ?case
    by (simp add: b64_quantum_def b64_bytes_def digit_bounds b64_char_not)
next
  case (4 a b c s)
  then show ?case
    by (simp add: b64_quantum_def b64_bytes_def digit_bounds b64_char_not)
qed simp

lemma b64_encode_chars:
  "c \<in> set (b64_encode s) \<Longrightarrow> c = b64_pad \<or> (\<exists>n < 64. c = b64_char n)"
  by (induction s rule: b64_encode.induct) (auto intro: digit_bounds)

lemma b64_encode_plain:
  assumes "c \<in> set (b64_encode s)"
  shows "c \<noteq> CHR 0x0A" and "c \<noteq> CHR 0x0D" and "byte_of c < 0x80"
proof -
  consider "c = b64_pad" | n where "n < 64" "c = b64_char n" using b64_encode_chars [OF assms] by blast
  then have "c \<noteq> CHR 0x0A \<and> c \<noteq> CHR 0x0D \<and> byte_of c < 0x80"
  proof cases
    case 1
    then show ?thesis by simp
  next
    case 2
    then show ?thesis using b64_char_not(2,3) b64_char_ascii [of n] by simp
  qed
  then show "c \<noteq> CHR 0x0A" and "c \<noteq> CHR 0x0D" and "byte_of c < 0x80" by blast+
qed

lemma b64_decode_encode: "b64_decode (b64_encode s) = Some s"
proof -
  have "filter (\<lambda>c. c \<noteq> CHR 0x0A \<and> c \<noteq> CHR 0x0D) (b64_encode s) = b64_encode s"
    by (rule filter_True) (blast dest: b64_encode_plain)
  then show ?thesis unfolding b64_decode_def by (simp only: b64_quanta_encode)
qed

end
