(* ===== verification/NodeMessage.thy ===== *)
theory NodeMessage
  imports Canonical Base64
begin

text \<open>
  The messages of \<open>engine/broker.go\<close> on the wire between nodes: a message as JSON with its content in base64,
  inside an envelope that names the node it comes from.
\<close>

section \<open>Fields\<close>

definition bytes_text :: "string option \<Rightarrow> string" where
  "bytes_text m = (case m of None \<Rightarrow> ''null'' | Some s \<Rightarrow> dquote # b64_encode s @ [dquote])"

text \<open>
  A \<open>[]byte\<close> takes base64 text, \<open>null\<close>, or an array of small numbers.  A missing array element of a member that
  is given once is 0.
\<close>

definition byte_of_json :: "jvalue \<Rightarrow> nat \<times> bool" where
  "byte_of_json v =
     (case v of
        JNum s \<Rightarrow> (case ParseUint s of Some n \<Rightarrow> (if n < 256 then (n, True) else (0, False)) | None \<Rightarrow> (0, False))
      | JNull \<Rightarrow> (0, True)
      | _ \<Rightarrow> (0, False))"

definition bytes_field :: "((string option \<Rightarrow> string option) \<Rightarrow> 'a \<Rightarrow> 'a) \<Rightarrow> 'a field" where
  "bytes_field upd raw v x =
     (case v of
        JStr s \<Rightarrow> (case b64_decode s of Some b \<Rightarrow> (upd (\<lambda>_. Some b) x, True) | None \<Rightarrow> (x, False))
      | JNull \<Rightarrow> (upd (\<lambda>_. None) x, True)
      | JArr vs \<Rightarrow>
          (upd (\<lambda>_. Some (map (\<lambda>v. char_of (fst (byte_of_json v))) vs)) x, \<forall>v \<in> set vs. snd (byte_of_json v))
      | _ \<Rightarrow> (x, False))"

definition is_string_member :: "string \<times> string \<times> jvalue \<Rightarrow> bool" where
  "is_string_member m = (case m of (_, _, v) \<Rightarrow> (case v of JStr _ \<Rightarrow> True | JNull \<Rightarrow> True | _ \<Rightarrow> False))"

definition map_field :: "(((string \<rightharpoonup> string) \<Rightarrow> (string \<rightharpoonup> string)) \<Rightarrow> 'a \<Rightarrow> 'a) \<Rightarrow> 'a field" where
  "map_field upd raw v x =
     (case v of
        JObj ms \<Rightarrow> (upd (store_members ms) x, \<forall>m \<in> set ms. is_string_member m)
      | JNull \<Rightarrow> (upd (\<lambda>_. Map.empty) x, True)
      | _ \<Rightarrow> (x, False))"

section \<open>Structs\<close>

record node_message =
  nd_NodeID :: string
  nd_RoomID :: string
  nd_MessageID :: string
  nd_SenderID :: string
  nd_Type :: string
  nd_Content :: "string option"
  nd_Metadata :: "string \<rightharpoonup> string"
  nd_Timestamp :: int

definition zero_node_message :: node_message where
  "zero_node_message =
     \<lparr>nd_NodeID = '''', nd_RoomID = '''', nd_MessageID = '''', nd_SenderID = '''', nd_Type = '''',
      nd_Content = None, nd_Metadata = Map.empty, nd_Timestamp = 0\<rparr>"

definition node_message_fields :: "(string \<times> node_message field) list" where
  "node_message_fields =
     [(''node_id'', string_field nd_NodeID_update), (''room_id'', string_field nd_RoomID_update),
      (''message_id'', string_field nd_MessageID_update), (''sender_id'', string_field nd_SenderID_update),
      (''type'', string_field nd_Type_update), (''content'', bytes_field nd_Content_update),
      (''metadata'', map_field nd_Metadata_update), (''timestamp'', int_field nd_Timestamp_update)]"

definition marshal_node_message :: "node_message \<Rightarrow> string option" where
  "marshal_node_message n =
     marshal_object
       ([(''node_id'', Some (quote (nd_NodeID n))), (''room_id'', Some (quote (nd_RoomID n))),
         (''message_id'', Some (quote (nd_MessageID n))), (''sender_id'', Some (quote (nd_SenderID n))),
         (''type'', Some (quote (nd_Type n))), (''content'', Some (bytes_text (nd_Content n)))] @
        omitempty (nd_Metadata n = Map.empty) ''metadata'' (Some (marshal_map (nd_Metadata n))) @
        [(''timestamp'', Some (FormatInt (nd_Timestamp n)))])"

text \<open>The envelope of \<open>Publish\<close>.\<close>

record envelope =
  wr_NodeID :: string
  wr_Data :: "string option"

definition zero_envelope :: envelope where
  "zero_envelope = \<lparr>wr_NodeID = '''', wr_Data = None\<rparr>"

definition envelope_fields :: "(string \<times> envelope field) list" where
  "envelope_fields = [(''n'', string_field wr_NodeID_update), (''d'', bytes_field wr_Data_update)]"

definition marshal_envelope :: "envelope \<Rightarrow> string option" where
  "marshal_envelope w =
     marshal_object [(''n'', Some (quote (wr_NodeID w))), (''d'', Some (bytes_text (wr_Data w)))]"

section \<open>From a message and back\<close>

definition node_message_of :: "string \<Rightarrow> message \<Rightarrow> node_message" where
  "node_message_of nodeID msg =
     \<lparr>nd_NodeID = nodeID, nd_RoomID = msg_RoomID msg, nd_MessageID = msg_ID msg, nd_SenderID = msg_SenderID msg,
      nd_Type = msg_Type msg, nd_Content = msg_Content msg, nd_Metadata = msg_Metadata msg,
      nd_Timestamp = time_to_milli (msg_Timestamp msg)\<rparr>"

definition message_of_node :: "node_message \<Rightarrow> message" where
  "message_of_node n =
     \<lparr>msg_ID = nd_MessageID n, msg_RoomID = nd_RoomID n, msg_SenderID = nd_SenderID n, msg_Type = nd_Type n,
      msg_Content = nd_Content n, msg_Metadata = nd_Metadata n, msg_Timestamp = time_of_milli (nd_Timestamp n)\<rparr>"

section \<open>Round trip\<close>

lemma quote_ascii_b64: "n < 64 \<Longrightarrow> quote_ascii (b64_char n) = [b64_char n]" "quote_ascii b64_pad = [b64_pad]"
proof -
  assume n: "n < 64"
  have v: "b64_val (b64_char n) = Some n" using n by simp
  have "b64_char n \<noteq> c" if "b64_val c = None" for c using v that by auto
  then have "b64_char n \<noteq> dquote \<and> b64_char n \<noteq> bslash \<and> b64_char n \<noteq> CHR 0x0A \<and> b64_char n \<noteq> CHR 0x0D \<and>
      b64_char n \<noteq> CHR 0x09 \<and> b64_char n \<noteq> CHR ''<'' \<and> b64_char n \<noteq> CHR ''>'' \<and> b64_char n \<noteq> CHR ''&''"
    by (simp add: b64_val_def)
  moreover have "\<not> byte_of (b64_char n) < 0x20" using n by (auto simp: b64_char_def)
  ultimately show "quote_ascii (b64_char n) = [b64_char n]" by (simp only: quote_ascii_def simp_thms if_False)
qed (simp add: quote_ascii_def)


lemma quote_plain:
  "\<forall>c \<in> set s. byte_of c < 0x80 \<and> quote_ascii c = [c] \<Longrightarrow> quote_body s = s"
  by (induction s) (simp_all add: quote_body.simps(2))

lemma bytes_text_quote: "bytes_text (Some s) = quote (b64_encode s)"
proof -
  have "byte_of c < 0x80 \<and> quote_ascii c = [c]" if "c \<in> set (b64_encode s)" for c
    using b64_encode_chars [OF that] b64_encode_plain(3) [OF that] quote_ascii_b64 by blast
  then show ?thesis using quote_plain [of "b64_encode s"] by (simp add: bytes_text_def quote_def)
qed

definition bytes_value :: "string option \<Rightarrow> jvalue" where
  "bytes_value m = (case m of None \<Rightarrow> JNull | Some s \<Rightarrow> JStr (b64_encode s))"

lemma nested_bytes: "nested d (bytes_text m) (bytes_value m)"
proof (cases m)
  case None
  then show ?thesis by (simp add: bytes_text_def bytes_value_def nested_leaf)
next
  case (Some s)
  have "sanitize (b64_encode s) = b64_encode s"
    by (rule sanitize_valid, rule ascii_valid) (simp add: list_all_iff b64_encode_plain)
  then show ?thesis unfolding Some bytes_text_quote bytes_value_def using nested_leaf(1) [of d "b64_encode s"] by simp
qed

lemma bytes_field_read: "bytes_field upd raw (bytes_value m) x = (upd (\<lambda>_. m) x, True)"
  by (simp add: bytes_field_def bytes_value_def b64_decode_encode split: option.split)

text \<open>A metadata map as an object.\<close>

definition map_members :: "(string \<rightharpoonup> string) \<Rightarrow> (string \<times> string \<times> jvalue) list" where
  "map_members m = map (\<lambda>k. (k, quote (the (m k)), JStr (sanitize (the (m k))))) (sorted_list_of_set (dom m))"

lemma marshal_map_members: "marshal_map m = json_object (object_members (map_members m))"
  by (simp add: marshal_map_def json_object_def object_members_def map_members_def comp_def marshal_member_def)

lemma nested_map: "nested (Suc d) (marshal_map m) (object_value (map_members m))"
  unfolding marshal_map_members by (rule nested_object) (simp add: map_members_def list_all_iff nested_leaf)

lemma map_field_read:
  assumes "valid_map m"
  shows "map_field nd_Metadata_update raw (object_value (map_members m)) (n\<lparr>nd_Metadata := Map.empty\<rparr>) = (n\<lparr>nd_Metadata := m\<rparr>, True)"
proof -
  let ?ms = "map (\<lambda>(k, s, v). (sanitize k, s, v)) (map_members m)"
  have "?ms = map (\<lambda>k. member_of k (the (m k))) (sorted_list_of_set (dom m))"
    by (simp add: map_members_def member_of_def)
  moreover have "unmarshal_map (marshal_map m) Map.empty = m" by (rule unmarshal_marshal_valid [OF assms])
  ultimately have "store_members ?ms Map.empty = m"
    using assms by (simp add: unmarshal_map_def json_parse_marshal_map valid_map_def)
  moreover have "\<forall>x \<in> set ?ms. is_string_member x" by (auto simp: map_members_def is_string_member_def)
  ultimately show ?thesis by (simp add: map_field_def object_value_def)
qed


definition valid_node :: "node_message \<Rightarrow> bool" where
  "valid_node n \<longleftrightarrow>
     valid_utf8 (nd_NodeID n) \<and> valid_utf8 (nd_RoomID n) \<and> valid_utf8 (nd_MessageID n) \<and> valid_utf8 (nd_SenderID n) \<and>
     valid_utf8 (nd_Type n) \<and> valid_map (nd_Metadata n) \<and> in_int64 (nd_Timestamp n)"

definition node_members :: "node_message \<Rightarrow> (string \<times> string \<times> jvalue) list" where
  "node_members n =
     [(''node_id'', quote (nd_NodeID n), JStr (sanitize (nd_NodeID n))),
      (''room_id'', quote (nd_RoomID n), JStr (sanitize (nd_RoomID n))),
      (''message_id'', quote (nd_MessageID n), JStr (sanitize (nd_MessageID n))),
      (''sender_id'', quote (nd_SenderID n), JStr (sanitize (nd_SenderID n))),
      (''type'', quote (nd_Type n), JStr (sanitize (nd_Type n))),
      (''content'', bytes_text (nd_Content n), bytes_value (nd_Content n))] @
     (if nd_Metadata n = Map.empty then []
      else [(''metadata'', marshal_map (nd_Metadata n), object_value (map_members (nd_Metadata n)))]) @
     [(''timestamp'', FormatInt (nd_Timestamp n), JNum (FormatInt (nd_Timestamp n)))]"

lemma sanitize_node_names:
  "sanitize ''node_id'' = ''node_id''" "sanitize ''room_id'' = ''room_id''" "sanitize ''message_id'' = ''message_id''"
  "sanitize ''sender_id'' = ''sender_id''" "sanitize ''content'' = ''content''" "sanitize ''metadata'' = ''metadata''"
  "sanitize ''timestamp'' = ''timestamp''" "sanitize ''n'' = ''n''" "sanitize ''d'' = ''d''"
  by (simp_all add: sanitize_valid ascii_valid)

lemma node_marshals:
  "\<exists>t. marshal_node_message n = Some t \<and> nested 2 t (object_value (node_members n))"
proof -
  have "printed e ([(''node_id'', Some (quote (nd_NodeID n))), (''room_id'', Some (quote (nd_RoomID n))),
         (''message_id'', Some (quote (nd_MessageID n))), (''sender_id'', Some (quote (nd_SenderID n))),
         (''type'', Some (quote (nd_Type n))), (''content'', Some (bytes_text (nd_Content n)))] @
        omitempty (nd_Metadata n = Map.empty) ''metadata'' (Some (marshal_map (nd_Metadata n))) @
        [(''timestamp'', Some (FormatInt (nd_Timestamp n)))]) (node_members n)" if "1 \<le> e" for e
    using nested_prints [OF nested_map] nested_prints [OF nested_bytes [of e "nd_Content n"]] that
    by (auto simp: node_members_def printed_def omitempty_def prints_quote prints_int)
  from marshal_nested [of 1, OF this] show ?thesis by (simp add: marshal_node_message_def numeral_2_eq_2)
qed

lemma node_parsed: "nested d t v \<Longrightarrow> d \<le> max_depth \<Longrightarrow> json_parse t = Some v"
  using prints_document(1) nested_prints by blast

lemma node_reads_back:
  assumes "valid_node n"
  shows "\<exists>t. marshal_node_message n = Some t \<and> unmarshal node_message_fields t zero_node_message = (n, True)"
proof -
  obtain t where t: "marshal_node_message n = Some t" "nested 2 t (object_value (node_members n))"
    using node_marshals by blast
  have p: "json_parse t = Some (object_value (node_members n))"
    by (rule node_parsed [OF t(2)]) (simp add: max_depth_def)
  have f: "find_field node_message_fields ''node_id'' = Some (string_field nd_NodeID_update)"
      "find_field node_message_fields ''room_id'' = Some (string_field nd_RoomID_update)"
      "find_field node_message_fields ''message_id'' = Some (string_field nd_MessageID_update)"
      "find_field node_message_fields ''sender_id'' = Some (string_field nd_SenderID_update)"
      "find_field node_message_fields ''type'' = Some (string_field nd_Type_update)"
      "find_field node_message_fields ''content'' = Some (bytes_field nd_Content_update)"
      "find_field node_message_fields ''metadata'' = Some (map_field nd_Metadata_update)"
      "find_field node_message_fields ''timestamp'' = Some (int_field nd_Timestamp_update)"
    by (simp_all add: find_field_def node_message_fields_def)
  obtain nid rid mid sid ty ct md ts where n: "n = \<lparr>nd_NodeID = nid, nd_RoomID = rid, nd_MessageID = mid, nd_SenderID = sid,
      nd_Type = ty, nd_Content = ct, nd_Metadata = md, nd_Timestamp = ts\<rparr>"
    by (cases n)
  have v: "sanitize nid = nid" "sanitize rid = rid" "sanitize mid = mid" "sanitize sid = sid" "sanitize ty = ty"
      "valid_map md" "in_int64 ts"
    using assms by (simp_all add: valid_node_def n sanitize_valid)
  note md = map_field_read [OF v(6), of _ "\<lparr>nd_NodeID = nid, nd_RoomID = rid, nd_MessageID = mid, nd_SenderID = sid,
      nd_Type = ty, nd_Content = ct, nd_Metadata = Map.empty, nd_Timestamp = 0\<rparr>", simplified]
  have "unmarshal node_message_fields t zero_node_message = (n, True)"
    unfolding unmarshal_def p object_value_def [of "node_members n"]
    by (simp add: node_members_def n sanitize_node_names f string_field_def bytes_field_read md int_field_def v
        ParseInt_FormatInt zero_node_message_def)
  with t(1) show ?thesis by blast
qed


lemma envelope_reads_back:
  assumes "valid_utf8 (wr_NodeID w)"
  shows "\<exists>t. marshal_envelope w = Some t \<and> unmarshal envelope_fields t zero_envelope = (w, True)"
proof -
  obtain a b where w: "w = \<lparr>wr_NodeID = a, wr_Data = b\<rparr>" by (cases w)
  let ?ms = "[(''n'', quote a, JStr (sanitize a)), (''d'', bytes_text b, bytes_value b)]"
  have "printed e [(''n'', Some (quote a)), (''d'', Some (bytes_text b))] ?ms" for e
    using nested_prints [OF nested_bytes [of e b]] by (simp add: printed_def prints_quote)
  from marshal_nested [of 0, OF this] obtain t where
    t: "marshal_envelope w = Some t" "nested (Suc 0) t (object_value ?ms)"
    by (auto simp: marshal_envelope_def w)
  have p: "json_parse t = Some (object_value ?ms)" by (rule node_parsed [OF t(2)]) (simp add: max_depth_def)
  have f: "find_field envelope_fields ''n'' = Some (string_field wr_NodeID_update)"
      "find_field envelope_fields ''d'' = Some (bytes_field wr_Data_update)"
    by (simp_all add: find_field_def envelope_fields_def)
  have "unmarshal envelope_fields t zero_envelope = (w, True)"
    using assms unfolding unmarshal_def p object_value_def
    by (simp add: w sanitize_node_names f string_field_def bytes_field_read zero_envelope_def sanitize_valid)
  with t(1) show ?thesis by blast
qed

definition decoded :: "(string \<times> 'a field) list \<Rightarrow> 'a \<Rightarrow> string \<Rightarrow> 'a option" where
  "decoded fs zero t = (case unmarshal fs t zero of (x, ok) \<Rightarrow> if ok then Some x else None)"

interpretation node_text: document marshal_node_message "decoded node_message_fields zero_node_message" valid_node
proof unfold_locales
  fix n :: node_message
  assume "valid_node n"
  from node_reads_back [OF this] show "\<exists>t. marshal_node_message n = Some t \<and>
      decoded node_message_fields zero_node_message t = Some n"
    by (auto simp: decoded_def)
qed

interpretation envelope_text: document marshal_envelope "decoded envelope_fields zero_envelope" "\<lambda>w. valid_utf8 (wr_NodeID w)"
proof unfold_locales
  fix w :: envelope
  assume "valid_utf8 (wr_NodeID w)"
  from envelope_reads_back [OF this] show "\<exists>t. marshal_envelope w = Some t \<and> decoded envelope_fields zero_envelope t = Some w"
    by (auto simp: decoded_def)
qed

text \<open>The payload a node publishes for a message, and what another node makes of it.\<close>

definition broker_payload :: "string \<Rightarrow> string option \<Rightarrow> string option" where
  "broker_payload nodeID data = marshal_envelope \<lparr>wr_NodeID = nodeID, wr_Data = data\<rparr>"

definition sendable :: "string \<Rightarrow> message \<Rightarrow> bool" where
  "sendable nodeID msg \<longleftrightarrow> valid_node (node_message_of nodeID msg)"

lemma payload_reads_back:
  assumes "sendable nodeID msg"
  shows "\<exists>data payload. marshal_node_message (node_message_of nodeID msg) = Some data \<and>
    broker_payload nodeID (Some data) = Some payload \<and>
    unmarshal envelope_fields payload zero_envelope = (\<lparr>wr_NodeID = nodeID, wr_Data = Some data\<rparr>, True) \<and>
    unmarshal node_message_fields data zero_node_message = (node_message_of nodeID msg, True) \<and>
    message_of_node (node_message_of nodeID msg) =
      msg\<lparr>msg_Timestamp := time_of_milli (time_to_milli (msg_Timestamp msg))\<rparr>"
proof -
  obtain data where d: "marshal_node_message (node_message_of nodeID msg) = Some data"
      "unmarshal node_message_fields data zero_node_message = (node_message_of nodeID msg, True)"
    using node_reads_back assms unfolding sendable_def by blast
  have "valid_utf8 nodeID" using assms by (simp add: sendable_def valid_node_def node_message_of_def)
  then obtain payload where "marshal_envelope \<lparr>wr_NodeID = nodeID, wr_Data = Some data\<rparr> = Some payload"
      "unmarshal envelope_fields payload zero_envelope = (\<lparr>wr_NodeID = nodeID, wr_Data = Some data\<rparr>, True)"
    using envelope_reads_back [of "\<lparr>wr_NodeID = nodeID, wr_Data = Some data\<rparr>"] by auto
  with d show ?thesis by (simp add: broker_payload_def message_of_node_def node_message_of_def)
qed

text \<open>A payload determines its message, but for the part of the time stamp below a millisecond.\<close>

lemma payload_determines:
  assumes "sendable na m" and "sendable nb m'" and "marshal_node_message (node_message_of na m) = Some data"
    and "marshal_node_message (node_message_of nb m') = Some data'" and "broker_payload na (Some data) = broker_payload nb (Some data')"
  shows "na = nb \<and> node_message_of na m = node_message_of nb m'"
proof -
  have u: "valid_utf8 na" "valid_utf8 nb" using assms(1,2) by (simp_all add: sendable_def valid_node_def node_message_of_def)
  have "(\<lparr>wr_NodeID = na, wr_Data = Some data\<rparr> :: envelope) = \<lparr>wr_NodeID = nb, wr_Data = Some data'\<rparr>"
    by (rule envelope_text.print_inject) (use u assms(5) in \<open>simp_all add: broker_payload_def\<close>)
  then have "na = nb" "data = data'" by simp_all
  with node_text.print_inject assms(1-4) show ?thesis by (simp add: sendable_def)
qed

end
