(* ===== verification/Broker.thy ===== *)
theory Broker
  imports NodeMessage Relay Dedupe
begin

text \<open>
  The Redis broker of \<open>engine/broker.go\<close> and the cluster relay over it.  The channel between the subscription
  goroutine and the relay is a bounded queue; each goroutine advances in steps, and what a step
  reads from its surroundings (clock, network) is an argument.  Sleeping only shows in the result.
\<close>

section \<open>The broker\<close>

datatype broker_error =
    ClientRequired
  | MarshalFailed
  | BrokerRedis client_error
  | SubClientFailed client_error
  | RetriesFailed int "client_error option"

record broker_message =
  bm_Channel :: string
  bm_Data :: "string option"
  bm_NodeID :: string
  bm_MessageID :: string

record redis_broker_config =
  bc_Client :: "redis_config option"
  bc_NodeID :: string
  bc_Prefix :: string
  bc_BufferSize :: int
  bc_DedupeSize :: int
  bc_DedupeTTL :: duration
  bc_MaxRetries :: int
  bc_RetryDelay :: duration

text \<open>
  The configuration of the publishing client stands for it: commands go to the executor of the operation.
  \<open>bk_subConn\<close> is the pool of the subscription's own client.
\<close>

record redis_broker =
  bk_client :: redis_config
  bk_nodeID :: string
  bk_prefix :: string
  bk_subConn :: "pool option"
  bk_cancelled :: bool
  bk_running :: bool
  bk_msgChan :: "broker_message list"
  bk_capacity :: int
  bk_chanClosed :: bool
  bk_dedupe :: dedupe_cache
  bk_maxRetries :: int
  bk_retryDelay :: duration

definition generateNodeID :: "gotime \<Rightarrow> gotime \<Rightarrow> string" where
  "generateNodeID t1 t2 = ''node-'' @ FormatInt (wrap64 t1) @ ''-'' @ FormatInt (t2 mod 1000000000)"

text \<open>A channel of messages of 72 bytes that cannot be allocated panics.\<close>

definition NewRedisBroker ::
    "gotime \<Rightarrow> gotime \<Rightarrow> redis_broker_config \<Rightarrow> (broker_error, redis_broker) outcome" where
  "NewRedisBroker t1 t2 cfg =
     (case bc_Client cfg of
        None \<Rightarrow> Fails ClientRequired
      | Some client \<Rightarrow>
          (let size = (if bc_BufferSize cfg \<le> 0 then 1000 else bc_BufferSize cfg)
           in if \<not> make_ok 72 size then Panics
              else Returns
                \<lparr>bk_client = client,
                 bk_nodeID = (if bc_NodeID cfg = '''' then generateNodeID t1 t2 else bc_NodeID cfg),
                 bk_prefix = (if bc_Prefix cfg = '''' then ''sr:pub:'' else bc_Prefix cfg),
                 bk_subConn = None, bk_cancelled = False, bk_running = False,
                 bk_msgChan = [], bk_capacity = size, bk_chanClosed = False,
                 bk_dedupe = NewDedupeCache (bc_DedupeSize cfg) (bc_DedupeTTL cfg),
                 bk_maxRetries = (if bc_MaxRetries cfg \<le> 0 then 3 else bc_MaxRetries cfg),
                 bk_retryDelay = (if bc_RetryDelay cfg \<le> 0 then 100 * 1000000 else bc_RetryDelay cfg)\<rparr>))"

text \<open>A tick of the clean-up goroutine.\<close>

definition cleanup_tick :: "string list \<Rightarrow> gotime \<Rightarrow> redis_broker \<Rightarrow> redis_broker" where
  "cleanup_tick ord now b = (if bk_cancelled b then b else b\<lparr>bk_dedupe := Cleanup ord now (bk_dedupe b)\<rparr>)"

section \<open>Publishing\<close>

text \<open>
  The retry loop from the attempt \<open>k\<close> on: the outcome, the server, and the pauses it made.  \<open>ctx k\<close> tells
  whether the caller's context is done after attempt \<open>k\<close>.
\<close>

function publish_loop ::
    "'s executor \<Rightarrow> (int \<Rightarrow> bool) \<Rightarrow> string list \<Rightarrow> redis_broker \<Rightarrow> int \<Rightarrow> client_error option \<Rightarrow> 's \<Rightarrow>
     (broker_error, unit) outcome \<times> 's \<times> duration list" where
  "publish_loop exec ctx args b k lastErr s =
     (if k < bk_maxRetries b then
        (case exec args s of
           (Returns _, s1) \<Rightarrow> (Returns (), s1, [])
         | (Fails e, s1) \<Rightarrow>
             (if ctx k then (Fails (BrokerRedis ContextDone), s1, [])
              else
                (case publish_loop exec ctx args b (k + 1) (Some e) s1 of
                   (x, s2, ws) \<Rightarrow>
                     (x, s2, (if k < bk_maxRetries b - 1 then [wrap64 (bk_retryDelay b * (k + 1))] else []) @ ws)))
         | (Panics, s1) \<Rightarrow> (Panics, s1, [])
         | (Blocks, s1) \<Rightarrow> (Blocks, s1, []))
      else (Fails (RetriesFailed (bk_maxRetries b) lastErr), s, []))"
  by pat_completeness auto
termination
  by (relation "measure (\<lambda>(_, _, _, b, k, _, _). nat (bk_maxRetries b - k))") auto

declare publish_loop.simps [simp del]

definition broker_Publish ::
    "'s executor \<Rightarrow> (int \<Rightarrow> bool) \<Rightarrow> redis_broker \<Rightarrow> string \<Rightarrow> string option \<Rightarrow> 's \<Rightarrow>
     (broker_error, unit) outcome \<times> 's \<times> duration list" where
  "broker_Publish exec ctx b channel data s =
     (case broker_payload (bk_nodeID b) data of
        None \<Rightarrow> (Fails MarshalFailed, s, [])
      | Some payload \<Rightarrow> publish_loop exec ctx [''PUBLISH'', bk_prefix b @ channel, payload] b 0 None s)"

definition PublishMessage ::
    "'s executor \<Rightarrow> (int \<Rightarrow> bool) \<Rightarrow> redis_broker \<Rightarrow> message \<Rightarrow> 's \<Rightarrow>
     (broker_error, unit) outcome \<times> 's \<times> duration list" where
  "PublishMessage exec ctx b msg s =
     (case marshal_node_message (node_message_of (bk_nodeID b) msg) of
        None \<Rightarrow> (Fails MarshalFailed, s, [])
      | Some data \<Rightarrow> broker_Publish exec ctx b (msg_RoomID msg) (Some data) s)"


section \<open>The subscription\<close>

definition broker_Subscribe ::
    "network \<Rightarrow> redis_broker \<Rightarrow> (broker_error, unit) outcome \<times> redis_broker" where
  "broker_Subscribe dial b =
     (if bk_running b then (Returns (), b)
      else case NewPool dial (bk_client b) of
             (Returns _, p) \<Rightarrow> (Returns (), b\<lparr>bk_subConn := Some p, bk_running := True\<rparr>)
           | (Fails e, _) \<Rightarrow> (Fails (SubClientFailed e), b)
           | (Panics, _) \<Rightarrow> (Panics, b)
           | (Blocks, _) \<Rightarrow> (Blocks, b))"

text \<open>
  What the loop does with a message it has read.  Sending on the closed channel panics; a full channel drops the
  message.  The cache reads the clock twice and may not end.
\<close>

definition accept_message ::
    "gotime \<Rightarrow> gotime \<Rightarrow> pubsub_message \<Rightarrow> redis_broker \<Rightarrow> (broker_error, unit) outcome \<times> redis_broker" where
  "accept_message now1 now2 m b =
     (if pubsub_message.ps_Type m \<noteq> ''pmessage'' then (Returns (), b)
      else case unmarshal envelope_fields (pubsub_message.ps_Data m) zero_envelope of
        (w, ok) \<Rightarrow>
          (if \<not> ok \<or> wr_NodeID w = bk_nodeID b then (Returns (), b)
           else case unmarshal node_message_fields (content_text (wr_Data w)) zero_node_message of
             (n, ok') \<Rightarrow>
               (if \<not> ok' then (Returns (), b)
                else case IsDuplicate (bk_dedupe b) (nd_MessageID n) now1 now2 of
                       None \<Rightarrow> (Blocks, b)
                     | Some (True, d) \<Rightarrow> (Returns (), b\<lparr>bk_dedupe := d\<rparr>)
                     | Some (False, d) \<Rightarrow>
                         (let b1 = b\<lparr>bk_dedupe := d\<rparr>
                          in if bk_chanClosed b1 then (Panics, b1)
                             else if int (length (bk_msgChan b1)) < bk_capacity b1
                             then (Returns (), b1\<lparr>bk_msgChan := bk_msgChan b1 @
                                    [\<lparr>bm_Channel = pubsub_message.ps_Channel m, bm_Data = wr_Data w, bm_NodeID = wr_NodeID w,
                                      bm_MessageID = nd_MessageID n\<rparr>]\<rparr>)
                             else (Returns (), b1)))))"

text \<open>
  The goroutine: it is about to subscribe, after some errors in a row, or about to read; it has left, crashed or hangs.
\<close>

datatype sub_phase = Subscribing int | Reading | SubLeft | SubCrashed | SubHangs

definition sub_backoff :: "int \<Rightarrow> duration" where
  "sub_backoff errs = (if 30 * second < wrap64 (errs * second) then 30 * second else wrap64 (errs * second))"

text \<open>After a failed attempt; from the tenth error in a row on it tries a new client.\<close>

definition resubscribe ::
    "network \<Rightarrow> int \<Rightarrow> pool \<Rightarrow> redis_broker \<Rightarrow> sub_phase \<times> redis_broker" where
  "resubscribe redial errs p b =
     (if 10 \<le> errs then
        (case NewPool redial (bk_client b) of
           (Returns _, q) \<Rightarrow> (Subscribing 0, b\<lparr>bk_subConn := Some q\<rparr>)
         | (Fails _, _) \<Rightarrow> (Subscribing errs, b\<lparr>bk_subConn := Some p\<rparr>)
         | (Panics, _) \<Rightarrow> (SubCrashed, b\<lparr>bk_subConn := Some p\<rparr>)
         | (Blocks, _) \<Rightarrow> (SubHangs, b\<lparr>bk_subConn := Some p\<rparr>))
      else (Subscribing errs, b\<lparr>bk_subConn := Some p\<rparr>))"

record sub_env =
  se_dial :: network
  se_redial :: network
  se_clock :: "nat \<Rightarrow> gotime"

definition left_loop :: "redis_broker \<Rightarrow> sub_phase \<times> redis_broker \<times> duration list" where
  "left_loop b = (SubLeft, b\<lparr>bk_running := False\<rparr>, [])"

definition subscription_step ::
    "sub_env \<Rightarrow> string \<Rightarrow> sub_phase \<Rightarrow> redis_broker \<Rightarrow> sub_phase \<times> redis_broker \<times> duration list" where
  "subscription_step en pattern phase b =
     (case (phase, bk_subConn b) of
        (Subscribing errs, Some p) \<Rightarrow>
          (if bk_cancelled b then left_loop b
           else case client_Do (se_dial en) (bk_cancelled b) [''PSUBSCRIBE'', bk_prefix b @ pattern] p of
                  (Returns _, p1) \<Rightarrow> (Reading, b\<lparr>bk_subConn := Some p1\<rparr>, [])
                | (Fails _, p1) \<Rightarrow>
                    (case resubscribe (se_redial en) (errs + 1) p1 b of
                       (ph, b1) \<Rightarrow> (ph, b1, [sub_backoff (errs + 1)]))
                | (Panics, p1) \<Rightarrow> (SubCrashed, b\<lparr>bk_subConn := Some p1\<rparr>, [])
                | (Blocks, p1) \<Rightarrow> (SubHangs, b\<lparr>bk_subConn := Some p1\<rparr>, []))
      | (Reading, Some p) \<Rightarrow>
          (if bk_cancelled b then left_loop b
           else case ReadPubSubMessage (se_dial en) (bk_cancelled b) p of
                  (Returns m, p1) \<Rightarrow>
                    (case accept_message (se_clock en 0) (se_clock en 1) m (b\<lparr>bk_subConn := Some p1\<rparr>) of
                       (Returns _, b1) \<Rightarrow> (Reading, b1, [])
                     | (Fails _, b1) \<Rightarrow> (Reading, b1, [])
                     | (Panics, b1) \<Rightarrow> (SubCrashed, b1, [])
                     | (Blocks, b1) \<Rightarrow> (SubHangs, b1, []))
                | (Fails _, p1) \<Rightarrow> (Subscribing 0, b\<lparr>bk_subConn := Some p1\<rparr>, [])
                | (Panics, p1) \<Rightarrow> (SubCrashed, b\<lparr>bk_subConn := Some p1\<rparr>, [])
                | (Blocks, p1) \<Rightarrow> (SubHangs, b\<lparr>bk_subConn := Some p1\<rparr>, []))
      | (Subscribing _, None) \<Rightarrow> (SubCrashed, b, [])
      | (Reading, None) \<Rightarrow> (SubCrashed, b, [])
      | (ph, _) \<Rightarrow> (ph, b, []))"

fun subscription_loop ::
    "sub_env list \<Rightarrow> string \<Rightarrow> sub_phase \<Rightarrow> redis_broker \<Rightarrow> sub_phase \<times> redis_broker \<times> duration list" where
  "subscription_loop [] pattern phase b = (phase, b, [])"
| "subscription_loop (en # ens) pattern phase b =
     (case subscription_step en pattern phase b of
        (ph, b1, ws) \<Rightarrow> (case subscription_loop ens pattern ph b1 of (ph', b2, ws') \<Rightarrow> (ph', b2, ws @ ws')))"

text \<open>\<open>Close\<close>: closing the channel a second time panics.\<close>

definition broker_Close :: "redis_broker \<Rightarrow> (broker_error, unit) outcome \<times> redis_broker" where
  "broker_Close b =
     (let b1 = b\<lparr>bk_cancelled := True, bk_subConn := map_option pool_Close (bk_subConn b)\<rparr>
      in if bk_chanClosed b1 then (Panics, b1) else (Returns (), b1\<lparr>bk_chanClosed := True\<rparr>))"

end
