(* ===== verification/Cluster.thy ===== *)
theory Cluster
  imports Broker
begin

text \<open>
  The cluster relay of \<open>engine/broker.go\<close>: the Redis relay with a broker.  A publication goes to the local
  relay first and then to the other nodes; what other nodes publish is broadcast to the local room.
\<close>

record cluster_config =
  cc_Config :: relay_config
  cc_NodeID :: string
  cc_BrokerPrefix :: string
  cc_DedupeSize :: int
  cc_DedupeTTL :: duration

record 's cluster =
  cr_relay :: "'s relay"
  cr_broker :: redis_broker
  cr_cancelled :: bool

datatype cluster_error = FromRelay relay_error | FromBroker broker_error

text \<open>The relay runs on its pooled client; when the broker cannot be made the relay is closed.\<close>

definition NewClusterRelay ::
    "network \<Rightarrow> bool \<Rightarrow> gotime \<Rightarrow> gotime \<Rightarrow> gotime \<Rightarrow> (nat \<Rightarrow> message) \<Rightarrow> cluster_config \<Rightarrow>
     (cluster_error, pool cluster) outcome \<times> pool" where
  "NewClusterRelay dial ctx_done now t1 t2 msgs cfg =
     (case NewRelay dial ctx_done (cc_Config cfg) now msgs of
        (Returns r, p) \<Rightarrow>
          (case NewRedisBroker t1 t2
                  \<lparr>bc_Client = Some (po_cfg p), bc_NodeID = cc_NodeID cfg, bc_Prefix = cc_BrokerPrefix cfg,
                   bc_BufferSize = 0, bc_DedupeSize = cc_DedupeSize cfg, bc_DedupeTTL = cc_DedupeTTL cfg,
                   bc_MaxRetries = 0, bc_RetryDelay = 0\<rparr> of
             Returns b \<Rightarrow> (Returns \<lparr>cr_relay = r, cr_broker = b, cr_cancelled = False\<rparr>, p)
           | Fails e \<Rightarrow> (Fails (FromBroker e), rl_redis (fst (rl_Close pool_Close [] (\<lambda>_. []) r)))
           | Panics \<Rightarrow> (Panics, p)
           | Blocks \<Rightarrow> (Blocks, p))
      | (Fails e, p) \<Rightarrow> (Fails (FromRelay e), p)
      | (Panics, p) \<Rightarrow> (Panics, p)
      | (Blocks, p) \<Rightarrow> (Blocks, p))"

section \<open>Messages of other nodes\<close>

definition remote_options :: publish_options where
  "remote_options = \<lparr>po_SkipSender = True, po_Priority = 0, po_TTL = 0, po_Persist = False\<rparr>"

text \<open>The decoded message is a new object nobody else sees; the relay itself does not change.\<close>

definition handleBrokerMessage ::
    "gotime \<Rightarrow> (subscriber \<Rightarrow> nat \<Rightarrow> receive_result) \<Rightarrow> string list \<Rightarrow> broker_message \<Rightarrow> 's cluster \<Rightarrow> effect list" where
  "handleBrokerMessage now rx fin bMsg cr =
     (case unmarshal node_message_fields (content_text (bm_Data bMsg)) zero_node_message of
        (n, ok) \<Rightarrow>
          (if \<not> ok then []
           else
             let msg = message_of_node n
             in case rl_GetRoom (cr_relay cr) (msg_RoomID msg) of
                  None \<Rightarrow> []
                | Some h \<Rightarrow>
                    snd (Room_Broadcast now (rl_hasHandler (cr_relay cr)) rx fin (rl_heap (cr_relay cr) h) msg
                      (Some remote_options))))"

text \<open>
  A step of the listening goroutine: the next message of the channel; it waits on an empty channel and leaves when
  that is closed.
\<close>

definition listen_step ::
    "gotime \<Rightarrow> (subscriber \<Rightarrow> nat \<Rightarrow> receive_result) \<Rightarrow> string list \<Rightarrow> 's cluster \<Rightarrow>
     (cluster_error, bool) outcome \<times> 's cluster \<times> effect list" where
  "listen_step now rx fin cr =
     (case bk_msgChan (cr_broker cr) of
        [] \<Rightarrow> (if bk_chanClosed (cr_broker cr) then (Returns False, cr, []) else (Blocks, cr, []))
      | bMsg # rest \<Rightarrow>
          (Returns True, cr\<lparr>cr_broker := (cr_broker cr)\<lparr>bk_msgChan := rest\<rparr>\<rparr>,
           handleBrokerMessage now rx fin bMsg cr))"

definition listen_start ::
    "network \<Rightarrow> 's cluster \<Rightarrow> (broker_error, unit) outcome \<times> 's cluster" where
  "listen_start dial cr =
     (case broker_Subscribe dial (cr_broker cr) of (x, b) \<Rightarrow> (x, cr\<lparr>cr_broker := b\<rparr>))"

section \<open>Operations\<close>

text \<open>
  \<open>Publish\<close>: when the broker fails the results of the local publication stand and an error event is raised with the
  broker's error as text (\<open>errtxt\<close>).  The pauses of the retries come last in the result.
\<close>

definition cluster_Publish ::
    "'s executor \<Rightarrow> string list \<Rightarrow> (nat \<Rightarrow> gotime) \<Rightarrow> (int \<Rightarrow> bool) \<Rightarrow> (broker_error \<Rightarrow> string) \<Rightarrow>
     (subscriber \<Rightarrow> nat \<Rightarrow> receive_result) \<Rightarrow> string list \<Rightarrow> string \<Rightarrow> nat \<Rightarrow> publish_options option \<Rightarrow> 's cluster \<Rightarrow>
     (relay_error, delivery_result list) outcome \<times> 's cluster \<times> effect list \<times> duration list" where
  "cluster_Publish exec ord clk ctx errtxt rx fin roomID a opts cr =
     (case rl_Publish exec ord clk rx fin roomID a opts (cr_relay cr) of
        (Returns results, r, es) \<Rightarrow>
          (case PublishMessage exec ctx (cr_broker cr) (rl_msgs r a) (rl_redis r) of
             (x, s, ws) \<Rightarrow>
               (let cr1 = cr\<lparr>cr_relay := r\<lparr>rl_redis := s\<rparr>\<rparr>
                in case x of
                     Returns _ \<Rightarrow> (Returns results, cr1, es, ws)
                   | Fails e \<Rightarrow>
                       (Returns results, cr1,
                        es @ emit (rl_hasHandler r)
                          \<lparr>ev_Type = EventTypeError, ev_RoomID = roomID, ev_UserID = '''', ev_Timestamp = clk 3,
                           ev_Data = PubSubFailedData (msg_ID (rl_msgs r a)) (errtxt e)\<rparr>, ws)
                   | Panics \<Rightarrow> (Panics, cr1, es, ws)
                   | Blocks \<Rightarrow> (Blocks, cr1, es, ws)))
      | (Fails e, r, es) \<Rightarrow> (Fails e, cr\<lparr>cr_relay := r\<rparr>, es, [])
      | (Panics, r, es) \<Rightarrow> (Panics, cr\<lparr>cr_relay := r\<rparr>, es, [])
      | (Blocks, r, es) \<Rightarrow> (Blocks, cr\<lparr>cr_relay := r\<rparr>, es, []))"

definition cluster_NodeID :: "'s cluster \<Rightarrow> string" where
  "cluster_NodeID cr = bk_nodeID (cr_broker cr)"

definition cluster_Close ::
    "('s \<Rightarrow> 's) \<Rightarrow> string list \<Rightarrow> (nat \<Rightarrow> string list) \<Rightarrow> 's cluster \<Rightarrow>
     (cluster_error, unit) outcome \<times> 's cluster \<times> effect list" where
  "cluster_Close closeClient ord ords cr =
     (let cr0 = cr\<lparr>cr_cancelled := True\<rparr>
      in case broker_Close (cr_broker cr0) of
           (Panics, b) \<Rightarrow> (Panics, cr0\<lparr>cr_broker := b\<rparr>, [])
         | (_, b) \<Rightarrow>
             (let (r, es) = rl_Close closeClient ord ords (cr_relay cr0)
              in (Returns (), cr0\<lparr>cr_broker := b, cr_relay := r\<rparr>, es)))"

end
