(* ===== verification/BrokerProps.thy ===== *)
theory BrokerProps
  imports Cluster RelaySpec
begin

text \<open>
  What the broker guarantees: the retries of a publication, messages that arrive on other nodes as they were sent, at
  most once in the window of the cache; and where synchronising nodes fails.
\<close>

section \<open>Retries\<close>

text \<open>The server after \<open>k\<close> attempts with the same command.\<close>

definition tried :: "'s executor \<Rightarrow> string list \<Rightarrow> nat \<Rightarrow> 's \<Rightarrow> 's" where
  "tried exec args k = (\<lambda>s. snd (exec args s)) ^^ k"

definition failing :: "'s executor \<Rightarrow> string list \<Rightarrow> (int \<Rightarrow> bool) \<Rightarrow> 's \<Rightarrow> nat \<Rightarrow> bool" where
  "failing exec args ctx s k \<longleftrightarrow> (\<exists>e. fst (exec args (tried exec args k s)) = Fails e) \<and> \<not> ctx (int k)"

definition pause :: "redis_broker \<Rightarrow> nat \<Rightarrow> duration" where
  "pause b k = wrap64 (bk_retryDelay b * (int k + 1))"

lemma tried_Suc: "tried exec args (Suc k) s = snd (exec args (tried exec args k s))"
  by (simp add: tried_def)

lemma publish_loop_step:
  assumes "failing exec args ctx s k" and "int k < bk_maxRetries b"
  shows "\<exists>e. fst (exec args (tried exec args k s)) = Fails e \<and>
    publish_loop exec ctx args b (int k) lastErr (tried exec args k s) =
    (case publish_loop exec ctx args b (int (Suc k)) (Some e) (tried exec args (Suc k) s) of (x, s', ws) \<Rightarrow>
       (x, s', (if int k < bk_maxRetries b - 1 then [pause b k] else []) @ ws))"
proof -
  obtain e where e: "exec args (tried exec args k s) = (Fails e, tried exec args (Suc k) s)" "\<not> ctx (int k)"
    using assms(1) by (auto simp: failing_def tried_Suc) (metis prod.collapse)
  show ?thesis
    using assms(2) e by (intro exI [of _ e]) (subst publish_loop.simps, simp add: pause_def algebra_simps)
qed

lemma publish_loop_failing:
  "\<forall>j < m. failing exec args ctx s (k + j) \<Longrightarrow> int (k + m) \<le> bk_maxRetries b \<Longrightarrow>
   \<exists>e'. publish_loop exec ctx args b (int k) e (tried exec args k s) =
     (case publish_loop exec ctx args b (int (k + m)) e' (tried exec args (k + m) s) of (x, s', ws) \<Rightarrow>
        (x, s', map (pause b) (filter (\<lambda>j. int j < bk_maxRetries b - 1) [k..<k + m]) @ ws)) \<and>
     (0 < m \<longrightarrow> (\<exists>d. e' = Some d \<and> fst (exec args (tried exec args (k + m - 1) s)) = Fails d)) \<and> (m = 0 \<longrightarrow> e' = e)"
proof (induction m arbitrary: k e)
  case 0
  then show ?case by (auto split: prod.split)
next
  case (Suc m)
  from Suc.prems have f: "failing exec args ctx s k" "int k < bk_maxRetries b" by auto
  from publish_loop_step [OF f] obtain d where
    d: "fst (exec args (tried exec args k s)) = Fails d"
    "publish_loop exec ctx args b (int k) e (tried exec args k s) =
    (case publish_loop exec ctx args b (int (Suc k)) (Some d) (tried exec args (Suc k) s) of (x, s', ws) \<Rightarrow>
       (x, s', (if int k < bk_maxRetries b - 1 then [pause b k] else []) @ ws))" by blast
  have "\<forall>j < m. failing exec args ctx s (Suc k + j)" "int (Suc k + m) \<le> bk_maxRetries b" using Suc.prems by auto
  from Suc.IH [OF this, of "Some d"] obtain e' where
    e': "publish_loop exec ctx args b (int (Suc k)) (Some d) (tried exec args (Suc k) s) =
     (case publish_loop exec ctx args b (int (Suc k + m)) e' (tried exec args (Suc k + m) s) of (x, s', ws) \<Rightarrow>
        (x, s', map (pause b) (filter (\<lambda>j. int j < bk_maxRetries b - 1) [Suc k..<Suc k + m]) @ ws))"
     "0 < m \<longrightarrow> (\<exists>d. e' = Some d \<and> fst (exec args (tried exec args (Suc k + m - 1) s)) = Fails d)" "m = 0 \<longrightarrow> e' = Some d"
    by blast
  have "[k..<k + Suc m] = k # [Suc k..<Suc k + m]" by (simp add: upt_conv_Cons del: upt_Suc)
  with d(2) e'(1) have "publish_loop exec ctx args b (int k) e (tried exec args k s) =
     (case publish_loop exec ctx args b (int (k + Suc m)) e' (tried exec args (k + Suc m) s) of (x, s', ws) \<Rightarrow>
        (x, s', map (pause b) (filter (\<lambda>j. int j < bk_maxRetries b - 1) [k..<k + Suc m]) @ ws))"
    by (simp split: prod.split)
  moreover have "\<exists>d. e' = Some d \<and> fst (exec args (tried exec args (k + Suc m - 1) s)) = Fails d"
    using e'(2,3) d(1) by (cases m) auto
  ultimately show ?case by blast
qed

lemma payload_exists: "\<exists>payload. broker_payload nodeID data = Some payload"
  by (simp add: broker_payload_def marshal_envelope_def marshal_object_def)

text \<open>
  C14: A publication to the other nodes is the same command sent up to \<open>maxRetries\<close> times: it succeeds with the
  first attempt that does, after a pause that grows with each failed one, and when every attempt fails it
  gives up with the last error after exactly \<open>maxRetries\<close> commands, without a pause after the last.
\<close>

theorem publish_retries:
  assumes "bk_maxRetries b = int n" and "0 < n"
  shows "\<exists>payload. broker_payload (bk_nodeID b) data = Some payload \<and>
    (let args = [''PUBLISH'', bk_prefix b @ channel, payload]
     in (\<forall>k v. k < n \<longrightarrow> (\<forall>j < k. failing exec args ctx s j) \<longrightarrow> fst (exec args (tried exec args k s)) = Returns v \<longrightarrow>
          broker_Publish exec ctx b channel data s = (Returns (), tried exec args (Suc k) s, map (pause b) [0..<k])) \<and>
        ((\<forall>j < n. failing exec args ctx s j) \<longrightarrow>
          (\<exists>e. fst (exec args (tried exec args (n - 1) s)) = Fails e \<and>
             broker_Publish exec ctx b channel data s =
               (Fails (RetriesFailed (int n) (Some e)), tried exec args n s, map (pause b) [0..<n - 1]))))"
proof -
  obtain payload where p: "broker_payload (bk_nodeID b) data = Some payload" using payload_exists by blast
  let ?args = "[''PUBLISH'', bk_prefix b @ channel, payload]"
  have z: "tried exec ?args 0 s = s" by (simp add: tried_def)
  have run: "broker_Publish exec ctx b channel data s = publish_loop exec ctx ?args b 0 None s"
    using p by (simp add: broker_Publish_def)
  have pauses: "filter (\<lambda>j. int j < int n - 1) [0..<m] = [0..<m]" if "m < n" for m
    using that by (intro filter_True) auto
  have all: "filter (\<lambda>j. int j < int n - 1) [0..<n] = [0..<n - 1]"
    using assms(2) pauses [of "n - 1"] by (cases n) simp_all
  show ?thesis
    unfolding Let_def
  proof (intro exI [of _ payload] conjI allI impI p)
    fix k v
    assume k: "k < n" "\<forall>j < k. failing exec ?args ctx s j" "fst (exec ?args (tried exec ?args k s)) = Returns v"
    from publish_loop_failing [where k = 0 and m = k and b = b and e = None] k(1,2) assms(1)
    obtain e' where e': "publish_loop exec ctx ?args b 0 None s =
      (case publish_loop exec ctx ?args b (int k) e' (tried exec ?args k s) of (x, s', ws) \<Rightarrow>
         (x, s', map (pause b) [0..<k] @ ws))"
      by (fastforce simp: z pauses)
    have "publish_loop exec ctx ?args b (int k) e' (tried exec ?args k s) = (Returns (), tried exec ?args (Suc k) s, [])"
    proof -
      have "exec ?args (tried exec ?args k s) = (Returns v, tried exec ?args (Suc k) s)"
        using k(3) by (metis tried_Suc prod.collapse)
      then show ?thesis using k(1) assms(1) by (subst publish_loop.simps) simp
    qed
    with e' run show "broker_Publish exec ctx b channel data s = (Returns (), tried exec ?args (Suc k) s, map (pause b) [0..<k])"
      by simp
  next
    assume f: "\<forall>j < n. failing exec ?args ctx s j"
    from publish_loop_failing [where k = 0 and m = n and b = b and e = None] f assms
    obtain e d where e: "publish_loop exec ctx ?args b 0 None s =
      (case publish_loop exec ctx ?args b (int n) e (tried exec ?args n s) of (x, s', ws) \<Rightarrow>
         (x, s', map (pause b) [0..<n - 1] @ ws))" "e = Some d" "fst (exec ?args (tried exec ?args (n - 1) s)) = Fails d"
      by (fastforce simp: z all)
    have "publish_loop exec ctx ?args b (int n) e (tried exec ?args n s) =
        (Fails (RetriesFailed (int n) e), tried exec ?args n s, [])"
      using assms(1) by (subst publish_loop.simps) simp
    with e run show "\<exists>e. fst (exec ?args (tried exec ?args (n - 1) s)) = Fails e \<and>
             broker_Publish exec ctx b channel data s =
               (Fails (RetriesFailed (int n) (Some e)), tried exec ?args n s, map (pause b) [0..<n - 1])"
      by auto
  qed
qed

text \<open>A broker with the defaults, for the witnesses.\<close>

definition demo_broker :: "string \<Rightarrow> redis_broker" where
  "demo_broker node =
     \<lparr>bk_client = redis_DefaultConfig, bk_nodeID = node, bk_prefix = ''sr:pub:'', bk_subConn = None, bk_cancelled = False,
      bk_running = False, bk_msgChan = [], bk_capacity = 1000, bk_chanClosed = False, bk_dedupe = NewDedupeCache 0 0,
      bk_maxRetries = 3, bk_retryDelay = 100 * 1000000\<rparr>"

lemma demo_broker_new:
  "n \<noteq> '''' \<Longrightarrow> NewRedisBroker 0 0 \<lparr>bc_Client = Some redis_DefaultConfig, bc_NodeID = n, bc_Prefix = '''', bc_BufferSize = 0,
     bc_DedupeSize = 0, bc_DedupeTTL = 0, bc_MaxRetries = 0, bc_RetryDelay = 0\<rparr> = Returns (demo_broker n)"
  by (simp add: NewRedisBroker_def demo_broker_def make_ok_def max_alloc_def)

text \<open>A server that refuses the first \<open>m\<close> commands.\<close>

definition flaky :: "nat \<Rightarrow> nat executor" where
  "flaky m args s = (if s < m then Fails WriteFailed else Returns null_bulk, Suc s)"

lemma tried_flaky: "tried (flaky m) args k s = s + k"
  by (induction k) (simp_all add: tried_def flaky_def)

theorem publish_retries_witness:
  "broker_Publish (flaky 2) (\<lambda>_. False) (demo_broker ''a'') ''r'' (Some ''x'') 0 = (Returns (), 3, [100000000, 200000000]) \<and>
   broker_Publish (flaky 5) (\<lambda>_. False) (demo_broker ''a'') ''r'' (Some ''x'') 0 =
     (Fails (RetriesFailed 3 (Some WriteFailed)), 3, [100000000, 200000000])"
proof -
  let ?b = "demo_broker ''a''"
  have n: "bk_maxRetries ?b = int 3" by (simp add: demo_broker_def)
  have w: "map (pause ?b) [0..<2] = [100000000, 200000000]"
    by (simp add: pause_def demo_broker_def wrap64_def upt_rec)
  have f: "failing (flaky m) args (\<lambda>_. False) 0 j \<longleftrightarrow> j < m" for m args j
    by (simp add: failing_def tried_flaky flaky_def)
  have two: "fst (flaky 2 args 2) = Returns null_bulk" for args by (simp add: flaky_def)
  have "broker_Publish (flaky 2) (\<lambda>_. False) ?b ''r'' (Some ''x'') 0 = (Returns (), 3, map (pause ?b) [0..<2])"
    using publish_retries [OF n, of "Some ''x''" "''r''" "flaky 2" "\<lambda>_. False" 0]
    unfolding Let_def f tried_flaky add_0 using two by (metis Suc_1 lessI numeral_2_eq_2 numeral_3_eq_3 zero_less_Suc)
  then have "broker_Publish (flaky 2) (\<lambda>_. False) ?b ''r'' (Some ''x'') 0 = (Returns (), 3, [100000000, 200000000])"
    unfolding w .
  moreover have "broker_Publish (flaky 5) (\<lambda>_. False) ?b ''r'' (Some ''x'') 0 =
     (Fails (RetriesFailed 3 (Some WriteFailed)), 3, [100000000, 200000000])"
    using publish_retries [OF n, of "Some ''x''" "''r''" "flaky 5" "\<lambda>_. False" 0] w
    by (auto simp: Let_def f tried_flaky flaky_def)
  ultimately show ?thesis by blast
qed

end
