(* ===== verification/ClusterProps.thy ===== *)
theory ClusterProps
  imports BrokerProps
begin

text \<open>
  How nodes exchange messages: what one node sends is what the other broadcasts; the subscription queues a message at
  most once in the window of the cache.  And where it fails: messages without an ID, and a subscription that uses up
  the connections of its client.
\<close>

section \<open>Messages of other nodes\<close>

definition pmessage :: "string \<Rightarrow> string \<Rightarrow> pubsub_message" where
  "pmessage channel payload = \<lparr>pubsub_message.ps_Type = ''pmessage'', ps_Pattern = '''', ps_Channel = channel, ps_Data = payload\<rparr>"

text \<open>What a node sends for a message.\<close>

definition sent_payload :: "string \<Rightarrow> message \<Rightarrow> string option" where
  "sent_payload nodeID msg =
     (case marshal_node_message (node_message_of nodeID msg) of
        None \<Rightarrow> None | Some data \<Rightarrow> broker_payload nodeID (Some data))"

lemma PublishMessage_sends:
  "PublishMessage exec ctx b msg s =
     publish_loop exec ctx [''PUBLISH'', bk_prefix b @ msg_RoomID msg, the (sent_payload (bk_nodeID b) msg)] b 0 None s"
proof -
  obtain data where "marshal_node_message (node_message_of (bk_nodeID b) msg) = Some data" using node_marshals by blast
  moreover obtain payload where "broker_payload (bk_nodeID b) (Some data) = Some payload" using payload_exists by blast
  ultimately show ?thesis by (simp add: PublishMessage_def broker_Publish_def sent_payload_def)
qed

definition broker_message_of :: "string \<Rightarrow> string \<Rightarrow> message \<Rightarrow> broker_message" where
  "broker_message_of nodeID channel msg =
     \<lparr>bm_Channel = channel, bm_Data = marshal_node_message (node_message_of nodeID msg), bm_NodeID = nodeID,
      bm_MessageID = msg_ID msg\<rparr>"

lemma accept_sent:
  assumes "sendable nodeID msg" and "nodeID \<noteq> bk_nodeID b"
  shows "accept_message now1 now2 (pmessage channel (the (sent_payload nodeID msg))) b =
    (case IsDuplicate (bk_dedupe b) (msg_ID msg) now1 now2 of
       None \<Rightarrow> (Blocks, b)
     | Some (True, d) \<Rightarrow> (Returns (), b\<lparr>bk_dedupe := d\<rparr>)
     | Some (False, d) \<Rightarrow>
         (if bk_chanClosed b then (Panics, b\<lparr>bk_dedupe := d\<rparr>)
          else if int (length (bk_msgChan b)) < bk_capacity b
          then (Returns (), b\<lparr>bk_dedupe := d, bk_msgChan := bk_msgChan b @ [broker_message_of nodeID channel msg]\<rparr>)
          else (Returns (), b\<lparr>bk_dedupe := d\<rparr>)))"
proof -
  from payload_reads_back [OF assms(1)] obtain data payload where
    p: "marshal_node_message (node_message_of nodeID msg) = Some data" "broker_payload nodeID (Some data) = Some payload"
    "unmarshal envelope_fields payload zero_envelope = (\<lparr>wr_NodeID = nodeID, wr_Data = Some data\<rparr>, True)"
    "unmarshal node_message_fields data zero_node_message = (node_message_of nodeID msg, True)"
    by blast
  have i: "nd_MessageID (node_message_of nodeID msg) = msg_ID msg" by (simp add: node_message_of_def)
  show ?thesis
    using assms(2) p i
    by (auto simp: accept_message_def sent_payload_def pmessage_def broker_message_of_def content_text_def Let_def
        split: option.split prod.split bool.split)
qed

lemma handle_sent:
  assumes "sendable nodeID msg" and "rl_GetRoom (cr_relay cr) (msg_RoomID msg) = Some h"
  shows "handleBrokerMessage now rx fin (broker_message_of nodeID channel msg) cr =
    snd (Room_Broadcast now (rl_hasHandler (cr_relay cr)) rx fin (rl_heap (cr_relay cr) h)
      (msg\<lparr>msg_Timestamp := time_of_milli (time_to_milli (msg_Timestamp msg))\<rparr>) (Some remote_options))"
proof -
  from payload_reads_back [OF assms(1)] obtain data where
    p: "marshal_node_message (node_message_of nodeID msg) = Some data"
    "unmarshal node_message_fields data zero_node_message = (node_message_of nodeID msg, True)"
    "message_of_node (node_message_of nodeID msg) = msg\<lparr>msg_Timestamp := time_of_milli (time_to_milli (msg_Timestamp msg))\<rparr>"
    by blast
  then show ?thesis
    using assms(2) by (simp add: handleBrokerMessage_def broker_message_of_def content_text_def Let_def)
qed

text \<open>
  A message published on one node reaches the other nodes as it was: another node that
  has not seen its ID queues it, and its listener broadcasts it, the time stamp cut to milliseconds, to the local room.
\<close>

lemma message_crosses_nodes:
  assumes msg: "sendable (bk_nodeID a) msg" "bk_nodeID a \<noteq> bk_nodeID (cr_broker cr)"
    and new: "IsDuplicate (bk_dedupe (cr_broker cr)) (msg_ID msg) now1 now2 = Some (False, d)"
    and free: "\<not> bk_chanClosed (cr_broker cr)" "bk_msgChan (cr_broker cr) = []" "0 < bk_capacity (cr_broker cr)"
    and room: "rl_GetRoom (cr_relay cr) (msg_RoomID msg) = Some h"
      "table_ok (rm_subscribers (rl_heap (cr_relay cr) h)) (rm_presence (rl_heap (cr_relay cr) h))"
    and sub: "rm_subscribers (rl_heap (cr_relay cr) h) (sub_ID s) = Some s" "sub_ID s \<in> set fin" "rx s 0 = RecvOk"
      "sub_ID s \<noteq> msg_SenderID msg"
  shows "\<exists>payload b cr' es.
    PublishMessage exec ctx a msg st = publish_loop exec ctx [''PUBLISH'', bk_prefix a @ msg_RoomID msg, payload] a 0 None st \<and>
    accept_message now1 now2 (pmessage (bk_prefix a @ msg_RoomID msg) payload) (cr_broker cr) = (Returns (), b) \<and>
    listen_step now rx fin (cr\<lparr>cr_broker := b\<rparr>) = (Returns True, cr', es) \<and> cr_relay cr' = cr_relay cr \<and>
    es = snd (Room_Broadcast now (rl_hasHandler (cr_relay cr)) rx fin (rl_heap (cr_relay cr) h)
      (msg\<lparr>msg_Timestamp := time_of_milli (time_to_milli (msg_Timestamp msg))\<rparr>) (Some remote_options)) \<and>
    receives s es = 1"
proof -
  let ?ch = "bk_prefix a @ msg_RoomID msg" and ?p = "the (sent_payload (bk_nodeID a) msg)"
  let ?b = "(cr_broker cr)\<lparr>bk_dedupe := d, bk_msgChan := [broker_message_of (bk_nodeID a) ?ch msg]\<rparr>"
  let ?m = "msg\<lparr>msg_Timestamp := time_of_milli (time_to_milli (msg_Timestamp msg))\<rparr>"
  let ?es = "snd (Room_Broadcast now (rl_hasHandler (cr_relay cr)) rx fin (rl_heap (cr_relay cr) h) ?m (Some remote_options))"
  have "accept_message now1 now2 (pmessage ?ch ?p) (cr_broker cr) = (Returns (), ?b)"
    using accept_sent [OF msg] new free by simp
  moreover have "handleBrokerMessage now rx fin (broker_message_of (bk_nodeID a) ?ch msg) (cr\<lparr>cr_broker := ?b\<rparr>) = ?es"
    using handle_sent [OF msg(1), of "cr\<lparr>cr_broker := ?b\<rparr>"] room(1) by simp
  then have "listen_step now rx fin (cr\<lparr>cr_broker := ?b\<rparr>) = (Returns True, cr\<lparr>cr_broker := ?b\<lparr>bk_msgChan := []\<rparr>\<rparr>, ?es)"
    by (simp add: listen_step_def)
  moreover have "receives s ?es = 1"
    using Room_Broadcast_receives [where rx = rx, OF room(2) sub(1-3), of now "rl_hasHandler (cr_relay cr)" ?m "Some remote_options"]
      sub(4) by (simp add: skipped_def)
  ultimately show ?thesis
    by (intro exI [of _ ?p] exI [of _ ?b] exI [of _ "cr\<lparr>cr_broker := ?b\<lparr>bk_msgChan := []\<rparr>\<rparr>"] exI [of _ ?es])
      (simp add: PublishMessage_sends)
qed

section \<open>At most once\<close>

text \<open>What happens to a broker between its operations: a message arrives, the clean-up ticks, the relay takes a message.\<close>

datatype broker_event =
    Arrives gotime gotime pubsub_message
  | Ticks "string list" gotime
  | Taken

fun broker_step :: "redis_broker \<Rightarrow> broker_event \<Rightarrow> redis_broker" where
  "broker_step b (Arrives now1 now2 m) = snd (accept_message now1 now2 m b)"
| "broker_step b (Ticks ord now) = cleanup_tick ord now b"
| "broker_step b Taken = b\<lparr>bk_msgChan := tl (bk_msgChan b)\<rparr>"

text \<open>The messages an event, and a run, add to the channel.\<close>

fun added :: "redis_broker \<Rightarrow> broker_event \<Rightarrow> broker_message list" where
  "added b (Arrives now1 now2 m) = drop (length (bk_msgChan b)) (bk_msgChan (snd (accept_message now1 now2 m b)))"
| "added b _ = []"

fun queued :: "redis_broker \<Rightarrow> broker_event list \<Rightarrow> broker_message list" where
  "queued b [] = []"
| "queued b (ev # evs) = added b ev @ queued (broker_step b ev) evs"

text \<open>An arrival leaves the broker alone, or asks the cache about one ID and may queue one message with that ID.\<close>

lemma accept_cases:
  "snd (accept_message now1 now2 m b) = b \<or>
   (\<exists>i dup d ms. IsDuplicate (bk_dedupe b) i now1 now2 = Some (dup, d) \<and>
      snd (accept_message now1 now2 m b) = b\<lparr>bk_dedupe := d, bk_msgChan := bk_msgChan b @ ms\<rparr> \<and>
      (\<forall>bm \<in> set ms. \<not> dup \<and> bm_MessageID bm = i \<and> bm_NodeID bm \<noteq> bk_nodeID b) \<and>
      int (length (bk_msgChan b @ ms)) \<le> max (bk_capacity b) (int (length (bk_msgChan b))))"
proof -
  obtain w ok where w: "unmarshal envelope_fields (pubsub_message.ps_Data m) zero_envelope = (w, ok)" by fastforce
  obtain n ok' where n: "unmarshal node_message_fields (content_text (wr_Data w)) zero_node_message = (n, ok')" by fastforce
  show ?thesis
  proof (cases "pubsub_message.ps_Type m = ''pmessage'' \<and> ok \<and> wr_NodeID w \<noteq> bk_nodeID b \<and> ok' \<and>
      IsDuplicate (bk_dedupe b) (nd_MessageID n) now1 now2 \<noteq> None")
    case False
    then have "snd (accept_message now1 now2 m b) = b"
      by (cases "IsDuplicate (bk_dedupe b) (nd_MessageID n) now1 now2") (auto simp: accept_message_def w n)
    then show ?thesis ..
  next
    case True
    then obtain dup d where d: "IsDuplicate (bk_dedupe b) (nd_MessageID n) now1 now2 = Some (dup, d)" by auto
    let ?bm = "\<lparr>bm_Channel = pubsub_message.ps_Channel m, bm_Data = wr_Data w, bm_NodeID = wr_NodeID w, bm_MessageID = nd_MessageID n\<rparr>"
    let ?ms = "if \<not> dup \<and> \<not> bk_chanClosed b \<and> int (length (bk_msgChan b)) < bk_capacity b then [?bm] else []"
    have "snd (accept_message now1 now2 m b) = b\<lparr>bk_dedupe := d, bk_msgChan := bk_msgChan b @ ?ms\<rparr>"
      using True d by (cases dup) (auto simp: accept_message_def w n Let_def)
    with d True show ?thesis
      by (intro disjI2 exI [of _ "nd_MessageID n"] exI [of _ dup] exI [of _ d] exI [of _ ?ms]) auto
  qed
qed

text \<open>The invariant of a broker made with \<open>NewRedisBroker\<close>.\<close>

definition broker_inv :: "redis_broker \<Rightarrow> redis_broker \<Rightarrow> bool" where
  "broker_inv b0 b \<longleftrightarrow>
     dd_inv (bk_dedupe b) \<and> bk_nodeID b = bk_nodeID b0 \<and> dd_maxSize (bk_dedupe b) = dd_maxSize (bk_dedupe b0) \<and>
     dd_ttl (bk_dedupe b) = dd_ttl (bk_dedupe b0) \<and> bk_capacity b = bk_capacity b0 \<and>
     int (length (bk_msgChan b)) \<le> bk_capacity b \<and> (\<forall>bm \<in> set (bk_msgChan b). bm_NodeID bm \<noteq> bk_nodeID b0)"

lemma IsDuplicate_keeps:
  assumes "dd_inv d" and "IsDuplicate d i now1 now2 = Some (dup, d')"
  shows "dd_inv d'" and "dd_maxSize d' = dd_maxSize d" and "dd_ttl d' = dd_ttl d"
    and "(dup, dd_abs d') = seen_spec (nat (dd_maxSize d)) (dd_ttl d) i now1 now2 (dd_abs d)"
  using IsDuplicate_refines [OF assms(1), of i now1 now2] assms(2) by (auto simp: prod_eq_iff)

lemma broker_step_inv: "broker_inv b0 b \<Longrightarrow> broker_inv b0 (broker_step b ev)"
proof (cases ev)
  case (Arrives now1 now2 m)
  assume inv: "broker_inv b0 b"
  from accept_cases [of now1 now2 m b] show ?thesis
  proof (elim disjE exE conjE)
    assume "snd (accept_message now1 now2 m b) = b"
    with inv Arrives show ?thesis by simp
  next
    fix i dup d ms
    assume d: "IsDuplicate (bk_dedupe b) i now1 now2 = Some (dup, d)"
      and s: "snd (accept_message now1 now2 m b) = b\<lparr>bk_dedupe := d, bk_msgChan := bk_msgChan b @ ms\<rparr>"
      and ms: "\<forall>bm \<in> set ms. \<not> dup \<and> bm_MessageID bm = i \<and> bm_NodeID bm \<noteq> bk_nodeID b"
      and len: "int (length (bk_msgChan b @ ms)) \<le> max (bk_capacity b) (int (length (bk_msgChan b)))"
    have "dd_inv (bk_dedupe b)" using inv by (simp add: broker_inv_def)
    from IsDuplicate_keeps(1-3) [OF this d] inv ms len show ?thesis
      unfolding Arrives broker_step.simps s by (auto simp: broker_inv_def)
  qed
next
  case (Ticks ord now)
  assume "broker_inv b0 b"
  with dd_step_inv [of "bk_dedupe b" "Clean ord now"] Ticks show ?thesis
    by (simp add: broker_inv_def cleanup_tick_def dd_step_def)
next
  case Taken
  assume "broker_inv b0 b"
  then show ?thesis using Taken by (cases "bk_msgChan b") (auto simp: broker_inv_def)
qed

interpretation brokers: step_machine broker_step "broker_inv b0" for b0
  by unfold_locales (rule broker_step_inv)

lemma returns_if: "(if P then Panics else Returns x) = Returns y \<longleftrightarrow> \<not> P \<and> x = y"
  by simp

lemma new_broker_inv:
  assumes "NewRedisBroker t1 t2 cfg = Returns b"
  shows "broker_inv b b" and "bk_msgChan b = []"
proof -
  obtain client where "bc_Client cfg = Some client" using assms by (cases "bc_Client cfg") (auto simp: NewRedisBroker_def)
  with assms have "bk_dedupe b = NewDedupeCache (bc_DedupeSize cfg) (bc_DedupeTTL cfg) \<and> bk_msgChan b = [] \<and>
      bk_capacity b = (if bc_BufferSize cfg \<le> 0 then 1000 else bc_BufferSize cfg)"
    by (auto simp: NewRedisBroker_def Let_def returns_if)
  then show "broker_inv b b" "bk_msgChan b = []" by (auto simp: broker_inv_def dd_inv_new)
qed

text \<open>Events while the entry of an ID seen at \<open>ts\<close> is fresh.\<close>

fun timely :: "gotime \<Rightarrow> duration \<Rightarrow> broker_event \<Rightarrow> bool" where
  "timely ts ttl (Arrives now1 now2 m) \<longleftrightarrow> time_Sub now1 ts < ttl"
| "timely ts ttl (Ticks ord now) \<longleftrightarrow> time_Sub now ts \<le> ttl"
| "timely ts ttl Taken \<longleftrightarrow> True"

fun arrivals :: "broker_event list \<Rightarrow> nat" where
  "arrivals [] = 0"
| "arrivals (Arrives _ _ _ # evs) = Suc (arrivals evs)"
| "arrivals (_ # evs) = arrivals evs"

lemma arrival_remembered:
  assumes inv: "dd_inv (bk_dedupe b)" and rem: "remembers i ts k (dd_abs (bk_dedupe b))"
    and fresh: "time_Sub now1 ts < dd_ttl (bk_dedupe b)" and room: "Suc k < nat (dd_maxSize (bk_dedupe b))"
  shows "i \<notin> bm_MessageID ` set (added b (Arrives now1 now2 m)) \<and>
    (let b' = broker_step b (Arrives now1 now2 m)
     in dd_inv (bk_dedupe b') \<and> dd_ttl (bk_dedupe b') = dd_ttl (bk_dedupe b) \<and>
        dd_maxSize (bk_dedupe b') = dd_maxSize (bk_dedupe b) \<and> remembers i ts (Suc k) (dd_abs (bk_dedupe b')))"
  using accept_cases [of now1 now2 m b]
proof (elim disjE exE conjE)
  assume "snd (accept_message now1 now2 m b) = b"
  with inv rem show ?thesis by (auto intro: remembers_mono)
next
  fix j dup d ms
  assume d: "IsDuplicate (bk_dedupe b) j now1 now2 = Some (dup, d)"
    and s: "snd (accept_message now1 now2 m b) = b\<lparr>bk_dedupe := d, bk_msgChan := bk_msgChan b @ ms\<rparr>"
    and ms: "\<forall>bm \<in> set ms. \<not> dup \<and> bm_MessageID bm = j \<and> bm_NodeID bm \<noteq> bk_nodeID b"
  note keeps = IsDuplicate_keeps [OF inv d]
  have "i \<notin> bm_MessageID ` set ms \<and> remembers i ts (Suc k) (dd_abs d)"
  proof (cases "j = i")
    case True
    with remembers_lookup [OF rem] fresh keeps(4) have "dup" "dd_abs d = dd_abs (bk_dedupe b)"
      by (auto simp: seen_spec_def)
    with ms rem show ?thesis by (auto intro: remembers_mono)
  next
    case False
    with seen_spec_remembers [OF rem False room] keeps(4) ms show ?thesis by (metis image_iff snd_conv)
  qed
  with keeps(1-3) s show ?thesis by (simp add: Let_def)
qed

lemma queued_not_again:
  "dd_inv (bk_dedupe b) \<Longrightarrow> remembers i ts k (dd_abs (bk_dedupe b)) \<Longrightarrow>
   \<forall>ev \<in> set evs. timely ts (dd_ttl (bk_dedupe b)) ev \<Longrightarrow> k + arrivals evs < nat (dd_maxSize (bk_dedupe b)) \<Longrightarrow>
   i \<notin> bm_MessageID ` set (queued b evs)"
proof (induction evs arbitrary: b k)
  case (Cons ev evs)
  show ?case
  proof (cases ev)
    case (Arrives now1 now2 m)
    have "time_Sub now1 ts < dd_ttl (bk_dedupe b)" "Suc k < nat (dd_maxSize (bk_dedupe b))"
      using Cons.prems(3,4) Arrives by simp_all
    from arrival_remembered [OF Cons.prems(1,2) this, of now2 m] Cons.IH [of "broker_step b ev" "Suc k"] Cons.prems(3,4) Arrives
    show ?thesis by (simp add: Let_def image_Un del: added.simps broker_step.simps)
  next
    case (Ticks ord now)
    have "dd_inv (dd_step (bk_dedupe b) (Clean ord now)) \<and> dd_ttl (dd_step (bk_dedupe b) (Clean ord now)) = dd_ttl (bk_dedupe b) \<and>
        dd_maxSize (dd_step (bk_dedupe b) (Clean ord now)) = dd_maxSize (bk_dedupe b) \<and>
        remembers i ts k (dd_abs (dd_step (bk_dedupe b) (Clean ord now)))"
      using dd_step_Clean [OF Cons.prems(1), of ord now] dd_step_inv [OF Cons.prems(1), of "Clean ord now"] Cons.prems(2,3) Ticks
      by (auto intro!: remembers_filter)
    then have "dd_inv (bk_dedupe (broker_step b ev)) \<and> dd_ttl (bk_dedupe (broker_step b ev)) = dd_ttl (bk_dedupe b) \<and>
        dd_maxSize (bk_dedupe (broker_step b ev)) = dd_maxSize (bk_dedupe b) \<and> remembers i ts k (dd_abs (bk_dedupe (broker_step b ev)))"
      using Cons.prems(1,2) by (simp add: Ticks cleanup_tick_def dd_step_def)
    with Cons.IH [of "broker_step b ev" k] Cons.prems(3,4) Ticks show ?thesis by simp
  next
    case Taken
    with Cons show ?thesis by simp
  qed
qed simp

lemma queued_once:
  assumes "NewRedisBroker t1 t2 cfg = Returns b0"
    and "bm \<in> set (added (foldl broker_step b0 evs0) (Arrives now1 ts m))"
    and "\<forall>ev \<in> set evs. timely ts (dd_ttl (bk_dedupe b0)) ev"
    and "arrivals evs < nat (dd_maxSize (bk_dedupe b0))"
  shows "bm_NodeID bm \<noteq> bk_nodeID b0 \<and>
    bm_MessageID bm \<notin> bm_MessageID ` set (queued (broker_step (foldl broker_step b0 evs0) (Arrives now1 ts m)) evs)"
proof -
  let ?b = "foldl broker_step b0 evs0"
  let ?b1 = "broker_step ?b (Arrives now1 ts m)"
  have inv: "broker_inv b0 ?b" by (rule brokers.run_from_inv) (rule new_broker_inv(1) [OF assms(1)])
  then have wf: "dd_inv (bk_dedupe ?b)" and same: "dd_maxSize (bk_dedupe ?b) = dd_maxSize (bk_dedupe b0)"
      "dd_ttl (bk_dedupe ?b) = dd_ttl (bk_dedupe b0)" "bk_nodeID ?b = bk_nodeID b0"
    by (simp_all add: broker_inv_def)
  from accept_cases [of now1 ts m ?b] assms(2) obtain i dup d ms where
    d: "IsDuplicate (bk_dedupe ?b) i now1 ts = Some (dup, d)"
    and s: "snd (accept_message now1 ts m ?b) = ?b\<lparr>bk_dedupe := d, bk_msgChan := bk_msgChan ?b @ ms\<rparr>"
    and ms: "\<forall>bm \<in> set ms. \<not> dup \<and> bm_MessageID bm = i \<and> bm_NodeID bm \<noteq> bk_nodeID ?b"
    by auto
  from assms(2) s have "bm \<in> set ms" by simp
  with ms have bm: "\<not> dup" "bm_MessageID bm = i" "bm_NodeID bm \<noteq> bk_nodeID b0" using same by auto
  note keeps = IsDuplicate_keeps [OF wf d]
  have "distinct (map fst (dd_abs (bk_dedupe ?b)))" "0 < nat (dd_maxSize (bk_dedupe ?b))"
    using wf by (simp_all add: dd_inv_def dd_wf_def fst_dd_abs)
  with seen_spec_fresh [of "nat (dd_maxSize (bk_dedupe ?b))" "dd_ttl (bk_dedupe ?b)" i now1 ts "dd_abs (bk_dedupe ?b)"] keeps(4) bm(1)
  have "remembers i ts 0 (dd_abs d)" by (metis fst_conv snd_conv)
  with queued_not_again [of ?b1 i ts 0 evs] keeps(1-3) s same assms(3,4) bm show ?thesis by simp
qed

text \<open>
  C10: The subscription hands a message over at most once: whatever arrived before, once it has queued a message no other
  with the same ID is queued while the ID is younger than the time to live and fewer messages arrive than the cache
  holds; and what it queues never comes from the node itself.
\<close>

theorem broker_queues_once:
  assumes "NewRedisBroker t1 t2 cfg = Returns b0"
    and "bm \<in> set (added (foldl broker_step b0 evs0) (Arrives now1 ts m))"
    and "\<forall>ev \<in> set evs. timely ts (dd_ttl (bk_dedupe b0)) ev"
    and "arrivals evs < nat (dd_maxSize (bk_dedupe b0))"
  shows "bm_NodeID bm \<noteq> bk_nodeID b0 \<and>
    bm_MessageID bm \<notin> bm_MessageID ` set (queued (broker_step (foldl broker_step b0 evs0) (Arrives now1 ts m)) evs)"
  by (rule queued_once [OF assms])

section \<open>A sample message\<close>

definition node_sample :: "string \<Rightarrow> message" where
  "node_sample i =
     \<lparr>msg_ID = i, msg_RoomID = ''r'', msg_SenderID = ''ann'', msg_Type = ''text'', msg_Content = Some ''hi'',
      msg_Metadata = Map.empty, msg_Timestamp = 0\<rparr>"

lemma sample_sendable: "list_all (\<lambda>c. byte_of c < 0x80) i \<Longrightarrow> sendable ''a'' (node_sample i)"
  by (simp add: sendable_def valid_node_def node_message_of_def node_sample_def ascii_valid valid_map_def time_to_milli_def
      in_int64_def min_int64_def max_int64_def)

lemma empty_cache_new:
  "\<exists>d. IsDuplicate (NewDedupeCache 0 0) i now1 now2 = Some (False, d)"
  using IsDuplicate_refines [OF dd_inv_new, of 0 0 i now1 now2] by (auto simp: seen_spec_def)

lemma demo_broker_simps [simp]:
  "bk_dedupe (demo_broker n) = NewDedupeCache 0 0" "bk_chanClosed (demo_broker n) = False" "bk_msgChan (demo_broker n) = []"
  "bk_capacity (demo_broker n) = 1000" "bk_nodeID (demo_broker n) = n"
  by (simp_all add: demo_broker_def)

text \<open>A node whose room has one subscriber.\<close>

definition demo_cluster :: "mini_redis cluster" where
  "demo_cluster =
     \<lparr>cr_relay = (mini_relay [])\<lparr>rl_heap := \<lambda>_. (Room_Start (newRoom (NewRoomConfig ''r'' []) 0))
        \<lparr>rm_subscribers := [''bob'' \<mapsto> \<lparr>sub_handle = 3, sub_ID = ''bob''\<rparr>],
         rm_presence := [''bob'' \<mapsto> \<lparr>pi_UserID = ''bob'', pi_ClientID = ''bob'', pi_ConnectedAt = 0\<rparr>]\<rparr>\<rparr>,
      cr_broker = demo_broker ''b'', cr_cancelled = False\<rparr>"

theorem broker_queues_once_witness:
  "let arrival = (\<lambda>t. Arrives t t (pmessage ''sr:pub:r'' (the (sent_payload ''a'' (node_sample ''1-0'')))));
       b = demo_broker ''b''
   in map bm_MessageID (added b (arrival 5)) = [''1-0''] \<and>
      ''1-0'' \<notin> bm_MessageID ` set (queued (broker_step b (arrival 5)) [arrival 6, Taken, Ticks [''1-0''] 7, arrival 8])"
proof -
  let ?m = "pmessage ''sr:pub:r'' (the (sent_payload ''a'' (node_sample ''1-0'')))"
  let ?b = "demo_broker ''b''" and ?bm = "broker_message_of ''a'' ''sr:pub:r'' (node_sample ''1-0'')"
  have i: "msg_ID (node_sample ''1-0'') = ''1-0''" "bm_MessageID ?bm = ''1-0''"
    by (simp_all add: node_sample_def broker_message_of_def)
  obtain d where d: "IsDuplicate (NewDedupeCache 0 0) ''1-0'' 5 5 = Some (False, d)" using empty_cache_new by blast
  have a: "added ?b (Arrives 5 5 ?m) = [?bm]"
    using accept_sent [of "''a''" "node_sample ''1-0''" ?b 5 5 "''sr:pub:r''"] sample_sendable [of "''1-0''"] d i by simp
  have "bm_MessageID ?bm \<notin> bm_MessageID ` set (queued (broker_step (foldl broker_step ?b []) (Arrives 5 5 ?m))
      [Arrives 6 6 ?m, Taken, Ticks [''1-0''] 7, Arrives 8 8 ?m])"
    using broker_queues_once [OF demo_broker_new [of "''b''"], of ?bm "[]" 5 5 ?m "[Arrives 6 6 ?m, Taken, Ticks [''1-0''] 7, Arrives 8 8 ?m]"] a
    by (simp add: NewDedupeCache_def time_Sub_def min_int64_def max_int64_def second_def)
  with a i show ?thesis by (simp add: Let_def del: queued.simps broker_step.simps added.simps)
qed

section \<open>From a publication to the subscribers of all nodes\<close>

text \<open>A publication that returns has returned what the local relay did, and has tried to tell the other nodes.\<close>

lemma cluster_Publish_returns:
  assumes "cluster_Publish exec ord clk ctx errtxt rx fin roomID a opts cr = (Returns results, cr', es, ws)"
  shows "\<exists>r es0 x s ev. rl_Publish exec ord clk rx fin roomID a opts (cr_relay cr) = (Returns results, r, es0) \<and>
    PublishMessage exec ctx (cr_broker cr) (rl_msgs r a) (rl_redis r) = (x, s, ws) \<and> (x = Returns () \<or> (\<exists>e. x = Fails e)) \<and>
    cr' = cr\<lparr>cr_relay := r\<lparr>rl_redis := s\<rparr>\<rparr> \<and> (es = es0 \<or> es = es0 @ emit (rl_hasHandler r) ev)"
proof -
  from assms obtain r es0 where p: "rl_Publish exec ord clk rx fin roomID a opts (cr_relay cr) = (Returns results, r, es0)"
    by (auto simp: cluster_Publish_def Let_def split: prod.splits outcome.splits)
  obtain x s ws' where m: "PublishMessage exec ctx (cr_broker cr) (rl_msgs r a) (rl_redis r) = (x, s, ws')" by (metis prod_cases3)
  from assms p m show ?thesis
    by (cases x) (auto simp: cluster_Publish_def Let_def)
qed


definition demo_node :: "string \<Rightarrow> mini_redis cluster" where
  "demo_node n = demo_cluster\<lparr>cr_broker := demo_broker n\<rparr>"

definition demo_ephemeral :: publish_options where
  "demo_ephemeral = \<lparr>po_SkipSender = False, po_Priority = 0, po_TTL = 0, po_Persist = False\<rparr>"

lemma demo_node_facts:
  "cr_broker (demo_node n) = demo_broker n" "rl_GetRoom (cr_relay (demo_node n)) ''r'' = Some 0"
  "rm_subscribers (rl_heap (cr_relay (demo_node n)) h) = [''bob'' \<mapsto> \<lparr>sub_handle = 3, sub_ID = ''bob''\<rparr>]"
  "table_ok (rm_subscribers (rl_heap (cr_relay (demo_node n)) h)) (rm_presence (rl_heap (cr_relay (demo_node n)) h))"
  "rl_msgs (cr_relay (demo_node n)) a = rl_msgs (mini_relay []) a"
  by (auto simp: demo_node_def demo_cluster_def mini_relay_facts rl_GetRoom_def table_ok_def split: if_splits)

lemma demo_sent:
  "dated 5 ''r'' (rl_msgs (mini_relay []) 1) = \<lparr>msg_ID = '''', msg_RoomID = ''r'', msg_SenderID = ''ann'', msg_Type = ''text'',
     msg_Content = Some ''x'', msg_Metadata = Map.empty, msg_Timestamp = 5\<rparr>"
  by (simp add: mini_relay_def rl_CreateRoom_def relay_over_def DefaultConfig_def NewRoomConfig_def dated_def time_IsZero_def)

lemma demo_cluster_publish:
  fixes exec :: "mini_redis executor" and rx fin
  defines "exec \<equiv> \<lambda>_ s. (Returns null_bulk, s)"
  shows "\<exists>results here' es ws.
    cluster_Publish exec [] (\<lambda>_. 5) (\<lambda>_. False) (\<lambda>_. '''') rx fin ''r'' 1 (Some demo_ephemeral) (demo_node ''a'') =
      (Returns results, here', es, ws) \<and>
    rl_msgs (cr_relay here') 1 = dated 5 ''r'' (rl_msgs (mini_relay []) 1)"
proof -
  let ?m = "dated 5 ''r'' (rl_msgs (mini_relay []) 1)" and ?r = "cr_relay (demo_node ''a'')"
  obtain res es where b: "Room_Broadcast 5 (rl_hasHandler ?r) rx fin (rl_heap ?r 0) ?m (Some demo_ephemeral) = (res, es)"
    by fastforce
  have k: "?m\<lparr>msg_ID := msg_ID ?m\<rparr> = ?m" by simp
  let ?r' = "?r\<lparr>rl_msgs := (rl_msgs ?r)(1 := ?m), rl_totalMessages := wrap64 (rl_totalMessages ?r + 1)\<rparr>"
  have "\<exists>es'. rl_Publish exec [] (\<lambda>_. 5) rx fin ''r'' 1 (Some demo_ephemeral) ?r = (Returns res, ?r', es')"
    using b by (simp add: rl_Publish_def demo_node_facts opts_or_default_def demo_ephemeral_def Let_def)
  then obtain es' where p: "rl_Publish exec [] (\<lambda>_. 5) rx fin ''r'' 1 (Some demo_ephemeral) ?r = (Returns res, ?r', es')" ..
  have "PublishMessage exec (\<lambda>_. False) (demo_broker ''a'') m s = (Returns (), s, [])" for m s
    unfolding PublishMessage_sends by (subst publish_loop.simps) (simp add: exec_def demo_broker_def)
  with p show ?thesis by (simp add: cluster_Publish_def demo_node_facts)
qed


section \<open>Messages without an ID\<close>

lemma queued_snoc: "queued b (evs @ [ev]) = queued b evs @ added (foldl broker_step b evs) ev"
  by (induction evs arbitrary: b) simp_all

lemma arrivals_snoc: "arrivals (evs @ [Arrives now1 now2 m]) = Suc (arrivals evs)"
  by (induction evs rule: arrivals.induct) simp_all

lemma added_sent:
  "sendable nodeID msg \<Longrightarrow> bm \<in> set (added b (Arrives now1 now2 (pmessage channel (the (sent_payload nodeID msg))))) \<Longrightarrow>
   bm_MessageID bm = msg_ID msg"
proof (cases "nodeID = bk_nodeID b")
  case False
  assume "sendable nodeID msg" and "bm \<in> set (added b (Arrives now1 now2 (pmessage channel (the (sent_payload nodeID msg)))))"
  with accept_sent [OF this(1) False, of now1 now2 channel] show ?thesis
    by (auto simp: broker_message_of_def split: option.splits prod.splits bool.splits if_splits)
next
  case True
  assume m: "sendable nodeID msg" and bm: "bm \<in> set (added b (Arrives now1 now2 (pmessage channel (the (sent_payload nodeID msg)))))"
  from payload_reads_back [OF m] obtain data payload where
    "marshal_node_message (node_message_of nodeID msg) = Some data" "broker_payload nodeID (Some data) = Some payload"
    "unmarshal envelope_fields payload zero_envelope = (\<lparr>wr_NodeID = nodeID, wr_Data = Some data\<rparr>, True)"
    by blast
  with bm True show ?thesis by (simp add: accept_message_def sent_payload_def pmessage_def)
qed

text \<open>
  C37: Ephemeral messages have no ID, and the cache takes the empty ID for one message: once a message without an ID was
  queued, every other one, whatever its room, sender and contents, is dropped until the time to live is over.
\<close>

theorem ephemeral_messages_lost:
  assumes "NewRedisBroker t1 t2 cfg = Returns b0"
    and "sendable na m" "msg_ID m = ''''" and "sendable nb m'" "msg_ID m' = ''''"
    and "added (foldl broker_step b0 evs0) (Arrives now1 ts (pmessage ch (the (sent_payload na m)))) \<noteq> []"
    and "\<forall>ev \<in> set evs. timely ts (dd_ttl (bk_dedupe b0)) ev" and "time_Sub now1' ts < dd_ttl (bk_dedupe b0)"
    and "Suc (arrivals evs) < nat (dd_maxSize (bk_dedupe b0))"
  shows "added (foldl broker_step b0 (evs0 @ Arrives now1 ts (pmessage ch (the (sent_payload na m))) # evs))
    (Arrives now1' now2' (pmessage ch' (the (sent_payload nb m')))) = []"
proof -
  let ?ev = "Arrives now1 ts (pmessage ch (the (sent_payload na m)))"
  let ?ev' = "Arrives now1' now2' (pmessage ch' (the (sent_payload nb m')))"
  let ?b = "foldl broker_step b0 evs0"
  from assms(6) obtain bm where bm: "bm \<in> set (added ?b ?ev)" by (meson last_in_set)
  with added_sent [OF assms(2)] assms(3) have i: "bm_MessageID bm = ''''" by auto
  have "\<forall>ev \<in> set (evs @ [?ev']). timely ts (dd_ttl (bk_dedupe b0)) ev" using assms(7,8) by auto
  moreover have "arrivals (evs @ [?ev']) < nat (dd_maxSize (bk_dedupe b0))" using assms(9) by (simp add: arrivals_snoc)
  ultimately have "'''' \<notin> bm_MessageID ` set (queued (broker_step ?b ?ev) (evs @ [?ev']))"
    using queued_once [OF assms(1) bm, of "evs @ [?ev']"] i by (simp del: added.simps broker_step.simps queued.simps)
  then have "'''' \<notin> bm_MessageID ` set (added (foldl broker_step (broker_step ?b ?ev) evs) ?ev')"
    unfolding queued_snoc by auto
  then have "'''' \<notin> bm_MessageID ` set (added (foldl broker_step b0 (evs0 @ ?ev # evs)) ?ev')"
    by (simp del: added.simps broker_step.simps)
  moreover have "bm' \<in> set (added b1 ?ev') \<Longrightarrow> bm_MessageID bm' = ''''" for b1 bm'
    using added_sent [OF assms(4), of bm' b1 now1' now2' ch'] assms(5) by simp
  ultimately have "set (added (foldl broker_step b0 (evs0 @ ?ev # evs)) ?ev') = {}" by (metis (no_types, lifting) image_eqI ex_in_conv)
  then show ?thesis by (simp del: added.simps broker_step.simps)
qed

theorem ephemeral_messages_lost_witness:
  "let arrival = (\<lambda>t m. Arrives t t (pmessage ''sr:pub:r'' (the (sent_payload ''a'' m))))
   in length (added (demo_broker ''b'') (arrival 5 (node_sample ''''))) = 1 \<and>
      added (broker_step (demo_broker ''b'') (arrival 5 (node_sample '''')))
        (arrival 6 ((node_sample '''')\<lparr>msg_Content := Some ''bye''\<rparr>)) = []"
proof -
  let ?arrival = "\<lambda>t m. Arrives t t (pmessage ''sr:pub:r'' (the (sent_payload ''a'' m)))"
  let ?b = "demo_broker ''b''" and ?m = "node_sample ''''" and ?m' = "(node_sample '''')\<lparr>msg_Content := Some ''bye''\<rparr>"
  have i: "msg_ID ?m = ''''" "msg_ID ?m' = ''''" by (simp_all add: node_sample_def)
  have s: "sendable ''a'' ?m" using sample_sendable [of "''''"] by simp
  have s': "sendable ''a'' ?m'"
    by (simp add: sendable_def valid_node_def node_message_of_def node_sample_def ascii_valid valid_map_def time_to_milli_def
      in_int64_def min_int64_def max_int64_def)
  obtain d where d: "IsDuplicate (NewDedupeCache 0 0) '''' 5 5 = Some (False, d)" using empty_cache_new by blast
  have a: "added ?b (?arrival 5 ?m) = [broker_message_of ''a'' ''sr:pub:r'' ?m]"
    using accept_sent [OF s, of ?b 5 5 "''sr:pub:r''"] d i by simp
  have "added (foldl broker_step ?b ([] @ ?arrival 5 ?m # [])) (?arrival 6 ?m') = []"
    by (rule ephemeral_messages_lost [OF demo_broker_new [of "''b''"] s i(1) s' i(2)])
      (simp_all add: a NewDedupeCache_def time_Sub_def min_int64_def max_int64_def second_def del: added.simps)
  with a show ?thesis by (simp add: Let_def del: added.simps broker_step.simps)
qed
section \<open>A subscription uses up its client\<close>

text \<open>The messages the loop reads, and how often it makes a new client, over a run.\<close>

definition reads_one :: "sub_phase \<Rightarrow> sub_phase \<Rightarrow> nat" where
  "reads_one phase ph = (if phase = Reading \<and> ph = Reading then 1 else 0)"

definition renews :: "sub_phase \<Rightarrow> sub_phase \<Rightarrow> nat" where
  "renews phase ph = (case phase of Subscribing errs \<Rightarrow> (if ph = Subscribing 0 then 1 else 0) | _ \<Rightarrow> 0)"

fun counted ::
    "(sub_phase \<Rightarrow> sub_phase \<Rightarrow> nat) \<Rightarrow> sub_env list \<Rightarrow> string \<Rightarrow> sub_phase \<Rightarrow> redis_broker \<Rightarrow> nat" where
  "counted f [] pattern phase b = 0"
| "counted f (en # ens) pattern phase b =
     (case subscription_step en pattern phase b of (ph, b1, ws) \<Rightarrow> f phase ph + counted f ens pattern ph b1)"

definition pool_size_of :: "redis_config \<Rightarrow> int" where
  "pool_size_of cfg = (if rd_PoolSize cfg \<le> 0 then 10 else rd_PoolSize cfg)"

text \<open>The client of the subscription has lost the connections \<open>lost\<close>.\<close>

definition lost_by :: "redis_broker \<Rightarrow> nat list \<Rightarrow> bool" where
  "lost_by b lost \<longleftrightarrow>
     (\<exists>p. bk_subConn b = Some p \<and> owns p lost \<and> rd_PoolSize (po_cfg p) = pool_size_of (bk_client b))"

lemma lost_by_bound: "lost_by b lost \<Longrightarrow> int (length lost) \<le> pool_size_of (bk_client b)"
  by (auto simp: lost_by_def owns_def)

lemma Do_lost:
  assumes "owns p lost"
  shows "\<exists>lost'. owns (snd (client_Do dial ctx args p)) lost' \<and> po_cfg (snd (client_Do dial ctx args p)) = po_cfg p \<and>
    length lost \<le> length lost'"
proof -
  obtain q held lost' where s: "pool_step dial (p, [], lost) (EvDo ctx args) = (q, held, lost')" by (metis prod_cases3)
  have "pool_inv (po_cfg p) (q, held, lost')"
    using pool_step_inv [of "po_cfg p" "(p, [], lost)" dial "EvDo ctx args"] assms s by (simp add: pool_inv_def)
  moreover from s have "held = [] \<and> q = snd (client_Do dial ctx args p) \<and> length lost \<le> length lost'"
    by (auto split: prod.splits outcome.splits)
  ultimately show ?thesis by (auto simp: pool_inv_def)
qed

lemma read_takes: "ReadPubSubMessage dial ctx p = (Returns m, q) \<Longrightarrow> length (abandoned dial ctx p) = 1"
  by (auto simp: ReadPubSubMessage_def abandoned_def split: prod.splits outcome.splits)

lemma accept_keeps [simp]:
  "bk_subConn (snd (accept_message now1 now2 m b)) = bk_subConn b" "bk_client (snd (accept_message now1 now2 m b)) = bk_client b"
  using accept_cases [of now1 now2 m b] by auto

lemma step_lost:
  assumes "lost_by b lost" and "subscription_step en pattern phase b = (ph, b1, ws)"
  shows "bk_client b1 = bk_client b \<and> (\<exists>lost'. lost_by b1 lost' \<and>
    (renews phase ph = 0 \<longrightarrow> length lost + reads_one phase ph \<le> length lost') \<and> (renews phase ph \<noteq> 0 \<longrightarrow> reads_one phase ph = 0))"
proof -
  from assms(1) obtain p where p: "bk_subConn b = Some p" "owns p lost" "rd_PoolSize (po_cfg p) = pool_size_of (bk_client b)"
    by (auto simp: lost_by_def)
  show ?thesis
  proof (cases phase)
    case (Subscribing errs)
    obtain x q where d: "client_Do (se_dial en) (bk_cancelled b) [''PSUBSCRIBE'', bk_prefix b @ pattern] p = (x, q)" by fastforce
    from Do_lost [OF p(2), of "se_dial en" "bk_cancelled b" "[''PSUBSCRIBE'', bk_prefix b @ pattern]"] d
    obtain lost' where q: "owns q lost'" "po_cfg q = po_cfg p" "length lost \<le> length lost'" by auto
    have kept: "lost_by (b\<lparr>bk_subConn := Some q\<rparr>) lost'" using p q by (simp add: lost_by_def)
    show ?thesis
    proof (cases "bk_cancelled b")
      case True
      with assms Subscribing p show ?thesis
        by (auto simp: subscription_step_def left_loop_def renews_def reads_one_def lost_by_def)
    next
      case False
      show ?thesis
      proof (cases x)
        case (Fails e)
        obtain y r where n: "NewPool (se_redial en) (bk_client b) = (y, r)" by fastforce
        have fresh: "lost_by (b\<lparr>bk_subConn := Some r\<rparr>) []" if "y = Returns ()"
          using NewPool_owns [of "se_redial en" "bk_client b" r] n that by (simp add: lost_by_def pool_size_of_def)
        show ?thesis
          using assms(2) Subscribing False p d Fails n fresh kept q(3)
          by (cases y) (auto simp: subscription_step_def resubscribe_def renews_def reads_one_def split: if_splits)
      qed (use assms(2) Subscribing False p d kept q(3) in
        \<open>auto simp: subscription_step_def renews_def reads_one_def\<close>)
    qed
  next
    case Reading
    obtain x q where r: "ReadPubSubMessage (se_dial en) (bk_cancelled b) p = (x, q)" by fastforce
    let ?lost = "abandoned (se_dial en) (bk_cancelled b) p @ lost"
    have kept: "lost_by (b\<lparr>bk_subConn := Some q\<rparr>) ?lost"
      using ReadPubSub_owns [OF p(2), of "se_dial en" "bk_cancelled b"] p r by (simp add: lost_by_def)
    show ?thesis
    proof (cases "bk_cancelled b")
      case True
      with assms Reading p show ?thesis
        by (auto simp: subscription_step_def left_loop_def renews_def reads_one_def lost_by_def)
    next
      case False
      show ?thesis
      proof (cases x)
        case (Returns m)
        obtain y b2 where a: "accept_message (se_clock en 0) (se_clock en 1) m (b\<lparr>bk_subConn := Some q\<rparr>) = (y, b2)" by fastforce
        have "bk_subConn b2 = Some q \<and> bk_client b2 = bk_client b"
          using accept_keeps [of "se_clock en 0" "se_clock en 1" m "b\<lparr>bk_subConn := Some q\<rparr>", unfolded a] by simp
        with kept have "lost_by b2 ?lost \<and> bk_client b2 = bk_client b" by (simp add: lost_by_def)
        moreover have "length ?lost = Suc (length lost)" using read_takes [OF r [unfolded Returns]] by simp
        ultimately show ?thesis
          using assms(2) Reading False p r Returns a
          by (cases y) (auto simp: subscription_step_def renews_def reads_one_def)
      qed (use assms(2) Reading False p r kept in \<open>auto simp: subscription_step_def renews_def reads_one_def\<close>)
    qed
  qed (use assms p in \<open>auto simp: subscription_step_def renews_def reads_one_def\<close>)
qed

lemma counted_bound:
  "lost_by b lost \<Longrightarrow>
   int (length lost) + int (counted reads_one ens pattern phase b) \<le>
     pool_size_of (bk_client b) * (1 + int (counted renews ens pattern phase b))"
proof (induction ens arbitrary: phase b lost)
  case Nil
  from lost_by_bound [OF this] show ?case by simp
next
  case (Cons en ens)
  obtain ph b1 ws where s: "subscription_step en pattern phase b = (ph, b1, ws)" by (metis prod_cases3)
  note st = step_lost [OF Cons.prems s]
  from conjunct1 [OF st] conjunct2 [OF st] obtain lost' where l: "bk_client b1 = bk_client b" "lost_by b1 lost'"
    "renews phase ph = 0 \<longrightarrow> length lost + reads_one phase ph \<le> length lost'" "renews phase ph \<noteq> 0 \<longrightarrow> reads_one phase ph = 0"
    by (elim exE conjE)
  let ?N = "pool_size_of (bk_client b)" and ?r = "counted renews ens pattern ph b1"
  have c: "counted f (en # ens) pattern phase b = f phase ph + counted f ens pattern ph b1" for f by (simp add: s)
  have ih: "int (length lost') + int (counted reads_one ens pattern ph b1) \<le> ?N * (1 + int ?r)"
    using Cons.IH [OF l(2), of ph] unfolding l(1) .
  show ?case
  proof (cases "renews phase ph = 0")
    case True
    with ih l(3) show ?thesis unfolding c by simp
  next
    case False
    then have one: "renews phase ph = 1" by (auto simp: renews_def split: sub_phase.splits if_splits)
    have "?N * (1 + int (1 + ?r)) = ?N * (1 + int ?r) + ?N" by (simp add: algebra_simps)
    with ih l(4) one lost_by_bound [OF Cons.prems] show ?thesis unfolding c one by simp
  qed
qed

text \<open>
  C34: A subscription receives at most as many messages as its client's pool has connections, for each client it makes:
  every message read takes a connection of the pool and never gives it back.
\<close>

theorem subscription_reads_bounded:
  assumes "broker_Subscribe dial b0 = (Returns (), b)" and "\<not> bk_running b0"
  shows "int (counted reads_one ens pattern (Subscribing 0) b) \<le>
    pool_size_of (bk_client b0) * (1 + int (counted renews ens pattern (Subscribing 0) b))"
proof -
  from assms obtain p where p: "NewPool dial (bk_client b0) = (Returns (), p)"
    "b = b0\<lparr>bk_subConn := Some p, bk_running := True\<rparr>"
    by (auto simp: broker_Subscribe_def split: prod.splits outcome.splits if_splits)
  with NewPool_owns [OF p(1)] have "lost_by b []" by (simp add: lost_by_def pool_size_of_def)
  from counted_bound [OF this, of ens pattern "Subscribing 0"] p show ?thesis by simp
qed

text \<open>A client with one connection, on a server with two answers.\<close>

definition one_connection :: redis_config where
  "one_connection = redis_DefaultConfig\<lparr>rd_PoolSize := 1, rd_MinIdleConns := 0\<rparr>"

definition two_answers :: network where
  "two_answers n =
     Some (fresh_conn (encode_reply (array_value []) @ encode_reply (array_value (map bulk_string [''message'', ''c'', ''d'']))))"

lemma one_read:
  fixes en
  defines "b \<equiv> (demo_broker ''b'')\<lparr>bk_client := one_connection, bk_running := True,
      bk_subConn := Some (snd (NewPool two_answers one_connection))\<rparr>"
  assumes "se_dial en = two_answers"
  shows "counted reads_one [en, en, en] ''*'' (Subscribing 0) b = 1 \<and> counted renews [en, en, en] ''*'' (Subscribing 0) b = 0"
proof -
  let ?a = "array_value []" and ?m = "array_value (map bulk_string [''message'', ''c'', ''d''])"
  let ?p = "\<lambda>inp sent q. \<lparr>po_cfg = one_connection, po_conns = q, po_closed = False, po_created = 1,
      po_heap = (\<lambda>_. no_conn)(0 := \<lparr>cn_input = inp, cn_sent = sent, cn_broken = False, cn_closed = False\<rparr>), po_dials = 1\<rparr>"
  let ?b = "\<lambda>p. b\<lparr>bk_subConn := Some p\<rparr>" and ?w = "WriteCommand [''PSUBSCRIBE'', ''sr:pub:*'']"
  have ok: "reply_ok ?a" "reply_ok ?m"
    by (simp_all add: array_value_def bulk_string_def type_bytes max_alloc_def)
  have new: "NewPool two_answers one_connection =
      (Returns (), \<lparr>po_cfg = one_connection, po_conns = [], po_closed = False, po_created = 0, po_heap = (\<lambda>_. no_conn), po_dials = 0\<rparr>)"
    by (simp add: NewPool_def one_connection_def redis_DefaultConfig_def)
  have do_it: "client_Do two_answers False [''PSUBSCRIBE'', ''sr:pub:*''] (snd (NewPool two_answers one_connection)) =
      (Returns ?a, ?p (encode_reply ?m) ?w [0])"
    using ReadValue_encode [OF ok(1), of "encode_reply ?m"] unfolding new
    by (simp add: client_Do_def pool_Get_def newConn_def two_answers_def one_connection_def redis_DefaultConfig_def conn_setup_def
        fresh_conn_def conn_Do_def pool_Put_def)
  have read: "ReadPubSubMessage two_answers False (?p (encode_reply ?m) ?w [0]) =
      (Returns \<lparr>ps_Type = ''message'', ps_Pattern = '''', ps_Channel = ''c'', ps_Data = ''d''\<rparr>, ?p [] ?w [])"
    using ReadValue_encode [OF ok(2), of "[]"]
    by (simp add: ReadPubSubMessage_def pool_Get_def AsArray_def array_value_def bulk_string_def pubsub_of_array_def
        string_or_empty_def AsString_def type_bytes Let_def)
  have again: "ReadPubSubMessage two_answers False (?p [] ?w []) = (Blocks, ?p [] ?w [])"
    by (simp add: ReadPubSubMessage_def pool_Get_def one_connection_def)
  have b: "bk_prefix b = ''sr:pub:''" "\<not> bk_cancelled b" "bk_subConn b = Some (snd (NewPool two_answers one_connection))"
    by (simp_all add: b_def demo_broker_def)
  have "subscription_step en ''*'' (Subscribing 0) b = (Reading, ?b (?p (encode_reply ?m) ?w [0]), [])"
    using do_it b assms(2) by (simp add: subscription_step_def)
  moreover have "subscription_step en ''*'' Reading (?b (?p (encode_reply ?m) ?w [0])) = (Reading, ?b (?p [] ?w []), [])"
    using read b assms(2) by (simp add: subscription_step_def accept_message_def)
  moreover have "subscription_step en ''*'' Reading (?b (?p [] ?w [])) = (SubHangs, ?b (?p [] ?w []), [])"
    using again b assms(2) by (simp add: subscription_step_def)
  ultimately show ?thesis by (simp add: reads_one_def renews_def)
qed

theorem subscription_reads_bounded_witness:
  "\<exists>b. broker_Subscribe two_answers ((demo_broker ''b'')\<lparr>bk_client := one_connection\<rparr>) = (Returns (), b) \<and>
     (let en = \<lparr>se_dial = two_answers, se_redial = two_answers, se_clock = \<lambda>_. 0\<rparr>
      in counted reads_one [en, en, en] ''*'' (Subscribing 0) b = 1 \<and>
         int (counted reads_one [en, en, en] ''*'' (Subscribing 0) b) \<le> 1)"
proof -
  let ?old = "(demo_broker ''b'')\<lparr>bk_client := one_connection\<rparr>"
    and ?b = "(demo_broker ''b'')\<lparr>bk_client := one_connection, bk_running := True,
      bk_subConn := Some (snd (NewPool two_answers one_connection))\<rparr>"
    and ?en = "\<lparr>se_dial = two_answers, se_redial = two_answers, se_clock = \<lambda>_. 0\<rparr>"
  have sub: "broker_Subscribe two_answers ?old = (Returns (), ?b)"
    by (simp add: broker_Subscribe_def demo_broker_def NewPool_def one_connection_def redis_DefaultConfig_def)
  have idle: "\<not> bk_running ?old" by (simp add: demo_broker_def)
  from subscription_reads_bounded [OF sub idle, of "[?en, ?en, ?en]" "''*''"] one_read [of ?en]
  have "int (counted reads_one [?en, ?en, ?en] ''*'' (Subscribing 0) ?b) \<le> pool_size_of one_connection * (1 + int 0)"
    by (simp del: counted.simps)
  moreover have "pool_size_of one_connection = 1" by (simp add: pool_size_of_def one_connection_def redis_DefaultConfig_def)
  moreover have "counted reads_one [?en, ?en, ?en] ''*'' (Subscribing 0) ?b = 1" by (rule conjunct1 [OF one_read]) simp
  ultimately show ?thesis using sub unfolding Let_def by auto
qed

section \<open>Closing\<close>

text \<open>
  \<open>Close\<close> closes the channel under the subscription: a message whose read is under way and that would be queued
  panics, and so does a second \<open>Close\<close>.
\<close>

lemma closed_broker_panics:
  assumes "broker_Close b = (Returns (), b')" and "sendable na m" and "na \<noteq> bk_nodeID b"
    and "IsDuplicate (bk_dedupe b) (msg_ID m) now1 now2 = Some (False, d)"
  shows "fst (accept_message now1 now2 (pmessage channel (the (sent_payload na m))) b') = Panics" and "fst (broker_Close b') = Panics"
proof -
  from assms(1) have b': "bk_chanClosed b'" "bk_nodeID b' = bk_nodeID b" "bk_dedupe b' = bk_dedupe b"
    by (auto simp: broker_Close_def Let_def split: if_splits)
  with accept_sent [OF assms(2), of b' now1 now2 channel] assms(3,4)
  show "fst (accept_message now1 now2 (pmessage channel (the (sent_payload na m))) b') = Panics" by simp
  from b'(1) show "fst (broker_Close b') = Panics" by (simp add: broker_Close_def Let_def)
qed

end
