(* ===== verification/Options.thy ===== *)
theory Options
  imports Relay
begin

text \<open>
  The functional options of \<open>engine/options.go\<close> for a relay: each changes one setting of the default
  configuration, in the order given.
\<close>

type_synonym relay_option = "relay_config \<Rightarrow> relay_config"

definition on_redis_config :: "(redis_config \<Rightarrow> redis_config) \<Rightarrow> relay_option" where
  "on_redis_config f c = c\<lparr>cf_Redis := f (cf_Redis c)\<rparr>"

definition WithRedisAddr :: "string \<Rightarrow> relay_option" where
  "WithRedisAddr addr = on_redis_config (\<lambda>c. c\<lparr>rd_Addr := addr\<rparr>)"

definition WithRedisPassword :: "string \<Rightarrow> relay_option" where
  "WithRedisPassword password = on_redis_config (\<lambda>c. c\<lparr>rd_Password := password\<rparr>)"

definition WithRedisDB :: "int \<Rightarrow> relay_option" where
  "WithRedisDB db = on_redis_config (\<lambda>c. c\<lparr>rd_DB := db\<rparr>)"

definition WithPrefix :: "string \<Rightarrow> relay_option" where
  "WithPrefix prefix c = c\<lparr>cf_Prefix := prefix\<rparr>"

definition WithPoolSize :: "int \<Rightarrow> relay_option" where
  "WithPoolSize sz = on_redis_config (\<lambda>c. c\<lparr>rd_PoolSize := sz\<rparr>)"

definition WithDialTimeout :: "duration \<Rightarrow> relay_option" where
  "WithDialTimeout timeout = on_redis_config (\<lambda>c. c\<lparr>rd_DialTimeout := timeout\<rparr>)"

definition WithReadTimeout :: "duration \<Rightarrow> relay_option" where
  "WithReadTimeout timeout = on_redis_config (\<lambda>c. c\<lparr>rd_ReadTimeout := timeout\<rparr>)"

definition WithWriteTimeout :: "duration \<Rightarrow> relay_option" where
  "WithWriteTimeout timeout = on_redis_config (\<lambda>c. c\<lparr>rd_WriteTimeout := timeout\<rparr>)"

definition WithHistorySize :: "int \<Rightarrow> relay_option" where
  "WithHistorySize sz c = c\<lparr>cf_DefaultHistorySize := sz\<rparr>"

definition WithHistoryTTL :: "duration \<Rightarrow> relay_option" where
  "WithHistoryTTL ttl c = c\<lparr>cf_DefaultHistoryTTL := ttl\<rparr>"

text \<open>Of the handler only matters whether there is one.\<close>

definition WithEventHandler :: "bool \<Rightarrow> relay_option" where
  "WithEventHandler handler c = c\<lparr>cf_EventHandler := handler\<rparr>"

definition WithRedisConfig :: "redis_config \<Rightarrow> relay_option" where
  "WithRedisConfig cfg = on_redis_config (\<lambda>_. cfg)"

definition configured :: "relay_option list \<Rightarrow> relay_config" where
  "configured opts = foldl (\<lambda>cfg opt. opt cfg) DefaultConfig opts"

definition NewWithOptions ::
    "network \<Rightarrow> bool \<Rightarrow> relay_option list \<Rightarrow> gotime \<Rightarrow> (nat \<Rightarrow> message) \<Rightarrow>
     (relay_error, pool relay) outcome \<times> pool" where
  "NewWithOptions dial ctx_done opts now msgs = NewRelay dial ctx_done (configured opts) now msgs"

lemmas option_defs = on_redis_config_def WithRedisAddr_def WithRedisPassword_def WithRedisDB_def WithPrefix_def
  WithPoolSize_def WithDialTimeout_def WithReadTimeout_def WithWriteTimeout_def WithHistorySize_def WithHistoryTTL_def
  WithEventHandler_def WithRedisConfig_def

section \<open>The last option for a setting decides\<close>

definition leaves_alone :: "(relay_config \<Rightarrow> 'a) \<Rightarrow> relay_option \<Rightarrow> bool" where
  "leaves_alone f opt \<longleftrightarrow> (\<forall>c. f (opt c) = f c)"

lemma last_option_decides:
  "\<forall>o2 \<in> set later. leaves_alone f o2 \<Longrightarrow> f (configured (earlier @ opt # later)) = f (opt (configured earlier))"
  by (induction later rule: rev_induct) (simp_all add: configured_def leaves_alone_def)

lemma settings_apart:
  "leaves_alone cf_Prefix (WithRedisConfig cfg)" "leaves_alone cf_Redis (WithPrefix p)"
  "leaves_alone (\<lambda>c. rd_PoolSize (cf_Redis c)) (WithRedisAddr a)"
  "leaves_alone (\<lambda>c. rd_Addr (cf_Redis c)) (WithPoolSize n)"
  by (simp_all add: leaves_alone_def option_defs)

text \<open>A relay made with options has the prefix and the handler of the last options that set them.\<close>

lemma NewWithOptions_settings:
  assumes "NewWithOptions dial ctx_done (earlier @ WithPrefix p # later) now msgs = (Returns r, q)" and "p \<noteq> ''''"
    and "\<forall>o2 \<in> set later. leaves_alone cf_Prefix o2"
  shows "rl_prefix r = p"
proof -
  have "cf_Prefix (configured (earlier @ WithPrefix p # later)) = p"
    using last_option_decides [OF assms(3), of earlier "WithPrefix p"] by (simp add: WithPrefix_def)
  with assms(1,2) show ?thesis
    by (auto simp: NewWithOptions_def NewRelay_def relay_over_def split: prod.splits outcome.splits)
qed

end
