(* ===== verification/Spec2Isabelle.thy ===== *)
theory Spec2Isabelle
  imports MemoryRelay Permissions Namespaces Dedupe RelayProps History HandlerFaults ClusterProps Options
begin

text \<open>
  A verification development of \<open>stream-relay\<close>, a real-time message relay in Go.

  \<^bold>\<open>The program.\<close>  Package \<open>redis\<close> speaks the Redis protocol: \<open>resp.go\<close> writes commands and reads replies,
  \<open>client.go\<close> keeps a bounded pool of connections, \<open>stream.go\<close> wraps the stream commands.  Package \<open>engine\<close> is the
  relay.  Rooms (\<open>room.go\<close>) have members, subscribers and presence, broadcast messages with retries, and run a
  goroutine that reads the room's stream; the relay (\<open>relay.go\<close>, \<open>history.go\<close>) keeps the rooms, publishes, and recovers
  missed messages from the streams.  \<open>memory_relay.go\<close> is the same without Redis, with a ring buffer per room.  A client
  connection (\<open>handler.go\<close>) decodes the commands of \<open>protocol.go\<close>, asks \<open>permissions.go\<close> and \<open>namespace.go\<close> what
  its user may do, and is itself a subscriber of rooms.  \<open>broker.go\<close> joins the relays of several nodes by Redis
  Pub/Sub, with a cache against duplicates.  \<open>options.go\<close> configures, \<open>types.go\<close> holds the shared data.

  \<^bold>\<open>The theories.\<close>

  \<^item> Prelude: Go's slices, integers and time stamps, and the interfaces several components provide, as locales:
    \<open>step_machine\<close> and \<open>machine\<close> (operations that keep an invariant), \<open>bounded_log\<close>, \<open>codec\<close> and \<open>document\<close>.
    Strconv: the decimal conversions of the standard library.  Types: \<open>types.go\<close>, the errors, the room options.
    Json and Base64: the part of \<open>encoding/json\<close> the program uses.
  \<^item> RingBuffer, MessageId, MemoryRelay: \<open>memory_relay.go\<close>.  RingBuffer refines ``append and keep the newest'';
    MessageId makes identifiers distinct and ordered; MemoryRelay has every operation of rooms and relay over a heap of
    rooms and messages, since the code shares both by pointer.
  \<^item> Pattern, Permissions: \<open>permissions.go\<close>.  Namespaces: \<open>namespace.go\<close>.  A map iteration of the code is a
    list of keys, an argument that stands for the order of the runtime.
  \<^item> Resp, Pool, Stream: package \<open>redis\<close>.  A connection is the bytes it still delivers and those sent on it; the
    network, a function from dials to connections, is a parameter.  Stream and everything above it run on an
    \<^emph>\<open>executor\<close>, a state-passing function from command to reply that stands for \<open>Client.Do\<close>.
  \<^item> Delivery: what both kinds of room share, from one delivery (retries, panic recovery) to the fan-out of
    \<open>Broadcast\<close>, and the locale \<open>subscriber_room\<close> of their subscriber tables.  Entries: messages as stream entries.
    Room: \<open>room.go\<close>, the listener round by round.  Relay, History: \<open>relay.go\<close> and \<open>history.go\<close>.  Options: the
    relay's half of \<open>options.go\<close>.
  \<^item> RelaySpec: the laws of a Redis server as its commands document them (\<open>redis_laws\<close>), a small server that has them,
    and what the relay promises on such a server.  RelayProps: the invariant of the relay whatever the server answers,
    and what goes wrong.
  \<^item> Protocol, Canonical: \<open>protocol.go\<close> and what its encoders write, read back.  Hub, Handler: \<open>handler.go\<close>.  The
    hub is the state all connections share (handlers, checkers, namespaces, the Redis relay with its rooms) and the
    mutexes that are held.  Closing, Deadlocks: closing handlers.  HandlerProps, HandlerRights, HandlerFaults, Wire: what
    handling a command does, from the text received to the texts written to every connection.
  \<^item> Dedupe, NodeMessage, Broker, Cluster: \<open>broker.go\<close>, from the cache and the messages between nodes to the broker
    with its subscription goroutine and the cluster relay.  BrokerProps, ClusterProps: their properties.

  \<^bold>\<open>Correspondence.\<close>  Definitions have the names of the code, with a prefix where two types share a method name:
  \<open>rb_\<close> the ring buffer, \<open>mr_\<close> and \<open>ml_\<close> the in-memory room and relay, \<open>rl_\<close> the Redis relay, \<open>Room_\<close>, \<open>hub_\<close>,
  \<open>broker_\<close>, \<open>cluster_\<close>, \<open>pool_\<close>, \<open>conn_\<close>, \<open>client_\<close>.  A struct is a record, an operation a function from state to
  result and state.  The results of type \<open>outcome\<close> are those of Go: \<open>Returns\<close>, \<open>Fails\<close> with an error value, \<open>Panics\<close>,
  and \<open>Blocks\<close> for a call that never returns.  What other code sees (deliveries, closed subscribers, events,
  texts written to a transport) is a list of effects in their order.  Clock readings, random order and what
  subscribers and transports answer are arguments.

  \<^bold>\<open>What is shown.\<close>  Safety and functional behaviour along the path of a message: a publication reaches every other
  subscriber of the channel exactly once, with its contents (Wire), across nodes (ClusterProps), and is recovered from
  the stream in order, each message once (RelaySpec).  Every command gets one answer and only what the
  permissions allow happens (HandlerFaults, HandlerProps).  Data structures refine simple specifications
  (RingBuffer, Dedupe), formats read back (Resp, Canonical, NodeMessage, MessageId), the pool never shares or leaks
  past its bound (Pool), rooms and relays keep their invariants (MemoryRelay, RelayProps).  Closing terminates (Closing).
  The error properties prove defects: three deadlocks between closing handlers and the mutexes of room and relay,
  unsubscribing that ends the connection, double delivery of persisted messages, a listener that misses what is added
  between its reads, an authentication requirement that refuses nobody, a history request that is never answered, a
  cluster subscription that uses up its connections, and ephemeral messages dropped as duplicates.

  \<^bold>\<open>Bounds and fuel.\<close>  \<open>close_sub\<close>, \<open>leave_all\<close> and \<open>leave_room\<close> recurse through rooms into other handlers; the fuel is
  the number of open handlers, and Closing shows that it is never used up, since each level closes one.  \<open>listen_loop\<close>
  and \<open>subscription_loop\<close> run for as many rounds as are asked for: the goroutines have no end of their own, and the
  properties hold for every number of rounds.  The eviction loop of the cache is a \<open>partial_function\<close>, shown to end on
  every reachable cache.  The JSON parser has the depth limit of Go, 10000.  \<open>publish_loop\<close> ends because the number of
  attempts left falls.  Integers are the 64-bit ones of Go where they can wrap; permissions are words.

  \<^bold>\<open>Assumptions.\<close>  Calls on one relay, pool or handler do not interleave, except where a step relation says
  so (\<open>GetOrCreateRoom\<close> of the in-memory relay, the steps of listener and subscription); a mutex that is held when it is
  taken again blocks for ever.  Transports answer with an error or none and do not panic; subscribers may do anything
  Receive can do.  Ping intervals are below \<open>2 ^ 24\<close> seconds.  The text of an error of the JSON encoder is not
  modelled, only that it fails.  An array element \<open>null\<close> in a member \<open>content\<close> given twice is read as 0.  Logging does nothing.

  \<^bold>\<open>Not modelled.\<close>  \<open>streamrelay.go\<close> only renames the types, constants and functions of the two packages for
  importers.  Getters that return a field have no definition.  The constants, types and helpers of \<open>protocol.go\<close> that
  nothing uses (\<open>CmdRPC\<close>, \<open>MessageEnvelope\<close>, \<open>Timestamp\<close>, the codes 104 and 106) are left out.  Dialling, time-outs of the
  network, and the Redis server are parameters.  The race between a subscription that is reading and \<open>Close\<close>, which
  closes the channel the reader sends on, is not a step of the subscription; \<open>closed_broker_panics\<close> says how it ends.

  \<^bold>\<open>Next.\<close>  Handlers on a cluster relay: the composition of \<open>cluster_Publish\<close> with the handlers of another node; the
  interleaving of \<open>Close\<close> with the goroutines; a simulation between the in-memory and the Redis relay.
\<close>

end
